theory Spec2Isabelle
  imports Complex_Main "HOL-Library.Word" "HOL-Library.Signed_Division"
begin

unbundle bit_operations_syntax

section \<open>Constants of the WIPE interpreter\<close>

text \<open>
  The controller sketch names its token, type and operator codes with preprocessor
  constants. They are kept under their source names. Codes are small unsigned
  numbers (\<open>uint8\<close> in the source) and are compared only for equality, so they
  are natural numbers here.
\<close>

definition WIPE_ID_UNDEF :: nat where [simp]: "WIPE_ID_UNDEF = 0"
definition WIPE_ID_LABEL :: nat where [simp]: "WIPE_ID_LABEL = 1"
definition WIPE_ID_INT :: nat where [simp]: "WIPE_ID_INT = 2"
definition WIPE_ID_FLOAT :: nat where [simp]: "WIPE_ID_FLOAT = 3"
definition WIPE_ID_BOOL :: nat where [simp]: "WIPE_ID_BOOL = 4"

definition WIPE_OP_UNDEF :: nat where [simp]: "WIPE_OP_UNDEF = 0"
definition WIPE_OP_PLUS :: nat where [simp]: "WIPE_OP_PLUS = 1"
definition WIPE_OP_MINUS :: nat where [simp]: "WIPE_OP_MINUS = 2"
definition WIPE_OP_MULT :: nat where [simp]: "WIPE_OP_MULT = 3"
definition WIPE_OP_DIV :: nat where [simp]: "WIPE_OP_DIV = 4"
definition WIPE_OP_MOD :: nat where [simp]: "WIPE_OP_MOD = 5"
definition WIPE_OP_NEG :: nat where [simp]: "WIPE_OP_NEG = 6"
definition WIPE_OP_COMPL :: nat where [simp]: "WIPE_OP_COMPL = 7"
definition WIPE_OP_OR :: nat where [simp]: "WIPE_OP_OR = 8"
definition WIPE_OP_AND :: nat where [simp]: "WIPE_OP_AND = 9"
definition WIPE_OP_EQ :: nat where [simp]: "WIPE_OP_EQ = 10"
definition WIPE_OP_NE :: nat where [simp]: "WIPE_OP_NE = 11"
definition WIPE_OP_LT :: nat where [simp]: "WIPE_OP_LT = 12"
definition WIPE_OP_LE :: nat where [simp]: "WIPE_OP_LE = 13"
definition WIPE_OP_GT :: nat where [simp]: "WIPE_OP_GT = 14"
definition WIPE_OP_GE :: nat where [simp]: "WIPE_OP_GE = 15"
definition WIPE_OP_DELIM :: nat where [simp]: "WIPE_OP_DELIM = 16"

section \<open>Symbol values\<close>

text \<open>
  \<open>SymValue_t\<close> is a C union of an \<open>int32\<close>, a \<open>float\<close>, a \<open>boolean\<close> and a
  pointer: four bytes of storage read through different members. The evaluator copies
  whole unions and reads members other than the one last written, so the union is
  modelled by its storage, a 32-bit word.
  \<^item> \<open>intValue\<close> is the word itself, read as two's complement.
  \<^item> \<open>boolValue\<close> is the byte at the lowest address (the AVR is little-endian); it is
    true when that byte is not zero. Storing \<open>boolValue\<close> replaces that byte only.
  \<^item> \<open>floatValue\<close> reads the four bytes as a \<open>float\<close>. The values of C \<open>float\<close>
    are modelled by the reals (rounding, infinities and NaN are not represented); the
    encoding into the four bytes is left open as a pair of functions handed to every
    operation that reads or writes the member.
\<close>

type_synonym SymValue_t = "32 word"

record float_view =
  floatValue :: "SymValue_t \<Rightarrow> real"
  to_floatValue :: "real \<Rightarrow> SymValue_t"

definition intValue :: "SymValue_t \<Rightarrow> int" where
  "intValue v = sint v"

definition boolValue :: "SymValue_t \<Rightarrow> bool" where
  "boolValue v = ((ucast v :: 8 word) \<noteq> 0)"

definition set_boolValue :: "SymValue_t \<Rightarrow> bool \<Rightarrow> SymValue_t" where
  "set_boolValue v b = (v AND NOT 255) OR (if b then 1 else 0)"

section \<open>Operators of the expression evaluator\<close>

definition wipeEvalIntRelation :: "int \<Rightarrow> int \<Rightarrow> nat \<Rightarrow> bool" where
  "wipeEvalIntRelation value1 value2 operation =
     (if operation = WIPE_OP_EQ then value1 = value2
      else if operation = WIPE_OP_NE then value1 \<noteq> value2
      else if operation = WIPE_OP_LT then value1 < value2
      else if operation = WIPE_OP_LE then value1 \<le> value2
      else if operation = WIPE_OP_GT then value1 > value2
      else if operation = WIPE_OP_GE then value1 \<ge> value2
      else False)"

definition wipeEvalFloatRelation :: "real \<Rightarrow> real \<Rightarrow> nat \<Rightarrow> bool" where
  "wipeEvalFloatRelation value1 value2 operation =
     (if operation = WIPE_OP_EQ then value1 = value2
      else if operation = WIPE_OP_NE then value1 \<noteq> value2
      else if operation = WIPE_OP_LT then value1 < value2
      else if operation = WIPE_OP_LE then value1 \<le> value2
      else if operation = WIPE_OP_GT then value1 > value2
      else if operation = WIPE_OP_GE then value1 \<ge> value2
      else False)"

definition wipeEvalBoolRelation :: "bool \<Rightarrow> bool \<Rightarrow> nat \<Rightarrow> bool" where
  "wipeEvalBoolRelation value1 value2 operation =
     (if operation = WIPE_OP_EQ then value1 = value2
      else if operation = WIPE_OP_NE then value1 \<noteq> value2
      else False)"

text \<open>
  The three operation functions return \<open>legalOp\<close> and the new content of \<open>*value1\<close>.
  \<open>None\<close> stands for undefined behaviour of the C expression (integer division by
  zero) or, for \<open>float\<close>, a quotient that is no real number. Signed 32-bit arithmetic
  wraps around, as the AVR code does.
\<close>

definition wipeEvalIntOperation ::
  "32 word \<Rightarrow> 32 word \<Rightarrow> nat \<Rightarrow> (bool \<times> 32 word) option" where
  "wipeEvalIntOperation value1 value2 operation =
     (if operation = WIPE_OP_NEG then Some (True, - value1)
      else if operation = WIPE_OP_PLUS then Some (True, value1 + value2)
      else if operation = WIPE_OP_MINUS then Some (True, value1 - value2)
      else if operation = WIPE_OP_MULT then Some (True, value1 * value2)
      else if operation = WIPE_OP_DIV then
        (if value2 = 0 then None
         else Some (True, word_of_int (sint value1 sdiv sint value2)))
      else if operation = WIPE_OP_MOD then
        (if value2 = 0 then None
         else Some (True, word_of_int (sint value1 smod sint value2)))
      else Some (False, value1))"

text \<open>
  In \<open>wipeEvalFloatOperation\<close> the case \<open>WIPE_OP_NEG\<close> has no \<open>break\<close>: after the
  negation control falls into the case \<open>WIPE_OP_PLUS\<close>.
\<close>

definition wipeEvalFloatOperation ::
  "real \<Rightarrow> real \<Rightarrow> nat \<Rightarrow> (bool \<times> real) option" where
  "wipeEvalFloatOperation value1 value2 operation =
     (if operation = WIPE_OP_NEG then Some (True, (- value1) + value2)
      else if operation = WIPE_OP_PLUS then Some (True, value1 + value2)
      else if operation = WIPE_OP_MINUS then Some (True, value1 - value2)
      else if operation = WIPE_OP_MULT then Some (True, value1 * value2)
      else if operation = WIPE_OP_DIV then
        (if value2 = 0 then None else Some (True, value1 / value2))
      else Some (False, value1))"

text \<open>
  \<open>boolean\<close> is the C++ type \<open>bool\<close>. The operands of \<open>+\<close> and \<open>-\<close> are promoted
  to \<open>int\<close>, and the result is converted back: it is true when it is not zero.
  The case \<open>WIPE_OP_COMPL\<close> has no \<open>break\<close> either and falls into \<open>WIPE_OP_OR\<close>.
\<close>

definition wipeEvalBoolOperation :: "bool \<Rightarrow> bool \<Rightarrow> nat \<Rightarrow> bool \<times> bool" where
  "wipeEvalBoolOperation value1 value2 operation =
     (if operation = WIPE_OP_COMPL then
        (True, (of_bool (\<not> value1) + of_bool value2 :: int) \<noteq> 0)
      else if operation = WIPE_OP_OR then
        (True, (of_bool value1 + of_bool value2 :: int) \<noteq> 0)
      else if operation = WIPE_OP_AND then
        (True, (of_bool value1 - of_bool value2 :: int) \<noteq> 0)
      else (False, value1))"

definition wipeIsRelational :: "nat \<Rightarrow> bool" where
  "wipeIsRelational operation =
     (operation = WIPE_OP_EQ \<or> operation = WIPE_OP_NE \<or> operation = WIPE_OP_LT \<or>
      operation = WIPE_OP_LE \<or> operation = WIPE_OP_GT \<or> operation = WIPE_OP_GE)"

section \<open>Coercion and type checking\<close>

text \<open>
  \<open>wipeAssign\<close> returns its boolean result and the new content of \<open>*var\<close>.
  The bounds of the test on a \<open>float\<close> value are \<open>(float)MININT32\<close> and
  \<open>(float)MAXINT32\<close>. The first is \<open>-2147483648\<close>; the second is not 2147483647,
  which no \<open>float\<close> holds, but the nearest one, 2147483648. The conversion \<open>(int)value.floatValue\<close> goes through the 16-bit \<open>int\<close> of the
  AVR and truncates towards zero; outside the range of that type it is undefined
  (\<open>None\<close>).
\<close>

definition float_MININT32 :: real where [simp]: "float_MININT32 = - 2147483648"
definition float_MAXINT32 :: real where [simp]: "float_MAXINT32 = 2147483648"

definition c_trunc :: "real \<Rightarrow> int" where
  "c_trunc x = (if 0 \<le> x then \<lfloor>x\<rfloor> else \<lceil>x\<rceil>)"

definition wipeAssign ::
  "float_view \<Rightarrow> SymValue_t \<Rightarrow> nat \<Rightarrow> SymValue_t \<Rightarrow> nat \<Rightarrow> (bool \<times> SymValue_t) option" where
  "wipeAssign F var varType val valType =
     (if varType = valType then Some (True, val)
      else if WIPE_ID_BOOL = varType then
        (if WIPE_ID_INT = valType \<and> (0 = intValue val \<or> 1 = intValue val)
         then Some (True, val) else Some (False, var))
      else if WIPE_ID_INT = varType then
        (if WIPE_ID_BOOL = valType then Some (True, val)
         else if WIPE_ID_FLOAT = valType then
           (if floatValue F val \<ge> float_MININT32 \<and> floatValue F val \<le> float_MAXINT32
            then (if - 32768 \<le> c_trunc (floatValue F val) \<and> c_trunc (floatValue F val) \<le> 32767
                  then Some (True, word_of_int (c_trunc (floatValue F val)))
                  else None)
            else Some (False, var))
         else Some (False, var))
      else if WIPE_ID_FLOAT = varType then
        (if WIPE_ID_INT = valType then Some (True, to_floatValue F (of_int (intValue val)))
         else if WIPE_ID_BOOL = valType then
           Some (True, to_floatValue F (of_bool (boolValue val)))
         else Some (False, var))
      else Some (False, var))"

definition wipeAreTypesValid ::
  "nat \<Rightarrow> nat \<Rightarrow> SymValue_t \<Rightarrow> nat \<Rightarrow> SymValue_t \<Rightarrow> nat \<Rightarrow> bool" where
  "wipeAreTypesValid operation type1 value1 type2 value2 resType =
     (if type1 = type2 then
        (if resType = type1 then True
         else WIPE_ID_BOOL = resType \<and> wipeIsRelational operation)
      else if WIPE_ID_BOOL = type1 \<or> WIPE_ID_BOOL = type2 then
        (let tmpVal = (if WIPE_ID_BOOL = type1 then value2 else value1)
         in (0 = intValue tmpVal \<or> 1 = intValue tmpVal) \<and> WIPE_ID_BOOL = resType)
      else False)"

section \<open>The expression evaluator\<close>

text \<open>
  \<open>wipeParseExpression\<close> is a loop: scan an operand, evaluate, scan an operator,
  until the end of the expression. The two scanners work on characters; the
  evaluation works on what they deliver. An expression is represented here by what
  the scanners and the operand resolution deliver in each round of the loop:
  \<^item> for the operand, the unary operator found in front of it (\<open>WIPE_OP_UNDEF\<close> for
    none), its type and its value (the literal's value, or the type and value stored
    in the symbol table), or the failure that made the function return \<open>false\<close>;
  \<^item> for the operator, its code (\<open>WIPE_OP_UNDEF\<close> at the end of the line,
    \<open>WIPE_OP_DELIM\<close> at a comma or closing parenthesis), or a failed scan.
  The function below gives the result; what the loop prints on the way is given
  by \<open>wipeParseExpression_log\<close> further down. After "Bad unary operator" and "Bad
  operator for type" the source prints and goes on; so does the model.

  The local variable \<open>dummyValue\<close> is passed as second operand of every unary
  operation. The source never assigns it, so its value is whatever the stack or
  register holds: it is a parameter of the model.
\<close>

datatype expr_error =
    OperandScanFailed
  | VariableNotDefined
  | SysErrorUnknownExprType
  | IncompatibleOperandTypes
  | UnexpectedList
  | ExpressionOfWrongType
  | BadOperator
  | UndefinedBehaviour

datatype operand_scan =
    OperandFail expr_error
  | Operand nat nat SymValue_t

datatype operator_scan =
    OperatorFail
  | Operator nat

text \<open>The unary operator, applied to the operand just resolved.\<close>

definition wipeApplyUnary ::
  "float_view \<Rightarrow> 32 word \<Rightarrow> nat \<Rightarrow> nat \<Rightarrow> SymValue_t \<Rightarrow> expr_error + SymValue_t" where
  "wipeApplyUnary F dummyValue unary currOprndType currOprndValue =
     (if unary \<noteq> WIPE_OP_UNDEF then
        (if currOprndType = WIPE_ID_INT then
           (case wipeEvalIntOperation currOprndValue dummyValue unary of
              None \<Rightarrow> Inl UndefinedBehaviour
            | Some (legalOp, v) \<Rightarrow> Inr v)
         else if currOprndType = WIPE_ID_FLOAT then
           (case wipeEvalFloatOperation (floatValue F currOprndValue)
                   (of_nat (unat dummyValue)) unary of
              None \<Rightarrow> Inl UndefinedBehaviour
            | Some (legalOp, v) \<Rightarrow>
                Inr (if legalOp then to_floatValue F v else currOprndValue))
         else if currOprndType = WIPE_ID_BOOL then
           (case wipeEvalBoolOperation (boolValue currOprndValue) (dummyValue \<noteq> 0) unary of
              (legalOp, v) \<Rightarrow>
                Inr (if legalOp then set_boolValue currOprndValue v else currOprndValue))
         else Inl SysErrorUnknownExprType)
      else Inr currOprndValue)"

text \<open>
  The intermediate result of a binary operator. For a requested boolean result only
  the relational operators are computed: the branch has no \<open>else\<close>, so any other
  operator leaves \<open>oprndValue1\<close> as it is.
\<close>

definition wipeApplyBinary ::
  "float_view \<Rightarrow> nat \<Rightarrow> nat \<Rightarrow> nat \<Rightarrow> SymValue_t \<Rightarrow> SymValue_t \<Rightarrow> expr_error + SymValue_t" where
  "wipeApplyBinary F type operation oprndType1 oprndValue1 currOprndValue =
     (if WIPE_ID_BOOL = type then
        (if wipeIsRelational operation then
           (if oprndType1 = WIPE_ID_INT then
              Inr (of_bool (wipeEvalIntRelation (intValue oprndValue1)
                     (intValue currOprndValue) operation))
            else if oprndType1 = WIPE_ID_FLOAT then
              Inr (to_floatValue F (of_bool (wipeEvalFloatRelation (floatValue F oprndValue1)
                     (floatValue F currOprndValue) operation)))
            else if oprndType1 = WIPE_ID_BOOL then
              Inr (set_boolValue oprndValue1 (wipeEvalBoolRelation (boolValue oprndValue1)
                     (boolValue currOprndValue) operation))
            else Inl SysErrorUnknownExprType)
         else Inr oprndValue1)
      else
        (if oprndType1 = WIPE_ID_INT then
           (case wipeEvalIntOperation oprndValue1 currOprndValue operation of
              None \<Rightarrow> Inl UndefinedBehaviour
            | Some (legalOp, v) \<Rightarrow> Inr v)
         else if oprndType1 = WIPE_ID_FLOAT then
           (case wipeEvalFloatOperation (floatValue F oprndValue1)
                   (floatValue F currOprndValue) operation of
              None \<Rightarrow> Inl UndefinedBehaviour
            | Some (legalOp, v) \<Rightarrow> Inr (if legalOp then to_floatValue F v else oprndValue1))
         else if oprndType1 = WIPE_ID_BOOL then
           (case wipeEvalBoolOperation (boolValue oprndValue1)
                   (boolValue currOprndValue) operation of
              (legalOp, v) \<Rightarrow> Inr (if legalOp then set_boolValue oprndValue1 v else oprndValue1))
         else Inl SysErrorUnknownExprType))"

text \<open>
  The loop. Its state is \<open>firstOprnd\<close>, \<open>oprndType1\<close>, \<open>oprndValue1\<close> and the
  operator scanned in the round before. The result is the new content of \<open>*pResult\<close>
  when the function returns \<open>true\<close>. A text that ends where an operand is expected
  makes \<open>wipeScanOperand\<close> fail.
\<close>

fun wipeParseExpression_loop ::
  "float_view \<Rightarrow> 32 word \<Rightarrow> nat \<Rightarrow> bool \<Rightarrow> SymValue_t \<Rightarrow>
   bool \<Rightarrow> nat \<Rightarrow> SymValue_t \<Rightarrow> nat \<Rightarrow>
   (operand_scan \<times> operator_scan) list \<Rightarrow> expr_error + SymValue_t" where
  "wipeParseExpression_loop F dummyValue type listOk pResult
       firstOprnd oprndType1 oprndValue1 operation [] = Inl OperandScanFailed"
| "wipeParseExpression_loop F dummyValue type listOk pResult
       firstOprnd oprndType1 oprndValue1 operation ((OperandFail e, optr) # rest) = Inl e"
| "wipeParseExpression_loop F dummyValue type listOk pResult
       firstOprnd oprndType1 oprndValue1 operation
       ((Operand unary currOprndType currOprndValue0, optr) # rest) =
     (case
        (if type \<noteq> WIPE_ID_UNDEF then
           (case wipeApplyUnary F dummyValue unary currOprndType currOprndValue0 of
              Inl e \<Rightarrow> Inl e
            | Inr currOprndValue \<Rightarrow>
                if firstOprnd then Inr (currOprndType, currOprndValue)
                else if \<not> wipeAreTypesValid operation oprndType1 oprndValue1
                            currOprndType currOprndValue type
                then Inl IncompatibleOperandTypes
                else (case wipeApplyBinary F type operation oprndType1 oprndValue1
                             currOprndValue of
                        Inl e \<Rightarrow> Inl e
                      | Inr v \<Rightarrow> Inr (oprndType1, v)))
         else Inr (oprndType1, oprndValue1))
      of
        Inl e \<Rightarrow> Inl e
      | Inr (oprndType1', oprndValue1') \<Rightarrow>
          (case optr of
             OperatorFail \<Rightarrow> Inl BadOperator
           | Operator operation' \<Rightarrow>
               if \<not> listOk \<and> operation' = WIPE_OP_DELIM then Inl UnexpectedList
               else if operation' = WIPE_OP_UNDEF \<or> operation' = WIPE_OP_DELIM then
                 (if type \<noteq> WIPE_ID_UNDEF then
                    (case wipeAssign F pResult type oprndValue1' oprndType1' of
                       None \<Rightarrow> Inl UndefinedBehaviour
                     | Some (ok, r) \<Rightarrow> if ok then Inr r else Inl ExpressionOfWrongType)
                  else Inr pResult)
               else wipeParseExpression_loop F dummyValue type listOk pResult
                      False oprndType1' oprndValue1' operation' rest))"

text \<open>
  At entry \<open>firstOprnd\<close> is true; \<open>oprndType1\<close>, \<open>oprndValue1\<close> and \<open>operation\<close>
  are not initialised and not read before the first round has set them.
\<close>

definition wipeParseExpression ::
  "float_view \<Rightarrow> 32 word \<Rightarrow> (operand_scan \<times> operator_scan) list \<Rightarrow> nat \<Rightarrow> bool \<Rightarrow>
   SymValue_t \<Rightarrow> expr_error + SymValue_t" where
  "wipeParseExpression F dummyValue pExpr type listOk pResult =
     wipeParseExpression_loop F dummyValue type listOk pResult True 0 0 0 pExpr"

section \<open>Memory and interpreter state\<close>

text \<open>
  The program buffer \<open>m_program\<close> is an array of \<open>MAX_PROG_SIZE\<close> bytes. In C an
  access outside an array is undefined; on the AVR a read returns whatever lies behind
  the array and a write overwrites it (the buffers and cursors declared after
  \<open>m_program\<close>). The model makes every access outside the array the error
  \<open>OutOfBounds\<close>. A loop of the source that never ends is the error \<open>NoReturn\<close>,
  an integer division by zero the error \<open>DivisionByZero\<close>.
  The cursors are \<open>uint16\<close>. They are natural numbers here, reduced modulo
  \<open>2^16\<close> where the source subtracts or narrows a wider value. Where the source adds
  a length byte to a cursor it has just read the buffer at that cursor, so the sum is
  below \<open>MAX_PROG_SIZE + 256\<close> and no reduction is written.
\<close>

definition EEPROM_PROG_DIR_START :: nat where [simp]: "EEPROM_PROG_DIR_START = 17"
definition EEPROM_PROG_LEN :: nat where [simp]: "EEPROM_PROG_LEN = 4078"
definition DIR_PROG_OFFS :: nat where [simp]: "DIR_PROG_OFFS = 15"
definition MAX_PROGNAME_LEN :: nat where [simp]: "MAX_PROGNAME_LEN = 12"
definition MAX_PROG_SIZE :: nat where [simp]: "MAX_PROG_SIZE = 4064"
definition MAX_LINE_NUM :: nat where [simp]: "MAX_LINE_NUM = 255"
definition MAX_ID_LEN :: nat where [simp]: "MAX_ID_LEN = 4"
definition MAX_NUM_SYMBOLS :: nat where [simp]: "MAX_NUM_SYMBOLS = 200"
definition WIPE_MAX_PARMS :: nat where [simp]: "WIPE_MAX_PARMS = 7"

definition WASPCMD_GROUP :: nat where [simp]: "WASPCMD_GROUP = 1"
definition WASPCMD_STATE :: nat where [simp]: "WASPCMD_STATE = 2"
definition WASPCMD_BKGRD :: nat where [simp]: "WASPCMD_BKGRD = 3"
definition WASPCMD_LINE :: nat where [simp]: "WASPCMD_LINE = 4"
definition WASPCMD_SHIFT :: nat where [simp]: "WASPCMD_SHIFT = 5"
definition WASPCMD_SWAP :: nat where [simp]: "WASPCMD_SWAP = 6"
definition WASPCMD_RESET :: nat where [simp]: "WASPCMD_RESET = 7"
definition WASPCMD_SPEED :: nat where [simp]: "WASPCMD_SPEED = 8"
definition WASPCMD_RAINBOW :: nat where [simp]: "WASPCMD_RAINBOW = 9"
definition WASPCMD_RAINCYCLE :: nat where [simp]: "WASPCMD_RAINCYCLE = 10"
definition WASPCMD_TWINKLE :: nat where [simp]: "WASPCMD_TWINKLE = 11"

definition WIPE_UNDEF :: nat where [simp]: "WIPE_UNDEF = 0"
definition WIPE_FUNC :: nat where [simp]: "WIPE_FUNC = 26"
definition WIPE_LABEL :: nat where [simp]: "WIPE_LABEL = 27"
definition WIPE_GOTO :: nat where [simp]: "WIPE_GOTO = 28"
definition WIPE_IF :: nat where [simp]: "WIPE_IF = 29"
definition WIPE_LET :: nat where [simp]: "WIPE_LET = 30"
definition WIPE_PRINT :: nat where [simp]: "WIPE_PRINT = 31"
definition WIPE_VAR :: nat where [simp]: "WIPE_VAR = 32"
definition WIPE_FN_PAUSE :: nat where [simp]: "WIPE_FN_PAUSE = 33"
definition WIPE_PRT_STR :: nat where [simp]: "WIPE_PRT_STR = 0"
definition WIPE_PRT_VAR :: nat where [simp]: "WIPE_PRT_VAR = 1"

definition TKNZD_LINE_OFFS :: nat where [simp]: "TKNZD_LINE_OFFS = 0"
definition TKNZD_LEN_OFFS :: nat where [simp]: "TKNZD_LEN_OFFS = 1"
definition TKNZD_STMT_OFFS :: nat where [simp]: "TKNZD_STMT_OFFS = 2"

datatype fault = OutOfBounds | NoReturn | DivisionByZero

definition rd :: "8 word list \<Rightarrow> nat \<Rightarrow> fault + 8 word" where
  "rd m i = (if i < length m then Inr (m ! i) else Inl OutOfBounds)"

definition wr :: "8 word list \<Rightarrow> nat \<Rightarrow> 8 word \<Rightarrow> fault + 8 word list" where
  "wr m i v = (if i < length m then Inr (m[i := v]) else Inl OutOfBounds)"

definition seq :: "fault + 'a \<Rightarrow> ('a \<Rightarrow> fault + 'b) \<Rightarrow> fault + 'b" where
  "seq r f = (case r of Inl e \<Rightarrow> Inl e | Inr x \<Rightarrow> f x)"

definition uint16 :: "int \<Rightarrow> nat" where
  "uint16 i = nat (i mod 65536)"

text \<open>The C string that starts at an index: the bytes up to the first zero byte.\<close>

definition c_str :: "8 word list \<Rightarrow> nat \<Rightarrow> fault + 8 word list" where
  "c_str m pos =
     (if 0 \<in> set (drop pos m) then Inr (takeWhile (\<lambda>b. b \<noteq> 0) (drop pos m))
      else Inl OutOfBounds)"

record SymTblEntry_t =
  symbol :: "8 word list"
  typeId :: nat
  symValue :: SymValue_t

text \<open>What the interpreter prints, and what it sends to the command sink.\<close>

datatype console_out =
    LogText string
  | LogName "8 word list"
  | LogInt int
  | LogFloat real
  | LogBool bool
  | LogStatement nat
  | LogError string
  | LogExprError string

datatype sink_call =
    Background "8 word" "8 word" "8 word" "8 word"
  | SetGroup "8 word" "8 word" "8 word" "8 word"
  | DrawLine "8 word" "8 word" "8 word" "8 word" "8 word" "8 word"
  | WaspReset "8 word"
  | SetState "8 word" "8 word"
  | Shift "8 word" "8 word"
  | Swap "8 word" "8 word" "8 word" "8 word" "8 word" "8 word" "8 word"
  | Rainbow "8 word" "8 word"
  | RainbowCycle "8 word"
  | FxSpeed "8 word" "8 word"
  | Twinkle "8 word" "8 word" "8 word" "8 word" "8 word"
  | Pause "8 word" "8 word" "8 word"

record wipe_state =
  m_program :: "8 word list"
  m_wipeProgByte :: nat
  m_wipeLineStart :: nat
  m_wipeRunByte :: nat
  m_exprOffs :: nat
  m_breakProg :: bool
  m_symTbl :: "SymTblEntry_t list"
  console :: "console_out list"
  sink :: "sink_call list"

definition logPrint :: "console_out list \<Rightarrow> wipe_state \<Rightarrow> wipe_state" where
  "logPrint out st = st\<lparr>console := console st @ out\<rparr>"

section \<open>What the evaluator prints\<close>

text \<open>
  \<open>wipeShowExprErr\<close> prints the statement (or, while a line is compiled, the console
  line), a caret under the place of the error and the message. It is one item of the
  console, \<open>LogExprError\<close> with the message; the column of the caret is not
  represented.

  The evaluator prints and returns \<open>false\<close> at "Incompatible operand types", "Bad
  operator", "Unexpected list", "Expression is of wrong type" and at an operand of
  an unknown type. At "Bad unary operator" and "Bad operator for type" it prints
  and goes on. What \<open>wipeScanOperand\<close> and the lookup of a variable print in a
  round ("Invalid unary operation", after which the scan goes on, and the messages
  of a failed scan or lookup) is the parameter \<open>scanLog\<close>, by the number of the
  round. The function below follows the loop of \<open>wipeParseExpression\<close> round by
  round and collects the messages in the order in which they are printed.
\<close>

definition wipeSysErrorLog :: "nat \<Rightarrow> console_out list" where
  "wipeSysErrorLog type = [LogText ''***SYS ERROR: unknown expr type-'', LogInt (int type)]"

definition wipeUnaryLog ::
  "float_view \<Rightarrow> 32 word \<Rightarrow> nat \<Rightarrow> nat \<Rightarrow> nat \<Rightarrow> SymValue_t \<Rightarrow> console_out list" where
  "wipeUnaryLog F dummyValue type unary currOprndType currOprndValue =
     (if unary \<noteq> WIPE_OP_UNDEF then
        (if currOprndType = WIPE_ID_INT then
           (case wipeEvalIntOperation currOprndValue dummyValue unary of
              None \<Rightarrow> []
            | Some (legalOp, v) \<Rightarrow>
                if legalOp then [] else [LogExprError ''Bad unary operator''])
         else if currOprndType = WIPE_ID_FLOAT then
           (case wipeEvalFloatOperation (floatValue F currOprndValue)
                   (of_nat (unat dummyValue)) unary of
              None \<Rightarrow> []
            | Some (legalOp, v) \<Rightarrow>
                if legalOp then [] else [LogExprError ''Bad unary operator''])
         else if currOprndType = WIPE_ID_BOOL then
           (case wipeEvalBoolOperation (boolValue currOprndValue) (dummyValue \<noteq> 0) unary of
              (legalOp, v) \<Rightarrow>
                if legalOp then [] else [LogExprError ''Bad unary operator''])
         else wipeSysErrorLog type)
      else [])"

definition wipeBinaryLog ::
  "float_view \<Rightarrow> nat \<Rightarrow> nat \<Rightarrow> nat \<Rightarrow> SymValue_t \<Rightarrow> SymValue_t \<Rightarrow> console_out list" where
  "wipeBinaryLog F type operation oprndType1 oprndValue1 currOprndValue =
     (if WIPE_ID_BOOL = type then
        (if wipeIsRelational operation then
           (if oprndType1 = WIPE_ID_INT \<or> oprndType1 = WIPE_ID_FLOAT \<or>
               oprndType1 = WIPE_ID_BOOL
            then [] else wipeSysErrorLog type)
         else [])
      else
        (if oprndType1 = WIPE_ID_INT then
           (case wipeEvalIntOperation oprndValue1 currOprndValue operation of
              None \<Rightarrow> []
            | Some (legalOp, v) \<Rightarrow>
                if legalOp then [] else [LogExprError ''Bad operator for type''])
         else if oprndType1 = WIPE_ID_FLOAT then
           (case wipeEvalFloatOperation (floatValue F oprndValue1)
                   (floatValue F currOprndValue) operation of
              None \<Rightarrow> []
            | Some (legalOp, v) \<Rightarrow>
                if legalOp then [] else [LogExprError ''Bad operator for type''])
         else if oprndType1 = WIPE_ID_BOOL then
           (case wipeEvalBoolOperation (boolValue oprndValue1)
                   (boolValue currOprndValue) operation of
              (legalOp, v) \<Rightarrow>
                if legalOp then [] else [LogExprError ''Bad operator for type''])
         else wipeSysErrorLog type))"

fun wipeParseExpression_log_loop ::
  "float_view \<Rightarrow> 32 word \<Rightarrow> (nat \<Rightarrow> console_out list) \<Rightarrow> nat \<Rightarrow> bool \<Rightarrow> SymValue_t \<Rightarrow>
   nat \<Rightarrow> bool \<Rightarrow> nat \<Rightarrow> SymValue_t \<Rightarrow> nat \<Rightarrow>
   (operand_scan \<times> operator_scan) list \<Rightarrow> console_out list" where
  "wipeParseExpression_log_loop F dummyValue scanLog type listOk pResult
       k firstOprnd oprndType1 oprndValue1 operation [] = scanLog k"
| "wipeParseExpression_log_loop F dummyValue scanLog type listOk pResult
       k firstOprnd oprndType1 oprndValue1 operation ((OperandFail e, optr) # rest) = scanLog k"
| "wipeParseExpression_log_loop F dummyValue scanLog type listOk pResult
       k firstOprnd oprndType1 oprndValue1 operation
       ((Operand unary currOprndType currOprndValue0, optr) # rest) =
     (case
        (if type \<noteq> WIPE_ID_UNDEF then
           (case wipeApplyUnary F dummyValue unary currOprndType currOprndValue0 of
              Inl e \<Rightarrow>
                (wipeUnaryLog F dummyValue type unary currOprndType currOprndValue0, None)
            | Inr currOprndValue \<Rightarrow>
                if firstOprnd then
                  (wipeUnaryLog F dummyValue type unary currOprndType currOprndValue0,
                   Some (currOprndType, currOprndValue))
                else if \<not> wipeAreTypesValid operation oprndType1 oprndValue1
                            currOprndType currOprndValue type
                then (wipeUnaryLog F dummyValue type unary currOprndType currOprndValue0 @
                      [LogExprError ''Incompatible operand types''], None)
                else (case wipeApplyBinary F type operation oprndType1 oprndValue1
                             currOprndValue of
                        Inl e \<Rightarrow>
                          (wipeUnaryLog F dummyValue type unary currOprndType currOprndValue0 @
                           wipeBinaryLog F type operation oprndType1 oprndValue1 currOprndValue,
                           None)
                      | Inr v \<Rightarrow>
                          (wipeUnaryLog F dummyValue type unary currOprndType currOprndValue0 @
                           wipeBinaryLog F type operation oprndType1 oprndValue1 currOprndValue,
                           Some (oprndType1, v))))
         else ([], Some (oprndType1, oprndValue1)))
      of
        (msgs, None) \<Rightarrow> scanLog k @ msgs
      | (msgs, Some (oprndType1', oprndValue1')) \<Rightarrow>
          scanLog k @ msgs @
          (case optr of
             OperatorFail \<Rightarrow> [LogExprError ''Bad operator'']
           | Operator operation' \<Rightarrow>
               if \<not> listOk \<and> operation' = WIPE_OP_DELIM
               then [LogExprError ''Unexpected list'']
               else if operation' = WIPE_OP_UNDEF \<or> operation' = WIPE_OP_DELIM then
                 (if type \<noteq> WIPE_ID_UNDEF then
                    (case wipeAssign F pResult type oprndValue1' oprndType1' of
                       None \<Rightarrow> []
                     | Some (ok, r) \<Rightarrow>
                         if ok then [] else [LogExprError ''Expression is of wrong type''])
                  else [])
               else wipeParseExpression_log_loop F dummyValue scanLog type listOk pResult
                      (Suc k) False oprndType1' oprndValue1' operation' rest))"

definition wipeParseExpression_log ::
  "float_view \<Rightarrow> 32 word \<Rightarrow> (nat \<Rightarrow> console_out list) \<Rightarrow>
   (operand_scan \<times> operator_scan) list \<Rightarrow> nat \<Rightarrow> bool \<Rightarrow> SymValue_t \<Rightarrow> console_out list" where
  "wipeParseExpression_log F dummyValue scanLog pExpr type listOk pResult =
     wipeParseExpression_log_loop F dummyValue scanLog type listOk pResult 0 True 0 0 0 pExpr"

section \<open>Symbol table\<close>

fun first_index :: "('a \<Rightarrow> bool) \<Rightarrow> 'a list \<Rightarrow> nat option" where
  "first_index P [] = None"
| "first_index P (x # xs) =
     (if P x then Some 0 else map_option Suc (first_index P xs))"

text \<open>
  \<open>wipeSymbolInsert\<close> returns its result, \<open>*idx\<close> and the table. The loop returns at
  the first used entry with the same name, whether or not a free entry was seen before.
\<close>

definition wipeSymbolInsert ::
  "8 word list \<Rightarrow> nat \<Rightarrow> SymTblEntry_t list \<Rightarrow> bool \<times> nat \<times> SymTblEntry_t list" where
  "wipeSymbolInsert identifier type tbl =
     (case first_index (\<lambda>e. typeId e \<noteq> WIPE_ID_UNDEF \<and> symbol e = identifier)
             (take MAX_NUM_SYMBOLS tbl) of
        Some i \<Rightarrow> (False, i, tbl)
      | None \<Rightarrow>
          (case first_index (\<lambda>e. typeId e = WIPE_ID_UNDEF) (take MAX_NUM_SYMBOLS tbl) of
             Some freeIdx \<Rightarrow>
               (True, freeIdx,
                tbl[freeIdx := \<lparr>symbol = take MAX_ID_LEN identifier, typeId = type,
                                symValue = 0\<rparr>])
           | None \<Rightarrow> (False, MAX_NUM_SYMBOLS, tbl)))"

definition wipeSymbolLookup :: "8 word list \<Rightarrow> SymTblEntry_t list \<Rightarrow> nat option" where
  "wipeSymbolLookup identifier tbl =
     first_index (\<lambda>e. typeId e \<noteq> WIPE_ID_UNDEF \<and>
                      take MAX_ID_LEN (symbol e) = take MAX_ID_LEN identifier)
       (take MAX_NUM_SYMBOLS tbl)"

section \<open>Execution engine\<close>

text \<open>
  What the model of a statement's execution takes from outside:
  \<^item> the encoding of \<open>float\<close> and the value of the unassigned \<open>dummyValue\<close>, for the
    evaluator;
  \<^item> the initial content of the locals \<open>exprVal\<close> and \<open>parmValue\<close>, which the source
    does not initialise;
  \<^item> the scanners: for the symbol table, the program buffer and the index where an
    expression text starts, the rounds of the evaluator's loop and the value left in
    \<open>m_exprOffs\<close>; and what the scan of the operand prints in each round;
  \<^item> the console input: the character waiting when the statement polls for the cancel
    key, and the characters that arrive while a pause waits.
\<close>

record exec_env =
  env_float :: float_view
  env_dummy :: "32 word"
  env_exprVal :: SymValue_t
  env_parmValue :: "8 word list"
  env_scan :: "SymTblEntry_t list \<Rightarrow> 8 word list \<Rightarrow> nat \<Rightarrow>
               (operand_scan \<times> operator_scan) list \<times> nat"
  env_scanLog :: "SymTblEntry_t list \<Rightarrow> 8 word list \<Rightarrow> nat \<Rightarrow> nat \<Rightarrow> console_out list"

record console_in =
  rx_poll :: "8 word option"
  rx_pause :: "8 word list"

definition wipeParseExpression_at ::
  "exec_env \<Rightarrow> wipe_state \<Rightarrow> nat \<Rightarrow> nat \<Rightarrow> bool \<Rightarrow> SymValue_t \<Rightarrow>
   (expr_error + SymValue_t) \<times> wipe_state" where
  "wipeParseExpression_at E st pos type listOk pResult =
     (case env_scan E (m_symTbl st) (m_program st) pos of
        (pExpr, offs) \<Rightarrow>
          (wipeParseExpression (env_float E) (env_dummy E) pExpr type listOk pResult,
           logPrint (wipeParseExpression_log (env_float E) (env_dummy E)
                       (env_scanLog E (m_symTbl st) (m_program st) pos)
                       pExpr type listOk pResult)
             (st\<lparr>m_exprOffs := offs\<rparr>)))"

definition wipeShowError :: "string \<Rightarrow> wipe_state \<Rightarrow> wipe_state" where
  "wipeShowError errStr st = logPrint [LogError errStr] st"

text \<open>
  \<open>wipeLabelLocate\<close> returns its result and \<open>*progPos\<close>. The search loop steps by
  the length byte of each line; a length of zero keeps it at the same line for ever.
\<close>

function wipeLabelLocate_loop ::
  "wipe_state \<Rightarrow> 8 word list \<Rightarrow> nat \<Rightarrow> fault + (nat option \<times> wipe_state)" where
  "wipeLabelLocate_loop st label currLine =
     (if currLine < m_wipeProgByte st then
        (case rd (m_program st) (currLine + TKNZD_STMT_OFFS) of
           Inl e \<Rightarrow> Inl e
         | Inr stmt \<Rightarrow>
            (case (if unat stmt = WIPE_LABEL
                   then seq (c_str (m_program st) (currLine + TKNZD_STMT_OFFS + 1))
                          (\<lambda>name. Inr (name = label))
                   else Inr False) of
               Inl e \<Rightarrow> Inl e
             | Inr True \<Rightarrow>
                 (case wipeSymbolInsert label WIPE_ID_LABEL (m_symTbl st) of
                    (ok, symIdx, tbl) \<Rightarrow>
                      if ok then
                        Inr (Some currLine,
                             st\<lparr>m_symTbl :=
                                  tbl[symIdx := (tbl ! symIdx)\<lparr>symValue := of_nat currLine\<rparr>]\<rparr>)
                      else
                        Inr (None, logPrint [LogText ''No room for '', LogName label,
                                             LogText '' in sym table''] st))
             | Inr False \<Rightarrow>
                 (case rd (m_program st) (currLine + TKNZD_LEN_OFFS) of
                    Inl e \<Rightarrow> Inl e
                  | Inr len \<Rightarrow>
                      if len = 0 then Inl NoReturn
                      else wipeLabelLocate_loop st label (currLine + unat len))))
      else Inr (None, st))"
  by pat_completeness auto
termination
  by (relation "measure (\<lambda>(st, label, currLine). m_wipeProgByte st - currLine)")
     (auto simp: unat_gt_0 diff_less_mono2)

declare wipeLabelLocate_loop.simps [simp del]

definition wipeLabelLocate ::
  "8 word list \<Rightarrow> wipe_state \<Rightarrow> fault + (nat option \<times> wipe_state)" where
  "wipeLabelLocate label st =
     (case wipeSymbolLookup label (m_symTbl st) of
        Some symIdx \<Rightarrow>
          Inr (Some (uint16 (intValue (symValue (m_symTbl st ! symIdx)))), st)
      | None \<Rightarrow> wipeLabelLocate_loop st label (m_wipeLineStart st))"

text \<open>
  The outcome of a branch of the statement switch: a \<open>return\<close> with its value, or a
  \<open>break\<close> that leaves the switch for the common end of the function.
\<close>

datatype flow = Return nat wipe_state | Break wipe_state

text \<open>
  The parameter loop of a function call. An evaluation that fails ends the statement
  (\<open>None\<close>). A value outside \<open>-128..255\<close> is reported and then stored like any
  other, narrowed to \<open>uint8\<close>. \<open>parmValue\<close> has \<open>WIPE_MAX_PARMS\<close> elements.
\<close>

fun wipeExecParms ::
  "exec_env \<Rightarrow> nat \<Rightarrow> nat \<Rightarrow> wipe_state \<Rightarrow> SymValue_t \<Rightarrow> 8 word list \<Rightarrow>
   fault + (wipe_state \<times> 8 word list option)" where
  "wipeExecParms E 0 i st exprVal parmValue = Inr (st, Some parmValue)"
| "wipeExecParms E (Suc n) i st exprVal parmValue =
     (case wipeParseExpression_at E st (m_wipeRunByte st) WIPE_ID_INT True exprVal of
        (Inl e, st1) \<Rightarrow>
          Inr (logPrint [LogStatement (m_wipeLineStart st1), LogText ''***SYS ERROR''] st1,
               None)
      | (Inr v, st1) \<Rightarrow>
          (let st2 = (if intValue v < - 128 \<or> intValue v > 255
                      then logPrint [LogStatement (m_wipeLineStart st1),
                                     LogText ''***ERROR: arg value out of range''] st1
                      else st1)
           in if i < WIPE_MAX_PARMS then
                wipeExecParms E n (Suc i)
                  (st2\<lparr>m_wipeRunByte := m_wipeRunByte st2 + m_exprOffs st2\<rparr>)
                  v (parmValue[i := ucast v])
              else Inl OutOfBounds))"

definition parmValue_init :: "exec_env \<Rightarrow> 8 word list" where
  "parmValue_init E = take WIPE_MAX_PARMS (env_parmValue E @ replicate WIPE_MAX_PARMS 0)"

text \<open>The command-sink operation of a function code, with its arguments in call order.\<close>

definition wipeCallFunc :: "nat \<Rightarrow> 8 word list \<Rightarrow> sink_call option" where
  "wipeCallFunc funcId p =
     (if funcId = WASPCMD_BKGRD then Some (Background (p ! 0) (p ! 1) (p ! 2) (p ! 3))
      else if funcId = WASPCMD_GROUP then Some (SetGroup (p ! 0) (p ! 1) (p ! 2) (p ! 3))
      else if funcId = WASPCMD_LINE then
        Some (DrawLine (p ! 0) (p ! 4) (p ! 5) (p ! 1) (p ! 2) (p ! 3))
      else if funcId = WASPCMD_RESET then Some (WaspReset (p ! 0))
      else if funcId = WASPCMD_STATE then Some (SetState (p ! 0) (p ! 1))
      else if funcId = WASPCMD_SHIFT then Some (Shift (p ! 0) (p ! 1))
      else if funcId = WASPCMD_SWAP then
        Some (Swap (p ! 0) (p ! 1) (p ! 2) (p ! 3) (p ! 4) (p ! 5) (p ! 6))
      else if funcId = WASPCMD_RAINBOW then Some (Rainbow (p ! 0) (p ! 1))
      else if funcId = WASPCMD_RAINCYCLE then Some (RainbowCycle (p ! 0))
      else if funcId = WASPCMD_SPEED then Some (FxSpeed (p ! 0) (p ! 1))
      else if funcId = WASPCMD_TWINKLE then
        Some (Twinkle (p ! 0) (p ! 1) (p ! 2) (p ! 3) (p ! 4))
      else if funcId = WIPE_FN_PAUSE then Some (Pause (p ! 0) (p ! 1) (p ! 2))
      else None)"

text \<open>
  The call itself: the operation is appended to what the sink has received. \<open>pause\<close>
  sets \<open>m_breakProg\<close> when an \<open>x\<close> (code 120) arrives while it waits.
\<close>

definition wipeSinkCall :: "console_in \<Rightarrow> sink_call \<Rightarrow> wipe_state \<Rightarrow> wipe_state" where
  "wipeSinkCall I c st =
     (case c of
        Pause minutes seconds hundredths \<Rightarrow>
          st\<lparr>sink := sink st @ [c],
             m_breakProg := (if 120 \<in> set (rx_pause I) then True else m_breakProg st)\<rparr>
      | _ \<Rightarrow> st\<lparr>sink := sink st @ [c]\<rparr>)"

definition exec_FUNC :: "exec_env \<Rightarrow> console_in \<Rightarrow> wipe_state \<Rightarrow> nat \<Rightarrow> fault + flow" where
  "exec_FUNC E I st lineStart =
     seq (rd (m_program st) (m_wipeRunByte st)) (\<lambda>funcId.
     seq (rd (m_program st) (m_wipeRunByte st + 1)) (\<lambda>numParms.
     seq (wipeExecParms E (unat numParms) 0 (st\<lparr>m_wipeRunByte := m_wipeRunByte st + 3\<rparr>)
            (env_exprVal E) (parmValue_init E)) (\<lambda>(st1, r).
       case r of
         None \<Rightarrow> Inr (Return MAX_PROG_SIZE st1)
       | Some parmValue \<Rightarrow>
           (case wipeCallFunc (unat funcId) parmValue of
              None \<Rightarrow> Inr (Return MAX_PROG_SIZE (wipeShowError ''<unknown func>'' st1))
            | Some c \<Rightarrow> Inr (Break (wipeSinkCall I c st1))))))"

definition exec_GOTO :: "wipe_state \<Rightarrow> nat \<Rightarrow> fault + flow" where
  "exec_GOTO st lineStart =
     seq (c_str (m_program st) (m_wipeRunByte st)) (\<lambda>identifier.
     seq (wipeLabelLocate identifier
            (st\<lparr>m_wipeRunByte := m_wipeRunByte st + length identifier + 1\<rparr>)) (\<lambda>(progPos, st1).
       case progPos of
         Some pos \<Rightarrow> Inr (Return pos (st1\<lparr>m_wipeRunByte := pos\<rparr>))
       | None \<Rightarrow> Inr (Return MAX_PROG_SIZE (wipeShowError ''Can't jump to label'' st1))))"

text \<open>
  The conditional. On a false condition the cursor is set behind this line and, when a
  line is stored there, behind that line as well; at the end of the program the
  function returns \<open>MAX_PROG_SIZE\<close>.
\<close>

definition exec_IF :: "exec_env \<Rightarrow> wipe_state \<Rightarrow> nat \<Rightarrow> fault + flow" where
  "exec_IF E st lineStart =
     (case wipeParseExpression_at E st (m_wipeRunByte st) WIPE_ID_BOOL False (env_exprVal E) of
        (Inr exprVal, st1) \<Rightarrow>
          if \<not> boolValue exprVal then
            seq (rd (m_program st1) (lineStart + TKNZD_LEN_OFFS)) (\<lambda>len.
              let runByte = lineStart + unat len in
              if runByte < m_wipeProgByte st1 then
                seq (rd (m_program st1) (runByte + TKNZD_LEN_OFFS)) (\<lambda>len2.
                  Inr (Return (runByte + unat len2)
                         (st1\<lparr>m_wipeRunByte := runByte + unat len2\<rparr>)))
              else Inr (Return MAX_PROG_SIZE (st1\<lparr>m_wipeRunByte := MAX_PROG_SIZE\<rparr>)))
          else Inr (Break st1)
      | (Inl e, st1) \<Rightarrow>
          Inr (Return MAX_PROG_SIZE (logPrint [LogStatement (m_wipeLineStart st1)] st1)))"

definition exec_LABEL :: "wipe_state \<Rightarrow> nat \<Rightarrow> fault + flow" where
  "exec_LABEL st lineStart =
     seq (c_str (m_program st) (m_wipeRunByte st)) (\<lambda>identifier.
       let st1 = st\<lparr>m_wipeRunByte := m_wipeRunByte st + length identifier + 1\<rparr> in
       case wipeSymbolInsert identifier WIPE_ID_LABEL (m_symTbl st1) of
         (ok, symIdx, tbl) \<Rightarrow>
           if \<not> ok then
             (if symIdx = MAX_NUM_SYMBOLS then
                Inr (Return MAX_PROG_SIZE
                       (logPrint [LogStatement (m_wipeLineStart st1),
                                  LogText ''***ERROR: No space for label '',
                                  LogName identifier] st1))
              else Inr (Break st1))
           else
             Inr (Break (st1\<lparr>m_symTbl :=
                     tbl[symIdx := (tbl ! symIdx)\<lparr>symValue := of_nat lineStart\<rparr>]\<rparr>)))"

definition exec_LET :: "exec_env \<Rightarrow> wipe_state \<Rightarrow> nat \<Rightarrow> fault + flow" where
  "exec_LET E st lineStart =
     seq (c_str (m_program st) (m_wipeRunByte st)) (\<lambda>identifier.
       let exprStart = m_wipeRunByte st + length identifier + 1;
           st1 = st\<lparr>m_wipeRunByte := exprStart + 2\<rparr>
       in case wipeSymbolLookup identifier (m_symTbl st1) of
            None \<Rightarrow>
              Inr (Return MAX_PROG_SIZE
                     (logPrint [LogStatement (m_wipeLineStart st1),
                                LogText ''***ERROR: Variable '', LogName identifier,
                                LogText '' undefined.''] st1))
          | Some symIdx \<Rightarrow>
              (case wipeParseExpression_at E st1 exprStart
                      (typeId (m_symTbl st1 ! symIdx)) False
                      (symValue (m_symTbl st1 ! symIdx)) of
                 (Inl e, st2) \<Rightarrow>
                   Inr (Return MAX_PROG_SIZE
                          (logPrint [LogStatement (m_wipeLineStart st2),
                                     LogText ''***SYS ERROR''] st2))
               | (Inr v, st2) \<Rightarrow>
                   Inr (Break (st2\<lparr>m_symTbl :=
                           (m_symTbl st2)[symIdx :=
                              (m_symTbl st2 ! symIdx)\<lparr>symValue := v\<rparr>]\<rparr>))))"

text \<open>
  Printing a variable: the case of a boolean has no \<open>break\<close> and falls into the
  default, which reports that the value cannot be printed and returns.
\<close>

definition exec_PRINT :: "exec_env \<Rightarrow> wipe_state \<Rightarrow> nat \<Rightarrow> fault + flow" where
  "exec_PRINT E st lineStart =
     seq (rd (m_program st) (lineStart + TKNZD_STMT_OFFS + 1)) (\<lambda>kind.
       if unat kind = WIPE_PRT_STR then
         seq (c_str (m_program st) (lineStart + TKNZD_STMT_OFFS + 2)) (\<lambda>str.
           Inr (Break (logPrint [LogName str] st)))
       else
         seq (c_str (m_program st) (m_wipeRunByte st + 1)) (\<lambda>identifier.
           let st1 = st\<lparr>m_wipeRunByte := m_wipeRunByte st + 1 + length identifier + 1\<rparr> in
           case wipeSymbolLookup identifier (m_symTbl st1) of
             None \<Rightarrow>
               Inr (Return MAX_PROG_SIZE
                      (logPrint [LogStatement (m_wipeLineStart st1),
                                 LogText ''***ERROR: Variable '', LogName identifier,
                                 LogText '' undefined.''] st1))
           | Some symIdx \<Rightarrow>
               (let exprVal = symValue (m_symTbl st1 ! symIdx);
                    t = typeId (m_symTbl st1 ! symIdx);
                    cannot = [LogStatement (m_wipeLineStart st1),
                              LogText ''***Can't print value for '', LogName identifier]
                in if t = WIPE_ID_INT then
                     Inr (Break (logPrint [LogInt (intValue exprVal)] st1))
                   else if t = WIPE_ID_FLOAT then
                     Inr (Break (logPrint [LogFloat (floatValue (env_float E) exprVal)] st1))
                   else if t = WIPE_ID_BOOL then
                     Inr (Return MAX_PROG_SIZE
                            (logPrint (LogBool (boolValue exprVal) # cannot) st1))
                   else Inr (Return MAX_PROG_SIZE (logPrint cannot st1)))))"

definition exec_VAR :: "wipe_state \<Rightarrow> nat \<Rightarrow> fault + flow" where
  "exec_VAR st lineStart =
     seq (c_str (m_program st) (m_wipeRunByte st)) (\<lambda>identifier.
       let st1 = st\<lparr>m_wipeRunByte := m_wipeRunByte st + length identifier + 1\<rparr> in
       seq (rd (m_program st1) (m_wipeRunByte st1)) (\<lambda>type.
         case wipeSymbolInsert identifier (unat type) (m_symTbl st1) of
           (ok, symIdx, tbl) \<Rightarrow>
             if \<not> ok then
               (if symIdx \<noteq> MAX_NUM_SYMBOLS then
                  Inr (Return MAX_PROG_SIZE
                         (logPrint [LogStatement (m_wipeLineStart st1),
                                    LogText ''***ERROR: '', LogText ''Variable '',
                                    LogName identifier, LogText '' already defined.''] st1))
                else
                  Inr (Return MAX_PROG_SIZE
                         (logPrint [LogStatement (m_wipeLineStart st1),
                                    LogText ''***ERROR: '', LogText ''No space for variable '',
                                    LogName identifier] st1)))
             else Inr (Break (st1\<lparr>m_symTbl := tbl\<rparr>))))"

text \<open>
  \<open>wipeExecuteStatement\<close> returns the cursor of the statement to execute next, or
  \<open>MAX_PROG_SIZE\<close>, which ends the run. The local \<open>execError\<close> is never set, so the
  common end only advances the cursor by the length of the line.
\<close>

definition wipeExecuteStatement ::
  "exec_env \<Rightarrow> console_in \<Rightarrow> wipe_state \<Rightarrow> nat \<Rightarrow> fault + (nat \<times> wipe_state)" where
  "wipeExecuteStatement E I st lineStart =
     (if m_breakProg st then Inr (MAX_PROG_SIZE, st)
      else if rx_poll I = Some 120 then
        Inr (MAX_PROG_SIZE, st\<lparr>m_wipeRunByte := MAX_PROG_SIZE\<rparr>)
      else
        (let st0 = st\<lparr>m_wipeRunByte := lineStart + TKNZD_STMT_OFFS + 1,
                      m_wipeLineStart := lineStart\<rparr>
         in seq (rd (m_program st0) (lineStart + TKNZD_STMT_OFFS)) (\<lambda>stmt.
            seq (if unat stmt = WIPE_FUNC then exec_FUNC E I st0 lineStart
                 else if unat stmt = WIPE_GOTO then exec_GOTO st0 lineStart
                 else if unat stmt = WIPE_IF then exec_IF E st0 lineStart
                 else if unat stmt = WIPE_LABEL then exec_LABEL st0 lineStart
                 else if unat stmt = WIPE_LET then exec_LET E st0 lineStart
                 else if unat stmt = WIPE_PRINT then exec_PRINT E st0 lineStart
                 else if unat stmt = WIPE_VAR then exec_VAR st0 lineStart
                 else Inr (Break (logPrint [LogText ''***ERROR: Unknown statement: '',
                                            LogInt (uint stmt)] st0))) (\<lambda>fl.
              case fl of
                Return rc st1 \<Rightarrow> Inr (rc, st1)
              | Break st1 \<Rightarrow>
                  seq (rd (m_program st1) (lineStart + TKNZD_LEN_OFFS)) (\<lambda>len.
                    Inr (lineStart + unat len,
                         st1\<lparr>m_wipeRunByte := lineStart + unat len\<rparr>))))))"





section \<open>Line editor\<close>

text \<open>
  \<open>wipeSeekLineStart\<close> returns the index found and \<open>*lineExists\<close>.
\<close>

function wipeSeekLineStart_loop ::
  "8 word list \<Rightarrow> nat \<Rightarrow> 8 word \<Rightarrow> nat \<Rightarrow> fault + (nat \<times> bool)" where
  "wipeSeekLineStart_loop m progByte targetNum currPos =
     (if currPos < MAX_PROG_SIZE \<and> currPos < progByte then
        (case rd m (currPos + TKNZD_LINE_OFFS) of
           Inl e \<Rightarrow> Inl e
         | Inr currLineNum \<Rightarrow>
             if currLineNum = targetNum then Inr (currPos, True)
             else if currLineNum < targetNum then
               (case rd m (currPos + TKNZD_LEN_OFFS) of
                  Inl e \<Rightarrow> Inl e
                | Inr len \<Rightarrow>
                    if len = 0 then Inl NoReturn
                    else wipeSeekLineStart_loop m progByte targetNum (currPos + unat len))
             else Inr (currPos, False))
      else Inr (MAX_PROG_SIZE, False))"
  by pat_completeness auto
termination
  by (relation "measure (\<lambda>(m, progByte, targetNum, currPos). progByte - currPos)")
     (auto simp: unat_gt_0 diff_less_mono2)

declare wipeSeekLineStart_loop.simps [simp del]

definition wipeSeekLineStart :: "wipe_state \<Rightarrow> 8 word \<Rightarrow> fault + (nat \<times> bool)" where
  "wipeSeekLineStart st targetNum =
     wipeSeekLineStart_loop (m_program st) (m_wipeProgByte st) targetNum 0"

text \<open>
  The copy loop of \<open>wipeDeleteLine\<close>: \<open>*dst++ = *src++\<close>, \<open>numBytesToMove\<close> times.
\<close>

fun wipeCopyDown :: "8 word list \<Rightarrow> nat \<Rightarrow> nat \<Rightarrow> nat \<Rightarrow> fault + 8 word list" where
  "wipeCopyDown m dst src 0 = Inr m"
| "wipeCopyDown m dst src (Suc n) =
     (case rd m src of
        Inl e \<Rightarrow> Inl e
      | Inr b \<Rightarrow>
          (case wr m dst b of
             Inl e \<Rightarrow> Inl e
           | Inr m' \<Rightarrow> wipeCopyDown m' (Suc dst) (Suc src) n))"

text \<open>
  \<open>wipeDeleteLine\<close> moves \<open>m_wipeProgByte - lineLen + 1\<close> bytes, whatever the start
  of the deleted line is; the source of the copy is found from the length byte stored
  in the line.
\<close>

definition wipeDeleteLine :: "wipe_state \<Rightarrow> nat \<Rightarrow> 8 word \<Rightarrow> fault + wipe_state" where
  "wipeDeleteLine st lineStart lineLen =
     (let numBytesToMove = uint16 (int (m_wipeProgByte st) - uint lineLen + 1) in
      seq (rd (m_program st) (lineStart + TKNZD_LEN_OFFS)) (\<lambda>len.
      seq (wipeCopyDown (m_program st) lineStart (lineStart + unat len) numBytesToMove) (\<lambda>m'.
        Inr (st\<lparr>m_program := m',
                m_wipeLineStart := uint16 (int (m_wipeLineStart st) - uint lineLen),
                m_wipeProgByte := uint16 (int (m_wipeProgByte st) - uint lineLen)\<rparr>))))"

text \<open>
  The loop of \<open>wipeDelLines\<close> ends when the cursor reaches the end of the program or
  a line number above \<open>upper\<close>. Nothing in it bounds the number of rounds for an
  arbitrary buffer, so a run that never ends is the value \<open>None\<close>.

  Before the loop the source reads the line number at the index that the seek has
  returned, also when that index is \<open>MAX_PROG_SIZE\<close>, one behind the buffer. The loop
  tests the index against \<open>m_wipeProgByte\<close> first and does not use the byte then: the
  function returns with nothing changed. The model reads the byte only when the first
  test of the loop holds.
\<close>

partial_function (option) wipeDelLines_loop ::
  "wipe_state \<Rightarrow> nat \<Rightarrow> 8 word \<Rightarrow> 8 word \<Rightarrow> (fault + wipe_state) option" where
  "wipeDelLines_loop st delLineStart lineNum upper =
     (if delLineStart < m_wipeProgByte st \<and> lineNum \<le> upper then
        (case rd (m_program st) (delLineStart + TKNZD_LEN_OFFS) of
           Inl e \<Rightarrow> Some (Inl e)
         | Inr lineLen \<Rightarrow>
             (case wipeDeleteLine st delLineStart lineLen of
                Inl e \<Rightarrow> Some (Inl e)
              | Inr st1 \<Rightarrow>
                  (case rd (m_program st1) (delLineStart + TKNZD_LINE_OFFS) of
                     Inl e \<Rightarrow> Some (Inl e)
                   | Inr lineNum1 \<Rightarrow> wipeDelLines_loop st1 delLineStart lineNum1 upper)))
      else Some (Inr st))"

definition wipeDelLines :: "wipe_state \<Rightarrow> 8 word \<Rightarrow> 8 word \<Rightarrow> (fault + wipe_state) option" where
  "wipeDelLines st lower upper =
     (case wipeSeekLineStart st lower of
        Inl e \<Rightarrow> Some (Inl e)
      | Inr (delLineStart, lineExists) \<Rightarrow>
          if delLineStart < m_wipeProgByte st then
            (case rd (m_program st) (delLineStart + TKNZD_LINE_OFFS) of
               Inl e \<Rightarrow> Some (Inl e)
             | Inr lineNum \<Rightarrow> wipeDelLines_loop st delLineStart lineNum upper)
          else Some (Inr st))"

text \<open>
  \<open>wipeRenumLines\<close>. The counter \<open>count\<close> and the new line number are \<open>uint8\<close>; the
  increment is computed in \<open>int\<close> and narrowed. With one stored line the divisor
  \<open>count - 1\<close> is zero.
\<close>

function wipeCountLines :: "8 word list \<Rightarrow> nat \<Rightarrow> nat \<Rightarrow> 8 word \<Rightarrow> fault + 8 word" where
  "wipeCountLines m progByte currLinePos count =
     (if currLinePos < progByte then
        (case rd m (currLinePos + TKNZD_LEN_OFFS) of
           Inl e \<Rightarrow> Inl e
         | Inr len \<Rightarrow>
             if len = 0 then Inl NoReturn
             else wipeCountLines m progByte (currLinePos + unat len) (count + 1))
      else Inr count)"
  by pat_completeness auto
termination
  by (relation "measure (\<lambda>(m, progByte, currLinePos, count). progByte - currLinePos)")
     (auto simp: unat_gt_0 diff_less_mono2)

declare wipeCountLines.simps [simp del]

function wipeRenumLoop ::
  "8 word list \<Rightarrow> nat \<Rightarrow> nat \<Rightarrow> 8 word \<Rightarrow> 8 word \<Rightarrow> fault + 8 word list" where
  "wipeRenumLoop m progByte currLinePos newLineNum count =
     (if currLinePos < progByte then
        (case wr m (currLinePos + TKNZD_LINE_OFFS) newLineNum of
           Inl e \<Rightarrow> Inl e
         | Inr m' \<Rightarrow>
             (case rd m' (currLinePos + TKNZD_LEN_OFFS) of
                Inl e \<Rightarrow> Inl e
              | Inr len \<Rightarrow>
                  if len = 0 then Inl NoReturn
                  else wipeRenumLoop m' progByte (currLinePos + unat len)
                         (newLineNum + count) count))
      else Inr m)"
  by pat_completeness auto
termination
  by (relation "measure (\<lambda>(m, progByte, currLinePos, newLineNum, count).
                  progByte - currLinePos)")
     (auto simp: unat_gt_0 diff_less_mono2)

declare wipeRenumLoop.simps [simp del]

definition LOWEST_LINE_NUM :: nat where [simp]: "LOWEST_LINE_NUM = 5"

definition wipeRenumLines :: "wipe_state \<Rightarrow> fault + wipe_state" where
  "wipeRenumLines st =
     seq (wipeCountLines (m_program st) (m_wipeProgByte st) 0 0) (\<lambda>count.
       if uint count - 1 = 0 then Inl DivisionByZero
       else
         (let count1 = (word_of_int
                 ((int MAX_LINE_NUM - int (LOWEST_LINE_NUM * 2)) sdiv (uint count - 1))
                 :: 8 word)
          in seq (wipeRenumLoop (m_program st) (m_wipeProgByte st) 0
                    (of_nat LOWEST_LINE_NUM) count1) (\<lambda>m'.
               Inr (st\<lparr>m_program := m'\<rparr>))))"

text \<open>
  \<open>wipeSaveLine\<close> moves the line that was compiled at the end of the program to its
  place. The inner loop shifts the bytes between the place and the line up by one,
  \<open>*dst-- = *src--\<close>; the outer loop does so once for every byte of the line.
\<close>

fun wipeShiftUp :: "8 word list \<Rightarrow> nat \<Rightarrow> nat \<Rightarrow> fault + 8 word list" where
  "wipeShiftUp m dst 0 = Inr m"
| "wipeShiftUp m dst (Suc j) =
     (if dst = 0 then Inl OutOfBounds
      else (case rd m (dst - 1) of
              Inl e \<Rightarrow> Inl e
            | Inr b \<Rightarrow>
                (case wr m dst b of
                   Inl e \<Rightarrow> Inl e
                 | Inr m' \<Rightarrow> wipeShiftUp m' (dst - 1) j)))"

fun wipeInsertBytes ::
  "8 word list \<Rightarrow> nat \<Rightarrow> nat \<Rightarrow> nat \<Rightarrow> nat \<Rightarrow> nat \<Rightarrow> fault + 8 word list" where
  "wipeInsertBytes m lineStart insertPos numBytesToMove i 0 = Inr m"
| "wipeInsertBytes m lineStart insertPos numBytesToMove i (Suc n) =
     (case rd m (lineStart + i) of
        Inl e \<Rightarrow> Inl e
      | Inr transientByte \<Rightarrow>
          (case wipeShiftUp m (lineStart + i) numBytesToMove of
             Inl e \<Rightarrow> Inl e
           | Inr m1 \<Rightarrow>
               (case wr m1 (insertPos + i) transientByte of
                  Inl e \<Rightarrow> Inl e
                | Inr m2 \<Rightarrow>
                    wipeInsertBytes m2 lineStart insertPos numBytesToMove (Suc i) n)))"

definition wipeSaveLine :: "wipe_state \<Rightarrow> fault + (bool \<times> wipe_state)" where
  "wipeSaveLine st =
     seq (rd (m_program st) (m_wipeLineStart st + TKNZD_LINE_OFFS)) (\<lambda>insertLineNum.
     seq (rd (m_program st) (m_wipeLineStart st + TKNZD_LEN_OFFS)) (\<lambda>insertLineLen.
     seq (wipeSeekLineStart st insertLineNum) (\<lambda>(insertPos, isReplacement).
       if insertPos = m_wipeLineStart st then
         Inr (True, st\<lparr>m_wipeLineStart := m_wipeLineStart st + unat insertLineLen\<rparr>)
       else if insertPos < MAX_PROG_SIZE then
         seq (if isReplacement then
                seq (rd (m_program st) (insertPos + TKNZD_LEN_OFFS)) (\<lambda>deleteLineLen.
                  wipeDeleteLine st insertPos deleteLineLen)
              else Inr st) (\<lambda>st1.
         seq (wipeInsertBytes (m_program st1) (m_wipeLineStart st1) insertPos
                (uint16 (int (m_wipeLineStart st1) - int insertPos)) 0
                (unat insertLineLen)) (\<lambda>m'.
           Inr (True, st1\<lparr>m_program := m',
                         m_wipeLineStart := m_wipeLineStart st1 + unat insertLineLen\<rparr>)))
       else Inr (False, st))))"

section \<open>Statement compiler\<close>

text \<open>
  \<open>wipeParseStatement\<close> writes the Tokenized Line of the statement in the console
  line at the write cursor \<open>m_wipeProgByte\<close>. What it takes from the scanners is a
  parameter of the model, as for the execution engine. The scanners work on the
  console line, on its copy \<open>m_tokenBuffer\<close> and on the position \<open>m_consolePos\<close>
  (a \<open>uint8\<close>); they do not touch the program buffer or its cursors:
  \<^item> \<open>wipeScanToken\<close> returns a token code;
  \<^item> \<open>wipeScanIdentifier\<close> returns the identifier, or nothing for the result 0, and
    the error message it has printed;
  \<^item> the pair \<open>strspn\<close>, \<open>strtok\<close> that looks for \<open>=\<close> or \<open>:\<close> returns the
    number of characters skipped and the token, or nothing for a null pointer. The
    source hands the token to \<open>strcmp\<close> and \<open>strlen\<close> without a test; on the AVR
    a read through the null pointer finds the registers, and the string that it finds
    there is the parameter \<open>lex_nullString\<close>;
  \<^item> the scan of an expression returns the rounds of the evaluator's loop and the
    value left in \<open>m_exprOffs\<close>, and what the scan of the operand prints in each
    round; the evaluator is then run for the operand kind \<open>WIPE_OPRND_UNDEF\<close>,
    which only checks the syntax.
  The local \<open>dummyValue\<close> of \<open>wipeParseStatement\<close> is not initialised; its content
  is a parameter too.
\<close>

definition MAX_SERIAL_BUF_LEN :: nat where [simp]: "MAX_SERIAL_BUF_LEN = 80"
definition WIPE_OPRND_UNDEF :: nat where [simp]: "WIPE_OPRND_UNDEF = 0"

definition uint8 :: "int \<Rightarrow> nat" where
  "uint8 i = nat (i mod 256)"

record line_input =
  m_consoleBuffer :: "8 word list"
  m_tokenBuffer :: "8 word list"
  m_consolePos :: nat
  m_consoleLen :: nat

record lexer =
  lex_scanToken :: "line_input \<Rightarrow> nat \<times> line_input"
  lex_scanIdentifier ::
    "nat \<Rightarrow> line_input \<Rightarrow> (8 word list option \<times> console_out list) \<times> line_input"
  lex_strtok :: "line_input \<Rightarrow> (nat \<times> 8 word list option) \<times> line_input"
  lex_nullString :: "8 word list"
  lex_scanExpr ::
    "SymTblEntry_t list \<Rightarrow> line_input \<Rightarrow> (operand_scan \<times> operator_scan) list \<times> nat"
  lex_scanLog :: "SymTblEntry_t list \<Rightarrow> line_input \<Rightarrow> nat \<Rightarrow> console_out list"
  lex_dummyValue :: SymValue_t

text \<open>\<open>m_program[m_wipeProgByte++] = v\<close>.\<close>

definition emit :: "8 word \<Rightarrow> wipe_state \<Rightarrow> fault + wipe_state" where
  "emit v st =
     seq (wr (m_program st) (m_wipeProgByte st) v) (\<lambda>m'.
       Inr (st\<lparr>m_program := m', m_wipeProgByte := uint16 (int (m_wipeProgByte st) + 1)\<rparr>))"

text \<open>\<open>memcpy\<close> and \<open>strcpy\<close> into the program buffer at the write cursor.\<close>

fun wr_bytes :: "8 word list \<Rightarrow> nat \<Rightarrow> 8 word list \<Rightarrow> fault + 8 word list" where
  "wr_bytes m i [] = Inr m"
| "wr_bytes m i (b # bs) =
     (case wr m i b of Inl e \<Rightarrow> Inl e | Inr m' \<Rightarrow> wr_bytes m' (Suc i) bs)"

definition rd_bytes :: "8 word list \<Rightarrow> nat \<Rightarrow> nat \<Rightarrow> fault + 8 word list" where
  "rd_bytes buf i n =
     (if i + n \<le> length buf then Inr (take n (drop i buf)) else Inl OutOfBounds)"

definition copy_to_program :: "8 word list \<Rightarrow> wipe_state \<Rightarrow> fault + wipe_state" where
  "copy_to_program bs st =
     seq (wr_bytes (m_program st) (m_wipeProgByte st) bs) (\<lambda>m'. Inr (st\<lparr>m_program := m'\<rparr>))"

text \<open>\<open>m_wipeProgByte += n\<close>.\<close>

definition advance :: "nat \<Rightarrow> wipe_state \<Rightarrow> wipe_state" where
  "advance n st = st\<lparr>m_wipeProgByte := uint16 (int (m_wipeProgByte st) + int n)\<rparr>"

text \<open>
  The length byte is written last:
  \<open>m_program[m_wipeLineStart + TKNZD_LEN_OFFS] = m_wipeProgByte - m_wipeLineStart + extra\<close>.
\<close>

definition patch_length :: "nat \<Rightarrow> wipe_state \<Rightarrow> fault + wipe_state" where
  "patch_length extra st =
     seq (wr (m_program st) (m_wipeLineStart st + TKNZD_LEN_OFFS)
            (of_int (int (m_wipeProgByte st) - int (m_wipeLineStart st) + int extra)))
       (\<lambda>m'. Inr (st\<lparr>m_program := m'\<rparr>))"

text \<open>
  The result of \<open>wipeParseStatement\<close>: the boolean returned, \<open>*stmtErr\<close>, the console
  line and the interpreter state. \<open>*stmtErr\<close> is passed in as the caller has set it.
\<close>

type_synonym parse_result = "bool \<times> bool \<times> line_input \<times> wipe_state"

definition parse_syntax ::
  "lexer \<Rightarrow> exec_env \<Rightarrow> bool \<Rightarrow> line_input \<Rightarrow> wipe_state \<Rightarrow> bool \<times> wipe_state" where
  "parse_syntax L E listOk inp st =
     (case lex_scanExpr L (m_symTbl st) inp of
        (pExpr, offs) \<Rightarrow>
          (let st1 = logPrint (wipeParseExpression_log (env_float E) (env_dummy E)
                                 (lex_scanLog L (m_symTbl st) inp) pExpr WIPE_OPRND_UNDEF
                                 listOk (lex_dummyValue L))
                       (st\<lparr>m_exprOffs := offs\<rparr>)
           in case wipeParseExpression (env_float E) (env_dummy E) pExpr WIPE_OPRND_UNDEF
                     listOk (lex_dummyValue L) of
                Inl e \<Rightarrow> (False, st1)
              | Inr v \<Rightarrow> (True, st1)))"

text \<open>The statement \<open>if\<close> and, after its identifier, \<open>let\<close>: the expression text.\<close>

definition parse_expr_tail ::
  "lexer \<Rightarrow> exec_env \<Rightarrow> line_input \<Rightarrow> wipe_state \<Rightarrow> fault + parse_result" where
  "parse_expr_tail L E inp st =
     (case parse_syntax L E False inp st of
        (ok, st1) \<Rightarrow>
          if \<not> ok then Inr (False, True, inp, wipeShowError ''Expr Syntax'' st1)
          else
            seq (rd_bytes (m_consoleBuffer inp) (m_consolePos inp) (m_exprOffs st1 + 1)) (\<lambda>bs.
            seq (copy_to_program bs st1) (\<lambda>st2.
            seq (patch_length 1 (advance (m_exprOffs st1) st2)) (\<lambda>st3.
              Inr (True, False, inp, st3)))))"

text \<open>The statements \<open>goto\<close> and \<open>label\<close>, and the variable form of \<open>print\<close>.\<close>

definition parse_identifier_tail ::
  "lexer \<Rightarrow> line_input \<Rightarrow> wipe_state \<Rightarrow> fault + parse_result" where
  "parse_identifier_tail L inp st =
     (case lex_scanIdentifier L MAX_ID_LEN inp of
        ((None, msgs), inp1) \<Rightarrow> Inr (False, True, inp1, logPrint msgs st)
      | ((Some identifier, msgs), inp1) \<Rightarrow>
          seq (copy_to_program (identifier @ [0]) (logPrint msgs st)) (\<lambda>st1.
          seq (patch_length 0 (advance (length identifier + 1) st1)) (\<lambda>st2.
            Inr (True, False, inp1, st2))))"

text \<open>
  The skip over \<open>=\<close> or \<open>:\<close>. The token, null or not, is handed to \<open>strcmp\<close>
  and, when it compares equal, to \<open>strlen\<close>.
\<close>

definition parse_separator ::
  "lexer \<Rightarrow> 8 word list \<Rightarrow> string \<Rightarrow> line_input \<Rightarrow> wipe_state \<Rightarrow>
   fault + (bool \<times> line_input \<times> wipe_state)" where
  "parse_separator L sep msg inp st =
     (case lex_strtok L inp of
        ((tmp, token), inp1) \<Rightarrow>
          (let inp2 = inp1\<lparr>m_consolePos := uint8 (int (m_consolePos inp1) + int tmp + 1)\<rparr>;
               t = (case token of None \<Rightarrow> lex_nullString L | Some t \<Rightarrow> t)
           in if t \<noteq> sep then Inr (False, inp2, wipeShowError msg st)
              else Inr (True,
                        inp2\<lparr>m_consolePos := uint8 (int (m_consolePos inp2) + int (length t))\<rparr>,
                        st)))"

definition parse_LET ::
  "lexer \<Rightarrow> exec_env \<Rightarrow> line_input \<Rightarrow> wipe_state \<Rightarrow> fault + parse_result" where
  "parse_LET L E inp st =
     (case lex_scanIdentifier L MAX_ID_LEN inp of
        ((None, msgs), inp1) \<Rightarrow> Inr (False, True, inp1, logPrint msgs st)
      | ((Some identifier, msgs), inp1) \<Rightarrow>
          seq (copy_to_program (identifier @ [0]) (logPrint msgs st)) (\<lambda>st1.
          seq (parse_separator L [61] (''Missing '' @ [CHR 39, CHR ''='', CHR 39]) inp1
                 (advance (length identifier + 1) st1)) (\<lambda>(ok, inp2, st2).
            if \<not> ok then Inr (False, True, inp2, st2)
            else parse_expr_tail L E inp2 st2)))"

text \<open>
  The string form of \<open>print\<close>: the characters up to the closing quote, \<open>\n\<close> stored
  as a line feed. The loop returns the final \<open>parmsLen\<close>, a \<open>uint8\<close>. Every round
  moves \<open>pChar\<close> on, and a read behind the token buffer is an error, so the loop ends.
\<close>

function wipeParseString ::
  "8 word list \<Rightarrow> nat \<Rightarrow> nat \<Rightarrow> nat \<Rightarrow> wipe_state \<Rightarrow> fault + (nat \<times> wipe_state)" where
  "wipeParseString tokenBuffer pChar parmsLen maxLen st =
     (if parmsLen < maxLen then
        (case rd tokenBuffer pChar of
           Inl e \<Rightarrow> Inl e
         | Inr c \<Rightarrow>
             if c = 34 then Inr (parmsLen, st)
             else
               (case (if c = 92 then rd tokenBuffer (pChar + 1) else Inr 0) of
                  Inl e \<Rightarrow> Inl e
                | Inr c1 \<Rightarrow>
                    if c = 92 \<and> c1 = 110 then
                      (case emit 10 st of
                         Inl e \<Rightarrow> Inl e
                       | Inr st1 \<Rightarrow>
                           wipeParseString tokenBuffer (pChar + 2)
                             (uint8 (int parmsLen + 2)) maxLen st1)
                    else
                      (case emit c st of
                         Inl e \<Rightarrow> Inl e
                       | Inr st1 \<Rightarrow>
                           wipeParseString tokenBuffer (pChar + 1)
                             (uint8 (int parmsLen + 1)) maxLen st1)))
      else Inr (parmsLen, st))"
  by pat_completeness auto
termination
  by (relation "measure (\<lambda>(tokenBuffer, pChar, parmsLen, maxLen, st).
                           length tokenBuffer - pChar)")
     (auto simp: rd_def split: if_splits)

declare wipeParseString.simps [simp del]

definition parse_PRINT ::
  "lexer \<Rightarrow> line_input \<Rightarrow> wipe_state \<Rightarrow> fault + parse_result" where
  "parse_PRINT L inp st =
     seq (rd (m_consoleBuffer inp) (m_consolePos inp)) (\<lambda>c.
       if c = 34 then
         (let inp1 = inp\<lparr>m_consolePos := uint8 (int (m_consolePos inp) + 1)\<rparr>;
              maxLen = uint8 (int MAX_SERIAL_BUF_LEN - int (m_consolePos inp1) - 1)
          in seq (emit (of_nat WIPE_PRT_STR) st) (\<lambda>st1.
             seq (wipeParseString (m_tokenBuffer inp1) (m_consolePos inp1) 0 maxLen st1)
               (\<lambda>(parmsLen, st2).
                 if parmsLen = maxLen then
                   Inr (False, True, inp1, wipeShowError ''Bad string length'' st2)
                 else
                   seq (emit 0 st2) (\<lambda>st3.
                   seq (patch_length 0 st3) (\<lambda>st4. Inr (True, False, inp1, st4))))))
       else
         seq (emit (of_nat WIPE_PRT_VAR) st) (\<lambda>st1. parse_identifier_tail L inp st1))"

definition wipeTypeId :: "8 word list \<Rightarrow> nat option" where
  "wipeTypeId typeStr =
     (if typeStr = map of_char ''label'' then Some WIPE_ID_LABEL
      else if typeStr = map of_char ''int'' then Some WIPE_ID_INT
      else if typeStr = map of_char ''float'' then Some WIPE_ID_FLOAT
      else if typeStr = map of_char ''bool'' then Some WIPE_ID_BOOL
      else None)"

definition parse_VAR ::
  "lexer \<Rightarrow> line_input \<Rightarrow> wipe_state \<Rightarrow> fault + parse_result" where
  "parse_VAR L inp st =
     (case lex_scanIdentifier L MAX_ID_LEN inp of
        ((None, msgs), inp1) \<Rightarrow> Inr (False, True, inp1, logPrint msgs st)
      | ((Some identifier, msgs), inp1) \<Rightarrow>
          seq (parse_separator L [58] (''Missing '' @ [CHR 39, CHR '':'', CHR 39]) inp1
                 (logPrint msgs st)) (\<lambda>(ok, inp2, st1).
            if \<not> ok then Inr (False, True, inp2, st1)
            else
              (case lex_scanIdentifier L 10 inp2 of
                 ((None, msgs2), inp3) \<Rightarrow> Inr (False, True, inp3, logPrint msgs2 st1)
               | ((Some typeStr, msgs2), inp3) \<Rightarrow>
                   (case wipeTypeId typeStr of
                      None \<Rightarrow>
                        Inr (False, True, inp3, wipeShowError ''Bad type'' (logPrint msgs2 st1))
                    | Some tid \<Rightarrow>
                        seq (copy_to_program (identifier @ [0]) (logPrint msgs2 st1)) (\<lambda>st2.
                        seq (emit (of_nat tid) (advance (length identifier + 1) st2)) (\<lambda>st3.
                        seq (patch_length 0 st3) (\<lambda>st4.
                          Inr (True, False, inp3, st4))))))))"

definition wipeFuncGetParmNum :: "nat \<Rightarrow> nat" where
  "wipeFuncGetParmNum funcId =
     (if funcId = WASPCMD_GROUP then 4
      else if funcId = WASPCMD_STATE then 2
      else if funcId = WASPCMD_BKGRD then 4
      else if funcId = WASPCMD_LINE then 6
      else if funcId = WASPCMD_SHIFT then 2
      else if funcId = WASPCMD_SWAP then 7
      else if funcId = WASPCMD_RESET then 1
      else if funcId = WASPCMD_SPEED then 2
      else if funcId = WASPCMD_RAINBOW then 2
      else if funcId = WASPCMD_RAINCYCLE then 1
      else if funcId = WASPCMD_TWINKLE then 5
      else if funcId = WIPE_FN_PAUSE then 3
      else 0)"

text \<open>
  The parameters of a function call are checked and their lengths added up; their
  text is copied afterwards. The loop returns \<open>parmsLen\<close> (a \<open>uint8\<close>), or nothing
  after an error.
\<close>

fun wipeParseParms ::
  "lexer \<Rightarrow> exec_env \<Rightarrow> nat \<Rightarrow> nat \<Rightarrow> line_input \<Rightarrow> wipe_state \<Rightarrow>
   fault + (nat option \<times> line_input \<times> wipe_state)" where
  "wipeParseParms L E 0 parmsLen inp st = Inr (Some parmsLen, inp, st)"
| "wipeParseParms L E (Suc i) parmsLen inp st =
     (case parse_syntax L E True inp st of
        (ok, st1) \<Rightarrow>
          if \<not> ok then Inr (None, inp, wipeShowError ''Expr Syntax'' st1)
          else
            (case (if m_consolePos inp + m_exprOffs st1 = 0 then Inl OutOfBounds
                   else rd (m_tokenBuffer inp) (m_consolePos inp + m_exprOffs st1 - 1)) of
               Inl e \<Rightarrow> Inl e
             | Inr tmp \<Rightarrow>
                 if Suc i > 1 \<and> tmp \<noteq> 44 \<and> tmp \<noteq> 41
                 then Inr (None, inp, wipeShowError ''Bad params'' st1)
                 else wipeParseParms L E i (uint8 (int parmsLen + int (m_exprOffs st1)))
                        (inp\<lparr>m_consolePos :=
                               uint8 (int (m_consolePos inp) + int (m_exprOffs st1))\<rparr>) st1))"

definition parse_FUNC ::
  "lexer \<Rightarrow> exec_env \<Rightarrow> nat \<Rightarrow> line_input \<Rightarrow> wipe_state \<Rightarrow> fault + parse_result" where
  "parse_FUNC L E tokenId inp st =
     (let numParms = wipeFuncGetParmNum tokenId;
          consolePosStart = uint8 (int (m_consolePos inp) - 1);
          st0 = st\<lparr>m_wipeProgByte := uint16 (int (m_wipeProgByte st) - 1)\<rparr>
      in seq (emit (of_nat WIPE_FUNC) st0) (\<lambda>st1.
         seq (emit (of_nat tokenId) st1) (\<lambda>st2.
         seq (emit (of_nat numParms) st2) (\<lambda>st3.
         seq (wipeParseParms L E numParms 0 inp st3) (\<lambda>(r, inp1, st4).
           case r of
             None \<Rightarrow> Inr (False, True, inp1, st4)
           | Some parmsLen \<Rightarrow>
               seq (if m_consolePos inp1 = 0 then Inl OutOfBounds
                    else rd (m_tokenBuffer inp1) (m_consolePos inp1 - 1)) (\<lambda>last.
                 if last \<noteq> 41 then Inr (False, True, inp1, wipeShowError ''# of parms'' st4)
                 else
                   seq (rd_bytes (m_consoleBuffer inp1) consolePosStart (parmsLen + 1)) (\<lambda>bs.
                   seq (copy_to_program bs st4) (\<lambda>st5.
                   seq (copy_to_program [0] (advance (parmsLen + 1) st5)) (\<lambda>st6.
                   seq (patch_length 1 st6) (\<lambda>st7.
                     Inr (True, False, inp1, st7)))))))))))"

definition wipeParseStatement ::
  "lexer \<Rightarrow> exec_env \<Rightarrow> 8 word \<Rightarrow> nat \<Rightarrow> bool \<Rightarrow> line_input \<Rightarrow> wipe_state \<Rightarrow>
   fault + parse_result" where
  "wipeParseStatement L E lineNum initToken stmtErr inp st =
     (case (if initToken \<noteq> WIPE_UNDEF then (initToken, inp) else lex_scanToken L inp) of
        (tokenId, inp1) \<Rightarrow>
          if WIPE_UNDEF = tokenId then Inr (False, stmtErr, inp1, st)
          else
            seq (emit lineNum st) (\<lambda>st1.
            seq (emit 3 st1) (\<lambda>st2.
            seq (emit (of_nat tokenId) st2) (\<lambda>st3.
              if tokenId = WIPE_IF then parse_expr_tail L E inp1 st3
              else if tokenId = WIPE_GOTO then parse_identifier_tail L inp1 st3
              else if tokenId = WIPE_LABEL then parse_identifier_tail L inp1 st3
              else if tokenId = WIPE_LET then parse_LET L E inp1 st3
              else if tokenId = WIPE_PRINT then parse_PRINT L inp1 st3
              else if tokenId = WIPE_VAR then parse_VAR L inp1 st3
              else if tokenId \<in> {WASPCMD_BKGRD, WASPCMD_GROUP, WASPCMD_LINE, WASPCMD_RESET,
                                 WASPCMD_STATE, WASPCMD_SHIFT, WASPCMD_SWAP, WASPCMD_RAINBOW,
                                 WASPCMD_RAINCYCLE, WASPCMD_SPEED, WASPCMD_TWINKLE,
                                 WIPE_FN_PAUSE}
              then parse_FUNC L E tokenId inp1 st3
              else Inr (False, True, inp1, st3)))))"

text \<open>
  The part of \<open>processWipeCommand\<close> that handles a statement, with a line number or
  without: the completed line of input sets \<open>m_wipeLineStart\<close> to the write cursor;
  the statement is compiled there; a numbered line is then moved to its place by
  \<open>wipeSaveLine\<close>, a line without number is executed; at the end the write cursor is
  set to \<open>m_wipeLineStart\<close>. The arguments \<open>lineNum\<close>, \<open>token\<close> and \<open>saveToRam\<close>
  are what the scan of the command word and of the line number has left.
\<close>

definition processWipeCommand_statement ::
  "lexer \<Rightarrow> exec_env \<Rightarrow> console_in \<Rightarrow> 8 word \<Rightarrow> nat \<Rightarrow> bool \<Rightarrow> line_input \<Rightarrow> wipe_state \<Rightarrow>
   fault + wipe_state" where
  "processWipeCommand_statement L E I lineNum token saveToRam inp st =
     (let st0 = st\<lparr>m_wipeLineStart := m_wipeProgByte st\<rparr> in
      seq (wipeParseStatement L E lineNum token False inp st0) (\<lambda>(ok, errorReported, inp1, st1).
      seq (if ok then
             (if saveToRam then
                seq (wipeSaveLine st1) (\<lambda>(saved, st2).
                  Inr (if \<not> saved then wipeShowError ''Out of RAM'' st2 else st2))
              else
                seq (wipeExecuteStatement E I
                       (st1\<lparr>m_wipeProgByte := m_wipeLineStart st1,
                            m_wipeRunByte := m_wipeLineStart st1\<rparr>)
                       (m_wipeLineStart st1)) (\<lambda>(rc, st2).
                  Inr (logPrint [LogText [CHR 10]] st2)))
           else Inr (if \<not> errorReported then wipeShowError ''Bad WIPE cmd'' st1 else st1))
        (\<lambda>st3. Inr (st3\<lparr>m_wipeProgByte := m_wipeLineStart st3\<rparr>))))"

text \<open>
  What a compilation leaves alone: the start of the line under construction, the size
  of the buffer and the bytes in front of that start; and the write cursor stays at or
  behind the start.
\<close>

definition keeps :: "wipe_state \<Rightarrow> wipe_state \<Rightarrow> bool" where
  "keeps st st' \<longleftrightarrow>
     m_wipeLineStart st' = m_wipeLineStart st \<and>
     length (m_program st') = length (m_program st) \<and>
     take (m_wipeLineStart st) (m_program st') = take (m_wipeLineStart st) (m_program st) \<and>
     m_wipeLineStart st' \<le> m_wipeProgByte st'"

definition cursor_ok :: "wipe_state \<Rightarrow> bool" where
  "cursor_ok st \<longleftrightarrow>
     m_wipeLineStart st \<le> m_wipeProgByte st \<and> length (m_program st) < 65536"

section \<open>Program directory in the persistent store\<close>

text \<open>
  Modelled from the spec: the EEPROM library that the sketch includes is not part of
  the repository. The persistent store is taken as the byte-addressable get and put
  that the specification assumes: a function from addresses to bytes, where a put
  changes the byte at its address and no other. What the device does with an address
  above its last byte, 4095, is not represented.

  A program name is passed as a pointer into the token buffer. It is represented by
  the bytes found from that pointer on: the characters of the name, its zero byte,
  and what follows in the buffer. Reading behind those bytes is \<open>OutOfBounds\<close>.
  The two-byte size of an entry, \<open>hi << 8 | lo\<close> in the source, is written
  \<open>hi * 256 + lo\<close>.
\<close>

record dir_state =
  EEPROM :: "nat \<Rightarrow> 8 word"
  m_wipeDirSpace :: nat
  m_wipeSaveAddr :: nat

definition EEPROM_write :: "nat \<Rightarrow> 8 word \<Rightarrow> dir_state \<Rightarrow> dir_state" where
  "EEPROM_write a v d = d\<lparr>EEPROM := (EEPROM d)(a := v)\<rparr>"

definition file_size :: "(nat \<Rightarrow> 8 word) \<Rightarrow> nat \<Rightarrow> nat" where
  "file_size ee a = unat (ee a) * 256 + unat (ee (uint16 (int a + 1)))"

text \<open>
  The walk over the directory entries is the same loop in \<open>wipeDirSpaceCheck\<close>,
  \<open>wipeDirList\<close> and \<open>wipeDirFileFind\<close>. The sizes come from the store, and the
  \<open>uint16\<close> address can wrap around, so the loop need not end: not returning is the
  value \<open>None\<close>.
\<close>

partial_function (option) wipeDirSpaceCheck_loop ::
  "(nat \<Rightarrow> 8 word) \<Rightarrow> nat \<Rightarrow> nat \<Rightarrow> nat \<Rightarrow> (nat \<times> nat) option" where
  "wipeDirSpaceCheck_loop ee saveAddr dirSpace currFileSize =
     (if currFileSize \<noteq> 0 \<and> saveAddr < EEPROM_PROG_DIR_START + EEPROM_PROG_LEN then
        (let dirSpace1 = uint16 (int dirSpace - (int currFileSize + int DIR_PROG_OFFS));
             saveAddr1 = uint16 (int saveAddr + (int currFileSize + int DIR_PROG_OFFS))
         in wipeDirSpaceCheck_loop ee saveAddr1 dirSpace1 (file_size ee saveAddr1))
      else Some (saveAddr, dirSpace))"

definition wipeDirSpaceCheck :: "dir_state \<Rightarrow> dir_state option" where
  "wipeDirSpaceCheck d =
     map_option (\<lambda>(saveAddr, dirSpace). d\<lparr>m_wipeSaveAddr := saveAddr, m_wipeDirSpace := dirSpace\<rparr>)
       (wipeDirSpaceCheck_loop (EEPROM d) EEPROM_PROG_DIR_START EEPROM_PROG_LEN
          (file_size (EEPROM d) EEPROM_PROG_DIR_START))"

text \<open>
  The entries that the directory listing \<open>wipeDirList\<close> shows: address and size of
  each entry, up to the first size of zero.
\<close>

partial_function (option) wipeDirList_loop ::
  "(nat \<Rightarrow> 8 word) \<Rightarrow> nat \<Rightarrow> nat \<Rightarrow> (nat \<times> nat) list \<Rightarrow> (nat \<times> nat) list option" where
  "wipeDirList_loop ee currDirEntry currFileSize shown =
     (if currFileSize \<noteq> 0 \<and> currDirEntry < EEPROM_PROG_DIR_START + EEPROM_PROG_LEN then
        (let next = uint16 (int currDirEntry + (int currFileSize + int DIR_PROG_OFFS))
         in wipeDirList_loop ee next (file_size ee next)
              (shown @ [(currDirEntry, currFileSize)]))
      else Some shown)"

definition wipeDirList :: "dir_state \<Rightarrow> (nat \<times> nat) list option" where
  "wipeDirList d =
     wipeDirList_loop (EEPROM d) EEPROM_PROG_DIR_START
       (file_size (EEPROM d) EEPROM_PROG_DIR_START) []"

text \<open>
  The comparison of a name with the name of an entry, at most \<open>MAX_PROGNAME_LEN + 1\<close>
  characters: \<open>Some True\<close> when the function returns the entry, \<open>Some False\<close> when
  the loop is left without a match.
\<close>

fun wipeDirNameMatch ::
  "(nat \<Rightarrow> 8 word) \<Rightarrow> nat \<Rightarrow> 8 word list \<Rightarrow> nat \<Rightarrow> nat \<Rightarrow> fault + bool" where
  "wipeDirNameMatch ee currDirEntry progName i 0 = Inr False"
| "wipeDirNameMatch ee currDirEntry progName i (Suc n) =
     (case rd progName i of
        Inl e \<Rightarrow> Inl e
      | Inr c \<Rightarrow>
          if c \<noteq> ee (currDirEntry + 2 + i) then Inr False
          else if c = 0 then Inr True
          else wipeDirNameMatch ee currDirEntry progName (Suc i) n)"

text \<open>\<open>wipeDirFileFind\<close> returns the address of the entry, 0 for none, and \<open>*pFileSize\<close>.\<close>

partial_function (option) wipeDirFileFind_loop ::
  "8 word list \<Rightarrow> (nat \<Rightarrow> 8 word) \<Rightarrow> nat \<Rightarrow> nat \<Rightarrow> (fault + nat \<times> nat) option" where
  "wipeDirFileFind_loop progName ee currDirEntry currFileSize =
     (if currFileSize \<noteq> 0 \<and> currDirEntry < EEPROM_PROG_DIR_START + EEPROM_PROG_LEN then
        (case wipeDirNameMatch ee currDirEntry progName 0 (MAX_PROGNAME_LEN + 1) of
           Inl e \<Rightarrow> Some (Inl e)
         | Inr found \<Rightarrow>
             if found then Some (Inr (currDirEntry, currFileSize))
             else
               (let next = uint16 (int currDirEntry + (int currFileSize + int DIR_PROG_OFFS))
                in wipeDirFileFind_loop progName ee next (file_size ee next)))
      else Some (Inr (0, 0)))"

definition wipeDirFileFind ::
  "8 word list \<Rightarrow> dir_state \<Rightarrow> (fault + nat \<times> nat) option" where
  "wipeDirFileFind progName d =
     wipeDirFileFind_loop progName (EEPROM d) EEPROM_PROG_DIR_START
       (file_size (EEPROM d) EEPROM_PROG_DIR_START)"

text \<open>Writing bytes at consecutive addresses: the name, and the program.\<close>

fun EEPROM_write_bytes :: "nat \<Rightarrow> 8 word list \<Rightarrow> dir_state \<Rightarrow> dir_state" where
  "EEPROM_write_bytes a [] d = d"
| "EEPROM_write_bytes a (b # bs) d =
     EEPROM_write_bytes (uint16 (int a + 1)) bs (EEPROM_write a b d)"

definition wipeDirFileSave ::
  "8 word list \<Rightarrow> wipe_state \<Rightarrow> dir_state \<Rightarrow> fault + dir_state" where
  "wipeDirFileSave progName st d =
     (if length progName < MAX_PROGNAME_LEN + 1 \<or> length (m_program st) < m_wipeProgByte st
      then Inl OutOfBounds
      else
        (let currAddr = m_wipeSaveAddr d;
             d1 = EEPROM_write currAddr (of_nat (m_wipeProgByte st div 256)) d;
             d2 = EEPROM_write (currAddr + 1) (of_nat (m_wipeProgByte st)) d1;
             d3 = EEPROM_write_bytes (currAddr + 2) (take (MAX_PROGNAME_LEN + 1) progName) d2;
             d4 = EEPROM_write_bytes (currAddr + 2 + (MAX_PROGNAME_LEN + 1))
                    (take (m_wipeProgByte st) (m_program st)) d3;
             saveAddr = uint16 (int (m_wipeSaveAddr d) +
                                (int (m_wipeProgByte st) + int DIR_PROG_OFFS));
             dirSpace = uint16 (int (m_wipeDirSpace d) -
                                (int (m_wipeProgByte st) + int DIR_PROG_OFFS));
             d5 = d4\<lparr>m_wipeSaveAddr := saveAddr, m_wipeDirSpace := dirSpace\<rparr>
         in Inr (EEPROM_write (uint16 (int saveAddr + 1)) 0 (EEPROM_write saveAddr 0 d5))))"

text \<open>
  The copy loop of \<open>wipeDirFileErase\<close>, \<open>numBytesToMove\<close> times
  \<open>EEPROM.write(dirEntry++, EEPROM.read(src++))\<close>.
\<close>

fun EEPROM_move :: "nat \<Rightarrow> nat \<Rightarrow> nat \<Rightarrow> dir_state \<Rightarrow> dir_state" where
  "EEPROM_move dirEntry src 0 d = d"
| "EEPROM_move dirEntry src (Suc n) d =
     EEPROM_move (uint16 (int dirEntry + 1)) (uint16 (int src + 1)) n
       (EEPROM_write dirEntry (EEPROM d src) d)"

definition wipeDirFileErase :: "8 word list \<Rightarrow> dir_state \<Rightarrow> (fault + dir_state) option" where
  "wipeDirFileErase progName d =
     (case wipeDirFileFind progName d of
        None \<Rightarrow> None
      | Some (Inl e) \<Rightarrow> Some (Inl e)
      | Some (Inr (dirEntry, fileSize)) \<Rightarrow>
          if 0 = dirEntry then Some (Inr d)
          else
            (let numBytesToMove =
                   uint16 ((int EEPROM_PROG_LEN - int (m_wipeDirSpace d)) -
                           (int fileSize + int DIR_PROG_OFFS));
                 src = uint16 (int dirEntry + int fileSize + int DIR_PROG_OFFS);
                 d1 = EEPROM_move dirEntry src numBytesToMove d;
                 saveAddr = uint16 (int (m_wipeSaveAddr d) - (int fileSize + int DIR_PROG_OFFS));
                 dirSpace = uint16 (int (m_wipeDirSpace d) + (int fileSize + int DIR_PROG_OFFS));
                 d2 = d1\<lparr>m_wipeSaveAddr := saveAddr, m_wipeDirSpace := dirSpace\<rparr>
             in Some (Inr (EEPROM_write (uint16 (int saveAddr + 1)) 0
                             (EEPROM_write saveAddr 0 d2)))))"

text \<open>
  \<open>wipeDirFileLoad\<close> returns its result and the interpreter state. The loop stores
  byte after byte, so a size above the buffer's runs out of it.
\<close>

fun wipeLoadBytes ::
  "(nat \<Rightarrow> 8 word) \<Rightarrow> nat \<Rightarrow> 8 word list \<Rightarrow> nat \<Rightarrow> nat \<Rightarrow> fault + 8 word list" where
  "wipeLoadBytes ee currEepromPos m i 0 = Inr m"
| "wipeLoadBytes ee currEepromPos m i (Suc n) =
     (case wr m i (ee (uint16 (int currEepromPos + int i))) of
        Inl e \<Rightarrow> Inl e
      | Inr m' \<Rightarrow> wipeLoadBytes ee currEepromPos m' (Suc i) n)"

definition wipeDirFileLoad ::
  "8 word list \<Rightarrow> dir_state \<Rightarrow> wipe_state \<Rightarrow> (fault + bool \<times> wipe_state) option" where
  "wipeDirFileLoad progName d st =
     (case wipeDirFileFind progName d of
        None \<Rightarrow> None
      | Some (Inl e) \<Rightarrow> Some (Inl e)
      | Some (Inr (currEepromPos, fileSize)) \<Rightarrow>
          if 0 = currEepromPos then Some (Inr (False, st))
          else
            (case wipeLoadBytes (EEPROM d) (uint16 (int currEepromPos + int DIR_PROG_OFFS))
                    (m_program st) 0 fileSize of
               Inl e \<Rightarrow> Some (Inl e)
             | Inr m' \<Rightarrow>
                 Some (Inr (True, st\<lparr>m_program := m', m_wipeLineStart := fileSize,
                                     m_wipeProgByte := fileSize\<rparr>))))"

text \<open>
  The \<open>save\<close> command of \<open>processWipeCommand\<close>, after the name has been scanned
  (\<open>None\<close> for a missing or invalid name): the result is the message shown, if any,
  and the directory.
\<close>

definition processWipeCommand_SAVE ::
  "8 word list option \<Rightarrow> wipe_state \<Rightarrow> dir_state \<Rightarrow>
   (fault + string option \<times> dir_state) option" where
  "processWipeCommand_SAVE scanned st d =
     (if m_wipeProgByte st + DIR_PROG_OFFS > m_wipeDirSpace d
      then Some (Inr (Some ''Out of file space'', d))
      else
        (case scanned of
           None \<Rightarrow> Some (Inr (Some ''No filename'', d))
         | Some progName \<Rightarrow>
             (case wipeDirFileFind progName d of
                None \<Rightarrow> None
              | Some (Inl e) \<Rightarrow> Some (Inl e)
              | Some (Inr (dirEntry, fileSize)) \<Rightarrow>
                  if dirEntry \<noteq> 0 then Some (Inr (Some ''File exists'', d))
                  else (case wipeDirFileSave progName st d of
                          Inl e \<Rightarrow> Some (Inl e)
                        | Inr d1 \<Rightarrow> Some (Inr (None, d1))))))"

text \<open>
  For the statements about the directory: the store holds, from an address on, entries
  of the sizes \<open>sizes\<close>, one behind the other, closed by a size of zero; and the bytes
  that such entries occupy, header included. Two states used as examples: the
  directory of a store filled with zeros after \<open>wipeDirSpaceCheck\<close>, and an empty
  program buffer.
\<close>

fun dir_at :: "(nat \<Rightarrow> 8 word) \<Rightarrow> nat \<Rightarrow> nat list \<Rightarrow> bool" where
  "dir_at ee a [] \<longleftrightarrow> file_size ee a = 0"
| "dir_at ee a (sz # rest) \<longleftrightarrow>
     file_size ee a = sz \<and> sz \<noteq> 0 \<and> a < EEPROM_PROG_DIR_START + EEPROM_PROG_LEN \<and>
     dir_at ee (a + sz + DIR_PROG_OFFS) rest"

definition dir_used :: "nat list \<Rightarrow> nat" where
  "dir_used sizes = sum_list (map (\<lambda>sz. sz + DIR_PROG_OFFS) sizes)"

definition fresh_directory :: dir_state where
  "fresh_directory = \<lparr>EEPROM = (\<lambda>a. 0), m_wipeDirSpace = 4078, m_wipeSaveAddr = 17\<rparr>"

definition empty_program :: wipe_state where
  "empty_program =
     \<lparr>m_program = replicate 4064 0,
      m_wipeProgByte = 0, m_wipeLineStart = 0, m_wipeRunByte = 0, m_exprOffs = 0,
      m_breakProg = False, m_symTbl = [], console = [], sink = []\<rparr>"

section \<open>The stored lines of a program buffer\<close>

text \<open>
  For the statements about the editor, the content of a buffer is described by the
  list of its Tokenized Lines. A line is valid when its length byte, the second byte,
  is its length, which is at least the three bytes of the header. The occupied
  prefix of the buffer holds the lines \<open>ls\<close> when it is their concatenation.
\<close>

definition valid_line :: "8 word list \<Rightarrow> bool" where
  "valid_line l \<longleftrightarrow> 3 \<le> length l \<and> length l \<le> 255 \<and> l ! 1 = of_nat (length l)"

definition program_lines :: "8 word list \<Rightarrow> nat \<Rightarrow> 8 word list list \<Rightarrow> bool" where
  "program_lines m progByte ls \<longleftrightarrow>
     progByte \<le> length m \<and> take progByte m = concat ls \<and> list_all valid_line ls"

text \<open>
  What renumbering is to do with the lines: the first byte of each line is replaced,
  by \<open>newLineNum\<close> for the first line and \<open>count\<close> more for each following one;
  all other bytes stay.
\<close>

fun renum_lines :: "8 word \<Rightarrow> 8 word \<Rightarrow> 8 word list list \<Rightarrow> 8 word list list" where
  "renum_lines newLineNum count [] = []"
| "renum_lines newLineNum count (l # ls) =
     (newLineNum # tl l) # renum_lines (newLineNum + count) count ls"

text \<open>
  Two programs used as examples: one of three lines (\<open>10 if 0\<close>, \<open>20 goto Loop\<close>,
  \<open>30 label Loop\<close>), and one of 247 lines, \<open>label a\<close> under the line numbers 1
  to 247.
\<close>

definition three_lines :: wipe_state where
  "three_lines =
     \<lparr>m_program = [10, 5, 29, 48, 0,
                   20, 8, 28, 76, 111, 111, 112, 0,
                   30, 8, 27, 76, 111, 111, 112, 0] @ replicate 4043 0,
      m_wipeProgByte = 21, m_wipeLineStart = 21, m_wipeRunByte = 0, m_exprOffs = 0,
      m_breakProg = False, m_symTbl = [], console = [], sink = []\<rparr>"

definition renum_example_lines :: "8 word list list" where
  "renum_example_lines = map (\<lambda>k. [of_nat k, 5, 27, 97, 0]) [1..<248]"

definition renum_example :: wipe_state where
  "renum_example =
     \<lparr>m_program = concat renum_example_lines @ replicate 2829 0,
      m_wipeProgByte = 1235, m_wipeLineStart = 1235, m_wipeRunByte = 0, m_exprOffs = 0,
      m_breakProg = False, m_symTbl = [], console = [], sink = []\<rparr>"

text \<open>
  The input line \<open>print "abc\<close>, a string without its closing quote, with the result
  of \<open>wipeScanToken\<close> on it: the token \<open>print\<close>, the blank behind it replaced by a
  zero byte in the token buffer, and the position 6. Both buffers of 80 bytes are
  filled up with zero bytes. And a program of 80 lines, numbered 1 to 80, each
  \<open>print\<close> with a string of 45 characters: 50 bytes a line, 4000 bytes in all, which
  leaves 64 bytes of the buffer free.
\<close>

definition print_example_input :: line_input where
  "print_example_input =
     \<lparr>m_consoleBuffer = [112, 114, 105, 110, 116, 32, 34, 97, 98, 99] @ replicate 70 0,
      m_tokenBuffer = [112, 114, 105, 110, 116, 32, 34, 97, 98, 99] @ replicate 70 0,
      m_consolePos = 0, m_consoleLen = 10\<rparr>"

definition print_example_lexer :: lexer where
  "print_example_lexer =
     \<lparr>lex_scanToken =
        (\<lambda>inp. (WIPE_PRINT, inp\<lparr>m_tokenBuffer := (m_tokenBuffer inp)[5 := 0],
                                 m_consolePos := 6\<rparr>)),
      lex_scanIdentifier = (\<lambda>maxLen inp. ((None, []), inp)),
      lex_strtok = (\<lambda>inp. ((0, None), inp)),
      lex_nullString = [],
      lex_scanExpr = (\<lambda>tbl inp. ([], 0)),
      lex_scanLog = (\<lambda>tbl inp k. []),
      lex_dummyValue = 0\<rparr>"

definition example_env :: exec_env where
  "example_env =
     \<lparr>env_float = \<lparr>floatValue = (\<lambda>v. 0), to_floatValue = (\<lambda>x. 0)\<rparr>, env_dummy = 0,
      env_exprVal = 0, env_parmValue = [],
      env_scan = (\<lambda>tbl m pos. ([], 0)),
      env_scanLog = (\<lambda>tbl m pos k. [])\<rparr>"

definition full_example_line :: "nat \<Rightarrow> 8 word list" where
  "full_example_line k = [of_nat k, 50, 31, 0] @ replicate 45 97 @ [0]"

definition full_example_lines :: "8 word list list" where
  "full_example_lines = map full_example_line [1..<81]"

definition full_example :: wipe_state where
  "full_example =
     \<lparr>m_program = concat full_example_lines @ replicate 64 0,
      m_wipeProgByte = 4000, m_wipeLineStart = 4000, m_wipeRunByte = 0, m_exprOffs = 0,
      m_breakProg = False, m_symTbl = [], console = [], sink = []\<rparr>"

text \<open>
  A program of 34 lines, numbered 1 to 34, each \<open>print\<close> with a string of 60
  characters: 65 bytes a line, 2210 bytes in all, a little more than half the buffer.
\<close>

definition del_example_line :: "nat \<Rightarrow> 8 word list" where
  "del_example_line k = [of_nat k, 65, 31, 0] @ replicate 60 97 @ [0]"

definition del_example_lines :: "8 word list list" where
  "del_example_lines = map del_example_line [1..<35]"

definition del_example :: wipe_state where
  "del_example =
     \<lparr>m_program = concat del_example_lines @ replicate 1854 0,
      m_wipeProgByte = 2210, m_wipeLineStart = 2210, m_wipeRunByte = 0, m_exprOffs = 0,
      m_breakProg = False, m_symTbl = [], console = [], sink = []\<rparr>"



section \<open>Verified properties\<close>

subsection \<open>Boolean operators\<close>

lemma intValue_0_1: "(0 = intValue v \<or> 1 = intValue v) \<longleftrightarrow> (v = 0 \<or> v = 1)"
  unfolding intValue_def using word_eq_iff_signed by fastforce

text \<open>
  Claim C1. The claim is that for boolean operands \<open>a || b\<close> evaluates to the
  disjunction and \<open>a && b\<close> to the conjunction. The code does not: the operation
  function computes \<open>&&\<close> as the difference of its operands, so that true and true
  give false; and the evaluator, asked for a boolean result, never calls the operation
  function for an operator that is not relational, so that \<open>a && b\<close> with \<open>a\<close> true
  and \<open>b\<close> false evaluates to the value of \<open>a\<close>, true.
\<close>

theorem wipe_boolean_and_is_not_conjunction:
  "wipeEvalBoolOperation True True WIPE_OP_AND = (True, False) \<and>
   wipeParseExpression F dummyValue
     [(Operand WIPE_OP_UNDEF WIPE_ID_BOOL 1, Operator WIPE_OP_AND),
      (Operand WIPE_OP_UNDEF WIPE_ID_BOOL 0, Operator WIPE_OP_UNDEF)]
     WIPE_ID_BOOL False pResult = Inr 1 \<and>
   boolValue 1 \<and> \<not> boolValue 0"
  by (simp add: wipeEvalBoolOperation_def wipeParseExpression_def wipeApplyUnary_def
      wipeAreTypesValid_def wipeApplyBinary_def wipeIsRelational_def wipeAssign_def
      boolValue_def)

subsection \<open>Coercion of an integer to a boolean\<close>

text \<open>
  Claim C7. Assigning an integer value to a boolean destination succeeds exactly when
  the value is 0 or 1, and then stores it; for any other integer the assignment is
  refused and the destination keeps its content. The evaluator reports the refusal as
  "Expression is of wrong type" and returns \<open>false\<close> without touching \<open>*pResult\<close>;
  the second part of the statement is that step for an expression made of one integer
  operand.
\<close>

theorem wipeAssign_int_to_bool:
  "wipeAssign F var WIPE_ID_BOOL val WIPE_ID_INT =
     Some (if intValue val = 0 \<or> intValue val = 1 then (True, val) else (False, var)) \<and>
   wipeParseExpression F dummyValue
     [(Operand WIPE_OP_UNDEF WIPE_ID_INT val, Operator WIPE_OP_UNDEF)]
     WIPE_ID_BOOL False var =
     (if intValue val = 0 \<or> intValue val = 1 then Inr val else Inl ExpressionOfWrongType)"
  using intValue_0_1 [of val]
  by (auto simp add: wipeAssign_def wipeParseExpression_def wipeApplyUnary_def)

theorem wipeAssign_int_to_bool_witness:
  "wipeAssign \<lparr>floatValue = (\<lambda>v. 0), to_floatValue = (\<lambda>x. 0)\<rparr> 0 WIPE_ID_BOOL 2 WIPE_ID_INT
     = Some (False, 0) \<and>
   wipeAssign \<lparr>floatValue = (\<lambda>v. 0), to_floatValue = (\<lambda>x. 0)\<rparr> 0 WIPE_ID_BOOL 1 WIPE_ID_INT
     = Some (True, 1)"
  using wipeAssign_int_to_bool [of "\<lparr>floatValue = (\<lambda>v. 0), to_floatValue = (\<lambda>x. 0)\<rparr>" 0 2]
        wipeAssign_int_to_bool [of "\<lparr>floatValue = (\<lambda>v. 0), to_floatValue = (\<lambda>x. 0)\<rparr>" 0 1]
  by (simp add: intValue_def)

subsection \<open>Unary minus on a float operand\<close>

text \<open>
  Claim C8. The claim is that unary minus applied to a float operand \<open>v\<close> yields
  \<open>- v\<close>. In the code the case of the negation falls through into the addition, so
  the result is \<open>- v\<close> plus the second argument, which the evaluator fills with its
  unassigned local \<open>dummyValue\<close>: for \<open>v = 1.5\<close> and a \<open>dummyValue\<close> of 1 the
  result is \<open>- 0.5\<close>.
\<close>

theorem wipe_float_negation_adds_second_operand:
  "wipeEvalFloatOperation (3 / 2) 1 WIPE_OP_NEG = Some (True, - 1 / 2) \<and>
   wipeApplyUnary F dummyValue WIPE_OP_NEG WIPE_ID_FLOAT v =
     Inr (to_floatValue F (- floatValue F v + of_nat (unat dummyValue)))"
  by (simp add: wipeEvalFloatOperation_def wipeApplyUnary_def)

subsection \<open>Helper facts\<close>

lemma seq_Inr [simp]: "seq (Inr x) f = f x" by (simp add: seq_def)
lemma seq_Inl [simp]: "seq (Inl e) f = Inl e" by (simp add: seq_def)
lemma rd_in [simp]: "i < length m \<Longrightarrow> rd m i = Inr (m ! i)" by (simp add: rd_def)


lemma wipeParseExpression_at_frame:
  "wipeParseExpression_at E s pos t l r = (x, s') \<Longrightarrow>
     m_program s' = m_program s \<and> m_wipeProgByte s' = m_wipeProgByte s \<and>
     m_symTbl s' = m_symTbl s \<and> sink s' = sink s \<and>
     m_wipeLineStart s' = m_wipeLineStart s \<and> m_wipeRunByte s' = m_wipeRunByte s \<and>
     m_breakProg s' = m_breakProg s"
  by (auto simp: wipeParseExpression_at_def logPrint_def split: prod.splits)

subsection \<open>The conditional statement\<close>

text \<open>
  Claim C2. When no cancel is pending and the expression of an \<open>if\<close> line evaluates,
  the cursor returned is: the start of the next stored line when the value is true;
  when it is false and a line is stored behind the \<open>if\<close> line, the start of the line
  after that one, whatever that skipped line holds; when it is false and the \<open>if\<close>
  line is the last one, \<open>MAX_PROG_SIZE\<close>, which ends the run. The statement changes
  nothing but the cursor and \<open>m_exprOffs\<close>.
\<close>

theorem wipe_if_false_skips_next_line:
  assumes nocancel: "\<not> m_breakProg st" "rx_poll I \<noteq> Some 120"
    and inb: "lineStart + 2 < length (m_program st)"
    and stmt: "unat (m_program st ! (lineStart + 2)) = WIPE_IF"
    and ev: "wipeParseExpression_at E
               (st\<lparr>m_wipeRunByte := lineStart + 3, m_wipeLineStart := lineStart\<rparr>)
               (lineStart + 3) WIPE_ID_BOOL False (env_exprVal E) = (Inr exprVal, st1)"
    and nxt: "lineStart + unat (m_program st ! (lineStart + 1)) < m_wipeProgByte st \<longrightarrow>
              lineStart + unat (m_program st ! (lineStart + 1)) + 1 < length (m_program st)"
  shows "wipeExecuteStatement E I st lineStart =
           (let len = unat (m_program st ! (lineStart + 1));
                len2 = unat (m_program st ! (lineStart + len + 1));
                cursor = (if boolValue exprVal then lineStart + len
                          else if lineStart + len < m_wipeProgByte st
                               then lineStart + len + len2
                          else MAX_PROG_SIZE)
            in Inr (cursor, st1\<lparr>m_wipeRunByte := cursor\<rparr>))"
proof -
  have e3: "lineStart + 3 = Suc (Suc (Suc lineStart))" by simp
  have st1: "m_program st1 = m_program st" "m_wipeProgByte st1 = m_wipeProgByte st"
    using wipeParseExpression_at_frame[OF ev] by auto
  have inb': "lineStart + 1 < length (m_program st)" "Suc lineStart < length (m_program st)"
    using inb by auto
  show ?thesis
    using nocancel inb inb' stmt ev[unfolded e3] st1 nxt
    by (auto simp add: wipeExecuteStatement_def exec_IF_def Let_def)
qed

theorem wipe_if_false_skips_next_line_witness:
  "wipeExecuteStatement
      \<lparr>env_float = \<lparr>floatValue = (\<lambda>v. 0), to_floatValue = (\<lambda>x. 0)\<rparr>, env_dummy = 0,
        env_exprVal = 0, env_parmValue = [],
        env_scan = (\<lambda>tbl m pos. ([(Operand WIPE_OP_UNDEF WIPE_ID_INT 0,
                                     Operator WIPE_OP_UNDEF)], 1)),
        env_scanLog = (\<lambda>tbl m pos k. [])\<rparr>
      \<lparr>rx_poll = None, rx_pause = []\<rparr>
      \<lparr>m_program = [10, 5, 29, 48, 0,
                     20, 8, 28, 76, 111, 111, 112, 0,
                     30, 8, 27, 76, 111, 111, 112, 0] @ replicate 4043 0,
        m_wipeProgByte = 21, m_wipeLineStart = 21, m_wipeRunByte = 0, m_exprOffs = 0,
        m_breakProg = False, m_symTbl = [], console = [], sink = []\<rparr> 0 =
   Inr (13,
      \<lparr>m_program = [10, 5, 29, 48, 0,
                     20, 8, 28, 76, 111, 111, 112, 0,
                     30, 8, 27, 76, 111, 111, 112, 0] @ replicate 4043 0,
        m_wipeProgByte = 21, m_wipeLineStart = 0, m_wipeRunByte = 13, m_exprOffs = 1,
        m_breakProg = False, m_symTbl = [], console = [], sink = []\<rparr>)"
  using wipe_if_false_skips_next_line
    [of "\<lparr>m_program = [10, 5, 29, 48, 0,
                     20, 8, 28, 76, 111, 111, 112, 0,
                     30, 8, 27, 76, 111, 111, 112, 0] @ replicate 4043 0,
        m_wipeProgByte = 21, m_wipeLineStart = 21, m_wipeRunByte = 0, m_exprOffs = 0,
        m_breakProg = False, m_symTbl = [], console = [], sink = []\<rparr>"
        "\<lparr>rx_poll = None, rx_pause = []\<rparr>" 0
        "\<lparr>env_float = \<lparr>floatValue = (\<lambda>v. 0), to_floatValue = (\<lambda>x. 0)\<rparr>, env_dummy = 0,
        env_exprVal = 0, env_parmValue = [],
        env_scan = (\<lambda>tbl m pos. ([(Operand WIPE_OP_UNDEF WIPE_ID_INT 0,
                                     Operator WIPE_OP_UNDEF)], 1)),
        env_scanLog = (\<lambda>tbl m pos k. [])\<rparr>" 0
        "\<lparr>m_program = [10, 5, 29, 48, 0,
                     20, 8, 28, 76, 111, 111, 112, 0,
                     30, 8, 27, 76, 111, 111, 112, 0] @ replicate 4043 0,
        m_wipeProgByte = 21, m_wipeLineStart = 0, m_wipeRunByte = 3, m_exprOffs = 1,
        m_breakProg = False, m_symTbl = [], console = [], sink = []\<rparr>"]
  by (simp add: wipeParseExpression_at_def wipeParseExpression_def wipeApplyUnary_def
      wipeAssign_def intValue_def boolValue_def wipeParseExpression_log_def wipeUnaryLog_def
      logPrint_def)

subsection \<open>Function calls with parameters out of range\<close>



subsection \<open>Walking the stored lines\<close>

lemma unat_of_nat_byte: "n \<le> 255 \<Longrightarrow> unat (of_nat n :: 8 word) = n"
  by (simp add: unat_of_nat)

lemma valid_line_len: "valid_line l \<Longrightarrow> unat (l ! 1) = length l \<and> l ! 1 \<noteq> 0"
proof -
  assume v: "valid_line l"
  then have u: "unat (l ! 1) = length l" by (simp add: valid_line_def unat_of_nat_byte)
  moreover have "l ! 1 \<noteq> 0"
  proof
    assume "l ! 1 = 0"
    then have "unat (l ! 1) = 0" by simp
    with u v show False by (simp add: valid_line_def)
  qed
  ultimately show ?thesis by simp
qed

lemma nth_in_line:
  assumes "take progByte m = P @ l @ R" "k < length l"
  shows "length P + k < length m \<and> length P + k < progByte \<and> m ! (length P + k) = l ! k"
proof -
  have len: "length (take progByte m) = length P + length l + length R" using assms(1) by simp
  then have lt: "length P + k < progByte" "length P + k < length m" using assms(2) by auto
  have "m ! (length P + k) = take progByte m ! (length P + k)" using lt by simp
  also have "\<dots> = l ! k" using assms by (simp add: nth_append)
  finally show ?thesis using lt by simp
qed

lemma wipeCountLines_lines:
  "take progByte m = P @ concat rest \<Longrightarrow> progByte \<le> length m \<Longrightarrow> list_all valid_line rest \<Longrightarrow>
   wipeCountLines m progByte (length P) c = Inr (c + of_nat (length rest))"
proof (induction rest arbitrary: P c)
  case Nil
  then have "length P = progByte" by (metis append_Nil2 concat.simps(1) length_take min.absorb2)
  then show ?case by (simp add: wipeCountLines.simps)
next
  case (Cons l rest)
  have vl: "valid_line l" using Cons.prems(3) by simp
  have tk: "take progByte m = P @ l @ concat rest" using Cons.prems(1) by simp
  have l1: "1 < length l" "0 < length l" using vl by (auto simp: valid_line_def)
  from nth_in_line[OF tk l1(1)] nth_in_line[OF tk l1(2)]
  have rd1: "rd m (length P + 1) = Inr (l ! 1)" and lt: "length P < progByte"
    by (auto simp: rd_def)
  have "take progByte m = (P @ l) @ concat rest" using tk by simp
  from Cons.IH[OF this Cons.prems(2), of "c + 1"] Cons.prems(3)
  have ih: "wipeCountLines m progByte (length P + length l) (c + 1) = Inr (c + 1 + of_nat (length rest))"
    by simp
  show ?case
    using rd1 lt valid_line_len[OF vl] ih
    by (subst wipeCountLines.simps) (simp add: add.assoc)
qed

lemma wipeRenumLoop_lines:
  "take progByte m = P @ concat rest \<Longrightarrow> progByte \<le> length m \<Longrightarrow> list_all valid_line rest \<Longrightarrow>
   \<exists>m'. wipeRenumLoop m progByte (length P) nl c = Inr m' \<and> length m' = length m \<and>
        take progByte m' = P @ concat (renum_lines nl c rest) \<and>
        drop progByte m' = drop progByte m"
proof (induction rest arbitrary: P nl m)
  case Nil
  then have "length P = progByte" by (metis append_Nil2 concat.simps(1) length_take min.absorb2)
  then show ?case using Nil by (simp add: wipeRenumLoop.simps)
next
  case (Cons l rest)
  have vl: "valid_line l" using Cons.prems(3) by simp
  have tk: "take progByte m = P @ l @ concat rest" using Cons.prems(1) by simp
  have l1: "1 < length l" "0 < length l" using vl by (auto simp: valid_line_def)
  from nth_in_line[OF tk l1(2)] have lt: "length P < progByte" "length P < length m" by auto
  define m1 where "m1 = m[length P := nl]"
  have wr0: "wr m (length P) nl = Inr m1" using lt by (simp add: wr_def m1_def)
  have lcons: "l = hd l # tl l" using l1 by (cases l) auto
  have tk1: "take progByte m1 = P @ (nl # tl l) @ concat rest"
  proof -
    have "take progByte m1 = (take progByte m)[length P := nl]"
      by (simp add: m1_def take_update_swap)
    also have "\<dots> = (P @ (hd l # tl l) @ concat rest)[length P := nl]" using tk lcons by simp
    also have "\<dots> = P @ (nl # tl l) @ concat rest" by (simp add: list_update_append)
    finally show ?thesis .
  qed
  have l1': "1 < length (nl # tl l)" using l1 by simp
  from nth_in_line[OF tk1 l1'] 
  have rd1: "rd m1 (length P + 1) = Inr (l ! 1)"
    using l1 by (auto simp: rd_def nth_tl)
  have tk1': "take progByte m1 = (P @ (nl # tl l)) @ concat rest" using tk1 by simp
  have len1: "progByte \<le> length m1" using Cons.prems(2) by (simp add: m1_def)
  from Cons.IH[OF tk1' len1, of "nl + c"] Cons.prems(3)
  obtain m' where ih: "wipeRenumLoop m1 progByte (length P + length l) (nl + c) c = Inr m'"
     "length m' = length m1" "take progByte m' = (P @ (nl # tl l)) @ concat (renum_lines (nl + c) c rest)"
     "drop progByte m' = drop progByte m1"
    using l1 by auto
  have dr: "drop progByte m1 = drop progByte m" using lt by (simp add: m1_def)
  show ?case
    using wr0 rd1 lt valid_line_len[OF vl] ih dr
    by (subst wipeRenumLoop.simps) (simp add: m1_def)
qed

subsection \<open>Renumbering\<close>

lemma length_renum_lines [simp]: "length (renum_lines nl c ls) = length ls"
  by (induction ls arbitrary: nl) auto

lemma tl_renum_lines: "map tl (renum_lines nl c ls) = map tl ls"
  by (induction ls arbitrary: nl) auto

lemma hd_renum_lines:
  "i < length ls \<Longrightarrow> hd (renum_lines nl c ls ! i) = nl + of_nat i * c"
proof (induction ls arbitrary: nl i)
  case Nil then show ?case by simp
next
  case (Cons l ls)
  show ?case
  proof (cases i)
    case 0 then show ?thesis by simp
  next
    case (Suc j)
    with Cons.prems have "j < length ls" by simp
    from Cons.IH[OF this, of "nl + c"] Suc show ?thesis by (simp add: algebra_simps)
  qed
qed

lemma valid_renum_lines:
  "list_all valid_line ls \<Longrightarrow> list_all valid_line (renum_lines nl c ls)"
proof (induction ls arbitrary: nl)
  case Nil then show ?case by simp
next
  case (Cons l ls)
  then have "valid_line l" by simp
  then have "valid_line (nl # tl l)"
    by (cases l) (auto simp: valid_line_def nth_Cons split: nat.splits)
  with Cons show ?case by simp
qed

lemma length_concat_renum_lines:
  "list_all valid_line ls \<Longrightarrow> length (concat (renum_lines nl c ls)) = length (concat ls)"
proof (induction ls arbitrary: nl)
  case Nil then show ?case by simp
next
  case (Cons l ls)
  then have "l \<noteq> []" by (auto simp: valid_line_def)
  with Cons show ?case by simp
qed

lemma renum_step_sdiv: "2 \<le> n \<Longrightarrow> (245::int) sdiv (int n - 1) = int (245 div (n - 1))"
proof -
  assume n: "2 \<le> n"
  have a: "int n - 1 = int (n - 1)" using n by simp
  have b: "(245::int) sdiv int (n - 1) = 245 div int (n - 1)"
    using n by (simp add: signed_divide_int_def sgn_if)
  show ?thesis unfolding a b by (simp add: zdiv_int)
qed

lemma uint_of_nat_byte: "n \<le> 255 \<Longrightarrow> uint (of_nat n :: 8 word) = int n"
  by (simp add: uint_nat unat_of_nat)

lemma wipeRenumLines_lines:
  assumes pl: "program_lines (m_program st) (m_wipeProgByte st) ls"
    and n: "2 \<le> length ls" "length ls \<le> 255"
  shows "wipeRenumLines st =
           Inr (st\<lparr>m_program :=
                  concat (renum_lines 5 (of_nat (245 div (length ls - 1))) ls) @
                  drop (m_wipeProgByte st) (m_program st)\<rparr>)"
proof -
  let ?m = "m_program st" and ?pb = "m_wipeProgByte st"
  have tk: "take ?pb ?m = [] @ concat ls" and le: "?pb \<le> length ?m" and vl: "list_all valid_line ls"
    using pl by (auto simp: program_lines_def)
  have cnt: "wipeCountLines ?m ?pb 0 0 = Inr (of_nat (length ls))"
    using wipeCountLines_lines[OF tk le vl, of 0] by simp
  have u: "uint (of_nat (length ls) :: 8 word) = int (length ls)"
    using n by (simp add: uint_of_nat_byte)
  have sd: "(245::int) sdiv (int (length ls) - 1) = int (245 div (length ls - 1))"
    using n by (simp add: renum_step_sdiv)
  from wipeRenumLoop_lines[OF tk le vl, of 5 "of_nat (245 div (length ls - 1))"]
  obtain m' where r: "wipeRenumLoop ?m ?pb 0 5 (of_nat (245 div (length ls - 1))) = Inr m'"
    and m': "take ?pb m' = concat (renum_lines 5 (of_nat (245 div (length ls - 1))) ls)"
       "drop ?pb m' = drop ?pb ?m"
    by auto
  have m'eq: "m' = concat (renum_lines 5 (of_nat (245 div (length ls - 1))) ls) @ drop ?pb ?m"
    using m' append_take_drop_id[of ?pb m'] by metis
  show ?thesis
    using cnt u sd r m'eq n by (simp add: wipeRenumLines_def)
qed

lemma renum_step_bounds:
  assumes "2 \<le> (n::nat)" "n \<le> 246" "i < n"
  shows "1 \<le> 245 div (n - 1)" "5 + i * (245 div (n - 1)) \<le> 250"
proof -
  have "n - 1 \<le> 245" "0 < n - 1" using assms by auto
  then show "1 \<le> 245 div (n - 1)"
    by (metis One_nat_def Suc_leI div_greater_zero_iff)
  have "i * (245 div (n - 1)) \<le> (n - 1) * (245 div (n - 1))"
    using assms by (intro mult_right_mono) auto
  also have "\<dots> \<le> 245" by simp
  finally show "5 + i * (245 div (n - 1)) \<le> 250" by simp
qed

lemma renum_numbers:
  assumes n: "2 \<le> length ls" "length ls \<le> 246"
  shows "map (\<lambda>l. unat (hd l)) (renum_lines 5 (of_nat (245 div (length ls - 1))) ls) =
         map (\<lambda>i. 5 + i * (245 div (length ls - 1))) [0..<length ls]"
proof (rule nth_equalityI)
  show "length (map (\<lambda>l. unat (hd l)) (renum_lines 5 (of_nat (245 div (length ls - 1))) ls)) =
        length (map (\<lambda>i. 5 + i * (245 div (length ls - 1))) [0..<length ls])" by simp
next
  fix i assume "i < length (map (\<lambda>l. unat (hd l)) (renum_lines 5 (of_nat (245 div (length ls - 1))) ls))"
  then have i: "i < length ls" by simp
  let ?s = "245 div (length ls - 1)"
  have "hd (renum_lines 5 (of_nat ?s) ls ! i) = (5 + of_nat i * of_nat ?s :: 8 word)"
    using hd_renum_lines[OF i] by simp
  also have "\<dots> = of_nat (5 + i * ?s)" by simp
  finally have "unat (hd (renum_lines 5 (of_nat ?s) ls ! i)) = 5 + i * ?s"
    using renum_step_bounds(2)[OF n i] by (simp only: unat_of_nat_byte)
  then show "map (\<lambda>l. unat (hd l)) (renum_lines 5 (of_nat ?s) ls) ! i =
        map (\<lambda>i. 5 + i * ?s) [0..<length ls] ! i"
    using i by simp
qed

text \<open>
  Claim C6, as amended. For a program buffer that holds between 2 and 246 valid lines,
  renumbering returns, changes nothing but the first byte of each line (so the number
  of lines, their order and all their other bytes stay), and gives line \<open>i\<close>
  (counting from 0) the number \<open>5 + i * step\<close> with \<open>step = 245 div (n - 1)\<close>;
  these numbers lie in \<open>[5, 250]\<close> and are strictly ascending.
\<close>

theorem wipeRenumLines_renumbers:
  assumes pl: "program_lines (m_program st) (m_wipeProgByte st) ls"
    and n: "2 \<le> length ls" "length ls \<le> 246"
  shows "let step = 245 div (length ls - 1);
             ls' = renum_lines 5 (of_nat step) ls;
             m' = concat ls' @ drop (m_wipeProgByte st) (m_program st)
         in wipeRenumLines st = Inr (st\<lparr>m_program := m'\<rparr>) \<and>
            program_lines m' (m_wipeProgByte st) ls' \<and>
            length ls' = length ls \<and> map tl ls' = map tl ls \<and>
            map (\<lambda>l. unat (hd l)) ls' = map (\<lambda>i. 5 + i * step) [0..<length ls] \<and>
            list_all (\<lambda>l. 5 \<le> unat (hd l) \<and> unat (hd l) \<le> 250) ls' \<and>
            sorted_wrt (<) (map (\<lambda>l. unat (hd l)) ls')"
proof -
  let ?s = "245 div (length ls - 1)"
  let ?ls' = "renum_lines 5 (of_nat ?s) ls"
  let ?pb = "m_wipeProgByte st"
  let ?m' = "concat ?ls' @ drop ?pb (m_program st)"
  have n255: "length ls \<le> 255" using n by simp
  have vl: "list_all valid_line ls" and le: "?pb \<le> length (m_program st)"
    and tk: "take ?pb (m_program st) = concat ls"
    using pl by (auto simp: program_lines_def)
  have lc: "length (concat ls) = ?pb" using tk le by (metis length_take min.absorb2)
  have lc': "length (concat ?ls') = ?pb" using length_concat_renum_lines[OF vl] lc by simp
  have r: "wipeRenumLines st = Inr (st\<lparr>m_program := ?m'\<rparr>)"
    using wipeRenumLines_lines[OF pl n(1) n255] .
  have pl': "program_lines ?m' ?pb ?ls'"
    using valid_renum_lines[OF vl] lc' le by (simp add: program_lines_def)
  have nums: "map (\<lambda>l. unat (hd l)) ?ls' = map (\<lambda>i. 5 + i * ?s) [0..<length ls]"
    using renum_numbers[OF n] .
  have rng: "list_all (\<lambda>k. 5 \<le> k \<and> k \<le> 250) (map (\<lambda>i. 5 + i * ?s) [0..<length ls])"
    using renum_step_bounds(2)[OF n] by (simp add: list_all_iff)
  have rng': "list_all (\<lambda>l. 5 \<le> unat (hd l) \<and> unat (hd l) \<le> 250) ?ls'"
  proof -
    have "list_all (\<lambda>k. 5 \<le> k \<and> k \<le> 250) (map (\<lambda>l. unat (hd l)) ?ls')"
      using rng nums by simp
    then show ?thesis by (simp add: list_all_iff)
  qed
  have "0 < length ls" using n by linarith
  then have s1: "1 \<le> ?s" using renum_step_bounds(1)[OF n, of 0] by blast
  have "sorted_wrt (\<lambda>i j. 5 + i * ?s < 5 + j * ?s) [0..<length ls]"
    using s1 by (intro sorted_wrt_mono_rel[OF _ sorted_wrt_upt[of 0 "length ls"]]) auto
  then have srt: "sorted_wrt (<) (map (\<lambda>l. unat (hd l)) ?ls')"
    unfolding nums by (simp add: sorted_wrt_map)
  show ?thesis
    using r pl' nums rng' srt by (simp add: Let_def tl_renum_lines)
qed

theorem wipeRenumLines_renumbers_witness:
  "wipeRenumLines three_lines =
     Inr (three_lines\<lparr>m_program :=
            [5, 5, 29, 48, 0,
             127, 8, 28, 76, 111, 111, 112, 0,
             249, 8, 27, 76, 111, 111, 112, 0] @ replicate 4043 0\<rparr>)"
proof -
  have d: "245 div Suc (Suc 0) = (122::nat)" by code_simp
  show ?thesis
    using wipeRenumLines_renumbers
      [of three_lines "[[10, 5, 29, 48, 0], [20, 8, 28, 76, 111, 111, 112, 0],
                        [30, 8, 27, 76, 111, 111, 112, 0]]"]
    by (simp add: three_lines_def program_lines_def valid_line_def Let_def d)
qed

text \<open>
  The claim as stated, for every non-empty buffer, fails: for the program of 247 lines
  the increment is \<open>245 div 246 = 0\<close> and every line gets the number 5.
\<close>

lemma renum_example_concat_length:
  "length (concat (map (\<lambda>k. [of_nat k, 5, 27, 97, 0 :: 8 word]) xs)) = 5 * length xs"
  by (induction xs) auto

lemma renum_example_valid:
  "list_all valid_line (map (\<lambda>k. [of_nat k, 5, 27, 97, 0 :: 8 word]) xs)"
  by (induction xs) (auto simp: valid_line_def)

lemma renum_example_renum:
  "renum_lines nl 0 (map (\<lambda>k. [of_nat k, 5, 27, 97, 0 :: 8 word]) xs) =
     replicate (length xs) [nl, 5, 27, 97, 0]"
  by (induction xs) auto

theorem wipeRenumLines_duplicate_numbers:
  "wipeRenumLines renum_example =
     Inr (renum_example\<lparr>m_program :=
            concat (replicate 247 [5, 5, 27, 97, 0]) @ replicate 2829 0\<rparr>) \<and>
   \<not> sorted_wrt (<) (replicate 247 (5 :: 8 word))"
proof -
  have len: "length renum_example_lines = 247" by (simp add: renum_example_lines_def)
  have cl: "length (concat renum_example_lines) = 1235"
    by (simp add: renum_example_lines_def renum_example_concat_length)
  have vl: "list_all valid_line renum_example_lines"
    unfolding renum_example_lines_def by (rule renum_example_valid)
  have pl: "program_lines (m_program renum_example) (m_wipeProgByte renum_example)
              renum_example_lines"
    using cl vl by (simp add: program_lines_def renum_example_def)
  have dr: "drop (m_wipeProgByte renum_example) (m_program renum_example) = replicate 2829 0"
    using cl by (simp add: renum_example_def)
  have rn: "renum_lines 5 (of_nat (245 div (length renum_example_lines - 1))) renum_example_lines
            = replicate 247 [5, 5, 27, 97, 0]"
  proof -
    have "245 div (length renum_example_lines - 1) = 0" by (simp add: len)
    then show ?thesis
      unfolding renum_example_lines_def by (simp add: renum_example_renum)
  qed
  have "wipeRenumLines renum_example =
     Inr (renum_example\<lparr>m_program :=
            concat (replicate 247 [5, 5, 27, 97, 0]) @ replicate 2829 0\<rparr>)"
    using wipeRenumLines_lines[OF pl] len unfolding rn dr by simp
  moreover have "\<not> sorted_wrt (<) (replicate 247 (5 :: 8 word))"
    by (simp add: numeral_eq_Suc)
  ultimately show ?thesis by simp
qed

subsection \<open>The program directory\<close>

lemma uint16_id [simp]: "n < 65536 \<Longrightarrow> uint16 (int n) = n"
  by (simp add: uint16_def)

lemma uint16_add1: "n < 65535 \<Longrightarrow> uint16 (int n + 1) = Suc n"
  by (simp add: uint16_def nat_add_distrib)

lemma EEPROM_write_simps [simp]:
  "EEPROM (EEPROM_write a v d) = (EEPROM d)(a := v)"
  "m_wipeSaveAddr (EEPROM_write a v d) = m_wipeSaveAddr d"
  "m_wipeDirSpace (EEPROM_write a v d) = m_wipeDirSpace d"
  by (simp_all add: EEPROM_write_def)

lemma EEPROM_write_bytes_frame [simp]:
  "m_wipeSaveAddr (EEPROM_write_bytes a bs d) = m_wipeSaveAddr d"
  "m_wipeDirSpace (EEPROM_write_bytes a bs d) = m_wipeDirSpace d"
  by (induction bs arbitrary: a d) auto

lemma EEPROM_write_bytes_content:
  "a + length bs \<le> 65535 \<Longrightarrow>
   EEPROM (EEPROM_write_bytes a bs d) x =
     (if a \<le> x \<and> x < a + length bs then bs ! (x - a) else EEPROM d x)"
proof (induction bs arbitrary: a d)
  case Nil then show ?case by auto
next
  case (Cons b bs)
  then have a: "uint16 (int a + 1) = Suc a" by (simp add: uint16_add1)
  have "Suc a + length bs \<le> 65535" using Cons.prems by simp
  from Cons.IH[OF this, of "EEPROM_write a b d"] show ?case
    by (cases "x = a") (auto simp: a nth_Cons' Suc_diff_le)
qed

lemma wipeLoadBytes_content:
  "i + n \<le> length m \<Longrightarrow> pos + i + n \<le> 65536 \<Longrightarrow>
   wipeLoadBytes ee pos m i n =
     Inr (take i m @ map (\<lambda>k. ee (pos + k)) [i..<i + n] @ drop (i + n) m)"
proof (induction n arbitrary: i m)
  case 0 then show ?case by simp
next
  case (Suc n)
  have w: "wr m i (ee (uint16 (int pos + int i))) = Inr (m[i := ee (pos + i)])"
    using Suc.prems by (simp add: wr_def uint16_def nat_add_distrib flip: of_nat_add)
  have "Suc i + n \<le> length (m[i := ee (pos + i)])" "pos + Suc i + n \<le> 65536"
    using Suc.prems by auto
  from Suc.IH[OF this] have ih: "wipeLoadBytes ee pos (m[i := ee (pos + i)]) (Suc i) n =
     Inr (take (Suc i) (m[i := ee (pos + i)]) @ map (\<lambda>k. ee (pos + k)) [Suc i..<Suc i + n] @
          drop (Suc i + n) (m[i := ee (pos + i)]))" .
  have il: "i < length m" using Suc.prems by simp
  have t: "take (Suc i) (m[i := ee (pos + i)]) = take i m @ [ee (pos + i)]"
    using il by (simp add: take_Suc_conv_app_nth)
  have u: "[i..<i + Suc n] = i # [Suc i..<Suc i + n]"
    by (simp add: upt_conv_Cons)
  show ?case
    using w ih t u by simp
qed

lemma wipeDirNameMatch_cong:
  "(\<And>x. currDirEntry + 2 \<le> x \<Longrightarrow> x < currDirEntry + 2 + (i + n) \<Longrightarrow> ee' x = ee x) \<Longrightarrow>
   wipeDirNameMatch ee' currDirEntry progName i n = wipeDirNameMatch ee currDirEntry progName i n"
proof (induction n arbitrary: i)
  case 0 then show ?case by simp
next
  case (Suc n)
  have e: "ee' (currDirEntry + 2 + i) = ee (currDirEntry + 2 + i)"
    using Suc.prems[of "currDirEntry + 2 + i"] by simp
  have "wipeDirNameMatch ee' currDirEntry progName (Suc i) n =
        wipeDirNameMatch ee currDirEntry progName (Suc i) n"
    using Suc.prems by (intro Suc.IH) auto
  then show ?case using e by (simp split: sum.splits)
qed

lemma wipeDirNameMatch_same:
  assumes "\<And>k. k \<le> length name \<Longrightarrow> ee (a + 2 + k) = (name @ [0]) ! k"
    and "0 \<notin> set name"
  shows "i \<le> length name \<Longrightarrow> length name < i + n \<Longrightarrow>
         wipeDirNameMatch ee a (name @ 0 # rest) i n = Inr True"
proof (induction n arbitrary: i)
  case 0 then show ?case by simp
next
  case (Suc n)
  have r: "rd (name @ 0 # rest) i = Inr ((name @ [0]) ! i)"
    using Suc.prems by (auto simp: rd_def nth_append)
  have e: "ee (a + 2 + i) = (name @ [0]) ! i" using assms(1) Suc.prems by simp
  show ?case
  proof (cases "i = length name")
    case True
    then show ?thesis using r e by simp
  next
    case False
    then have lt: "i < length name" using Suc.prems by simp
    then have nz: "(name @ [0]) ! i \<noteq> 0" using assms(2) by (auto simp: nth_append in_set_conv_nth)
    have "wipeDirNameMatch ee a (name @ 0 # rest) (Suc i) n = Inr True"
      using lt Suc.prems by (intro Suc.IH) auto
    then show ?thesis using r e nz by simp
  qed
qed

lemma wipeDirNameMatch_rest:
  "i \<le> length name \<Longrightarrow>
   wipeDirNameMatch ee a (name @ 0 # rest') i n = wipeDirNameMatch ee a (name @ 0 # rest) i n"
proof (induction n arbitrary: i)
  case 0 then show ?case by simp
next
  case (Suc n)
  have r: "rd (name @ 0 # rest') i = Inr ((name @ [0]) ! i)"
          "rd (name @ 0 # rest) i = Inr ((name @ [0]) ! i)"
    using Suc.prems by (auto simp: rd_def nth_append)
  show ?case
  proof (cases "i = length name")
    case True
    then show ?thesis using r by simp
  next
    case False
    then have "Suc i \<le> length name" using Suc.prems by simp
    from Suc.IH[OF this] show ?thesis using r by simp
  qed
qed

lemma unat_byte_less: "unat (x :: 8 word) < 256"
  using unsigned_less[of x, where 'a=nat] by simp

lemma file_size_cong:
  "a < 65535 \<Longrightarrow> ee' a = ee a \<Longrightarrow> ee' (Suc a) = ee (Suc a) \<Longrightarrow> file_size ee' a = file_size ee a"
  by (simp add: file_size_def uint16_add1)

lemma wipeDirFileFind_walk:
  assumes same: "\<And>x. x < e \<Longrightarrow> ee' x = ee x"
    and new: "file_size ee' e = sz_new" "sz_new \<noteq> 0" "e < EEPROM_PROG_DIR_START + EEPROM_PROG_LEN"
             "wipeDirNameMatch ee' e progName' 0 (MAX_PROGNAME_LEN + 1) = Inr True"
    and names: "\<And>ee a. wipeDirNameMatch ee a progName' 0 13 = wipeDirNameMatch ee a progName 0 13"
  shows "dir_at ee a sizes \<Longrightarrow> e = a + dir_used sizes \<Longrightarrow> 0 < a \<Longrightarrow>
         wipeDirFileFind_loop progName ee a (file_size ee a) = Some (Inr (0, 0)) \<Longrightarrow>
         wipeDirFileFind_loop progName' ee' a (file_size ee' a) = Some (Inr (e, sz_new))"
proof (induction sizes arbitrary: a)
  case Nil
  then have "e = a" by (simp add: dir_used_def)
  then show ?case using new by (subst wipeDirFileFind_loop.simps) simp
next
  case (Cons sz rest)
  have fs: "file_size ee a = sz" and nz: "sz \<noteq> 0" and lt: "a < 4095"
    and nxt: "dir_at ee (a + sz + 15) rest"
    using Cons.prems(1) by auto
  have e: "e = (a + sz + 15) + dir_used rest" using Cons.prems(2) by (simp add: dir_used_def)
  have sz_lt: "sz < 65536"
    using fs unat_byte_less[of "ee a"] unat_byte_less[of "ee (uint16 (int a + 1))"]
    by (simp add: file_size_def)
  have nx: "uint16 (int a + (int sz + 15)) = a + sz + 15"
    using e new(3) by (simp add: uint16_def nat_add_distrib flip: of_nat_add)
  have old: "wipeDirFileFind_loop progName ee a sz = Some (Inr (0, 0))"
    using Cons.prems(4) fs by simp
  have unf: "wipeDirFileFind_loop progName ee a sz =
      (case wipeDirNameMatch ee a progName 0 13 of
         Inl e \<Rightarrow> Some (Inl e)
       | Inr found \<Rightarrow>
           if found then Some (Inr (a, sz))
           else wipeDirFileFind_loop progName ee (a + sz + 15) (file_size ee (a + sz + 15)))"
    using nz lt nx by (subst wipeDirFileFind_loop.simps) (auto simp: Let_def split: sum.splits)
  have m_old: "wipeDirNameMatch ee a progName 0 13 = Inr False"
    using old Cons.prems(3) unfolding unf by (auto split: sum.splits if_splits)
  have rec_old: "wipeDirFileFind_loop progName ee (a + sz + 15) (file_size ee (a + sz + 15)) =
                  Some (Inr (0, 0))"
    using old unfolding unf m_old by simp
  have m_new: "wipeDirNameMatch ee' a progName' 0 13 = Inr False"
    using wipeDirNameMatch_cong[of a 0 13 ee' ee progName] same e m_old names by simp
  have fs': "file_size ee' a = sz"
    using file_size_cong[of a ee' ee] same[of a] same[of "Suc a"] e lt fs by simp
  from Cons.IH[OF nxt e _ rec_old]
  have ih: "wipeDirFileFind_loop progName' ee' (a + sz + 15) (file_size ee' (a + sz + 15)) =
            Some (Inr (e, sz_new))" by simp
  show ?case
    unfolding fs'
    using nz lt m_new nx ih by (subst wipeDirFileFind_loop.simps) (simp add: Let_def)
qed

lemma file_size_written:
  assumes "p < 65536" "a < 65535" "ee a = of_nat (p div 256)" "ee (Suc a) = of_nat p"
  shows "file_size ee a = p"
proof -
  have "p div 256 < 256" using assms(1) by simp
  then have hi: "unat (of_nat (p div 256) :: 8 word) = p div 256"
    by (simp add: unat_of_nat)
  have lo: "unat (of_nat p :: 8 word) = p mod 256" by (simp add: unat_of_nat)
  show ?thesis using assms hi lo by (simp add: file_size_def uint16_add1)
qed

lemma wipeDirFileSave_content:
  assumes nm: "13 \<le> length progName"
    and pl: "m_wipeProgByte st \<le> length (m_program st)"
    and bd: "m_wipeSaveAddr d + m_wipeProgByte st + 15 \<le> 4095"
    and sp: "m_wipeProgByte st + 15 \<le> m_wipeDirSpace d" "m_wipeDirSpace d < 65536"
  shows "\<exists>d1. wipeDirFileSave progName st d = Inr d1 \<and>
           m_wipeSaveAddr d1 = m_wipeSaveAddr d + m_wipeProgByte st + 15 \<and>
           m_wipeDirSpace d1 = m_wipeDirSpace d - (m_wipeProgByte st + 15) \<and>
           (\<forall>x < m_wipeSaveAddr d. EEPROM d1 x = EEPROM d x) \<and>
           EEPROM d1 (m_wipeSaveAddr d) = of_nat (m_wipeProgByte st div 256) \<and>
           EEPROM d1 (Suc (m_wipeSaveAddr d)) = of_nat (m_wipeProgByte st) \<and>
           (\<forall>k < 13. EEPROM d1 (m_wipeSaveAddr d + 2 + k) = progName ! k) \<and>
           (\<forall>i < m_wipeProgByte st. EEPROM d1 (m_wipeSaveAddr d + 15 + i) = m_program st ! i)"
proof -
  let ?a = "m_wipeSaveAddr d" and ?p = "m_wipeProgByte st"
  let ?e = "?a + ?p + 15"
  have sa: "uint16 (int ?a + (int ?p + 15)) = ?e"
    using bd by (simp add: uint16_def nat_add_distrib flip: of_nat_add)
  have ds: "uint16 (int (m_wipeDirSpace d) - (int ?p + 15)) = m_wipeDirSpace d - (?p + 15)"
    using sp by (simp add: uint16_def nat_diff_distrib' flip: of_nat_add of_nat_diff)
  have "uint16 (int ?e + 1) = uint16 (int (Suc ?e))"
    by (simp add: add.commute)
  also have "\<dots> = Suc ?e" using bd by (intro uint16_id) simp
  finally have sa1: "uint16 (int ?e + 1) = Suc ?e" .
  have "uint16 (16 + (int ?a + int ?p)) = uint16 (int (16 + (?a + ?p)))" by simp
  also have "\<dots> = 16 + (?a + ?p)" using bd by (intro uint16_id) simp
  finally have sa1': "uint16 (16 + (int ?a + int ?p)) = 16 + (?a + ?p)" .
  have l13: "length (take 13 progName) = 13" using nm by simp
  have lp: "length (take ?p (m_program st)) = ?p" using pl by simp
  define nb where "nb = take 13 progName"
  define pb where "pb = take ?p (m_program st)"
  have lnb: "length nb = 13" and lpb: "length pb = ?p"
    using nm pl by (simp_all add: nb_def pb_def)
  have nnb: "k < 13 \<Longrightarrow> nb ! k = progName ! k" for k by (simp add: nb_def)
  have npb: "i < ?p \<Longrightarrow> pb ! i = m_program st ! i" for i by (simp add: pb_def)
  define d4 where "d4 = EEPROM_write_bytes (?a + 15) pb
     (EEPROM_write_bytes (?a + 2) nb
        (EEPROM_write (?a + 1) (of_nat ?p) (EEPROM_write ?a (of_nat (?p div 256)) d)))"
  define d1 where "d1 = EEPROM_write (Suc ?e) 0
     (EEPROM_write ?e 0 (d4\<lparr>m_wipeSaveAddr := ?e,
                               m_wipeDirSpace := m_wipeDirSpace d - (?p + 15)\<rparr>))"
  have r: "wipeDirFileSave progName st d = Inr d1"
    using nm pl
    by (simp add: wipeDirFileSave_def Let_def sa ds sa1' d1_def d4_def nb_def pb_def add.commute)
  have c4: "EEPROM d4 x =
      (if ?a + 15 \<le> x \<and> x < ?a + 15 + ?p then pb ! (x - (?a + 15))
       else if ?a + 2 \<le> x \<and> x < ?a + 15 then nb ! (x - (?a + 2))
       else if x = ?a + 1 then of_nat ?p
       else if x = ?a then of_nat (?p div 256)
       else EEPROM d x)" for x
    using bd by (simp add: d4_def EEPROM_write_bytes_content lnb lpb)
  have c1: "EEPROM d1 x = (if x = Suc ?e \<or> x = ?e then 0 else EEPROM d4 x)" for x
    by (simp add: d1_def)
  have fr: "m_wipeSaveAddr d1 = ?e" "m_wipeDirSpace d1 = m_wipeDirSpace d - (?p + 15)"
    by (simp_all add: d1_def)
  have "\<forall>x < ?a. EEPROM d1 x = EEPROM d x" by (simp add: c1 c4)
  moreover have "EEPROM d1 ?a = of_nat (?p div 256)" by (simp add: c1 c4)
  moreover have "EEPROM d1 (Suc ?a) = of_nat ?p" by (simp add: c1 c4)
  moreover have "\<forall>k < 13. EEPROM d1 (?a + 2 + k) = progName ! k" by (simp add: c1 c4 nnb)
  moreover have "\<forall>i < ?p. EEPROM d1 (?a + 15 + i) = m_program st ! i" by (simp add: c1 c4 npb)
  ultimately show ?thesis using r fr by blast
qed

lemma file_size_zero: "ee a = 0 \<Longrightarrow> ee (Suc a) = 0 \<Longrightarrow> a < 65535 \<Longrightarrow> file_size ee a = 0"
  by (simp add: file_size_def uint16_add1)

lemma wipeDirFileFind_empty:
  "EEPROM d 17 = 0 \<Longrightarrow> EEPROM d 18 = 0 \<Longrightarrow> wipeDirFileFind progName d = Some (Inr (0, 0))"
  unfolding wipeDirFileFind_def
  by (subst wipeDirFileFind_loop.simps) (simp add: file_size_zero)

lemma wipeDirList_empty:
  "EEPROM d 17 = 0 \<Longrightarrow> EEPROM d 18 = 0 \<Longrightarrow> wipeDirList d = Some []"
  unfolding wipeDirList_def
  by (subst wipeDirList_loop.simps) (simp add: file_size_zero)

lemma wipeDirSpaceCheck_empty:
  "EEPROM d 17 = 0 \<Longrightarrow> EEPROM d 18 = 0 \<Longrightarrow>
   wipeDirSpaceCheck d = Some (d\<lparr>m_wipeSaveAddr := 17, m_wipeDirSpace := 4078\<rparr>)"
  unfolding wipeDirSpaceCheck_def
  by (subst wipeDirSpaceCheck_loop.simps) (simp add: file_size_zero)

text \<open>
  In a directory whose entries are chained from the start of the directory region up
  to the write address, every one of a size other than zero, with the free-space
  counter and the write address in step with them: when the \<open>save\<close> command accepts
  a non-empty program, a later \<open>load\<close> of that name, into whatever the buffer then
  holds, returns, reports success, sets the occupied length to the saved one and makes
  the occupied bytes equal to the saved ones.
\<close>

lemma wipeDirFileLoad_after_save:
  assumes inv: "dir_at (EEPROM d) EEPROM_PROG_DIR_START sizes"
      "m_wipeSaveAddr d = EEPROM_PROG_DIR_START + dir_used sizes"
      "m_wipeDirSpace d + dir_used sizes = EEPROM_PROG_LEN"
    and prog: "0 < m_wipeProgByte st" "m_wipeProgByte st \<le> length (m_program st)"
    and name: "length name \<le> MAX_PROGNAME_LEN" "0 \<notin> set name"
      "MAX_PROGNAME_LEN + 1 \<le> length (name @ 0 # rest)"
    and space: "m_wipeProgByte st + DIR_PROG_OFFS \<le> m_wipeDirSpace d"
    and fresh: "wipeDirFileFind (name @ 0 # rest) d = Some (Inr (0, 0))"
    and room: "m_wipeProgByte st \<le> length (m_program st')"
  shows "\<exists>d1 st''.
           processWipeCommand_SAVE (Some (name @ 0 # rest)) st d = Some (Inr (None, d1)) \<and>
           wipeDirFileLoad (name @ 0 # rest') d1 st' = Some (Inr (True, st'')) \<and>
           m_wipeProgByte st'' = m_wipeProgByte st \<and>
           take (m_wipeProgByte st'') (m_program st'') =
             take (m_wipeProgByte st) (m_program st)"
proof -
  let ?a = "m_wipeSaveAddr d" and ?p = "m_wipeProgByte st"
  let ?pn = "name @ 0 # rest" and ?pn' = "name @ 0 # rest'"
  have bd: "?a + ?p + 15 \<le> 4095" using inv(2,3) space by simp
  have dsl: "m_wipeDirSpace d < 65536" using inv(3) by simp
  have sp: "?p + 15 \<le> m_wipeDirSpace d" using space by simp
  have n13: "13 \<le> length ?pn" using name(3) by simp
  from wipeDirFileSave_content[OF n13 prog(2) bd sp dsl]
  obtain d1 where sv: "wipeDirFileSave ?pn st d = Inr d1"
    and same: "\<And>x. x < ?a \<Longrightarrow> EEPROM d1 x = EEPROM d x"
    and hi: "EEPROM d1 ?a = of_nat (?p div 256)"
    and lo: "EEPROM d1 (Suc ?a) = of_nat ?p"
    and nm: "\<And>k. k < 13 \<Longrightarrow> EEPROM d1 (?a + 2 + k) = ?pn ! k"
    and pg: "\<And>i. i < ?p \<Longrightarrow> EEPROM d1 (?a + 15 + i) = m_program st ! i"
    by blast
  have cmd: "processWipeCommand_SAVE (Some ?pn) st d = Some (Inr (None, d1))"
    using sp fresh sv by (simp add: processWipeCommand_SAVE_def)
  have fs: "file_size (EEPROM d1) ?a = ?p"
    using file_size_written[OF _ _ hi lo] bd by simp
  have mt0: "wipeDirNameMatch (EEPROM d1) ?a ?pn 0 13 = Inr True"
  proof (rule wipeDirNameMatch_same)
    fix k assume "k \<le> length name"
    then have "k < 13" using name(1) by simp
    from nm[OF this] show "EEPROM d1 (?a + 2 + k) = (name @ [0]) ! k"
      using \<open>k \<le> length name\<close> by (simp add: nth_append)
  qed (use name in auto)
  have mt: "wipeDirNameMatch (EEPROM d1) ?a ?pn' 0 (MAX_PROGNAME_LEN + 1) = Inr True"
    using mt0 wipeDirNameMatch_rest[of 0 name "EEPROM d1" ?a rest' 13 rest] by simp
  have names: "\<And>ee a. wipeDirNameMatch ee a ?pn' 0 13 = wipeDirNameMatch ee a ?pn 0 13"
    using wipeDirNameMatch_rest[of 0 name] by simp
  have old: "wipeDirFileFind_loop ?pn (EEPROM d) 17 (file_size (EEPROM d) 17) = Some (Inr (0, 0))"
    using fresh by (simp add: wipeDirFileFind_def)
  have lt: "?a < EEPROM_PROG_DIR_START + EEPROM_PROG_LEN" using bd by simp
  have pnz: "?p \<noteq> 0" using prog(1) by simp
  have a17: "?a = 17 + dir_used sizes" using inv(2) by simp
  have d17: "dir_at (EEPROM d) 17 sizes" using inv(1) by simp
  have fnd: "wipeDirFileFind ?pn' d1 = Some (Inr (?a, ?p))"
    unfolding wipeDirFileFind_def EEPROM_PROG_DIR_START_def
    using wipeDirFileFind_walk[of ?a "EEPROM d1" "EEPROM d" ?p ?pn' ?pn 17 sizes,
            OF same fs pnz lt mt names d17 a17 _ old]
    by simp
  have pos: "uint16 (int ?a + int DIR_PROG_OFFS) = ?a + 15"
    using bd by (simp add: uint16_def nat_add_distrib flip: of_nat_add)
  have ld: "wipeLoadBytes (EEPROM d1) (?a + 15) (m_program st') 0 ?p =
        Inr (map (\<lambda>k. EEPROM d1 (?a + 15 + k)) [0..<?p] @ drop ?p (m_program st'))"
    using wipeLoadBytes_content[of 0 ?p "m_program st'" "?a + 15" "EEPROM d1"] room bd by simp
  have mp: "map (\<lambda>k. EEPROM d1 (?a + 15 + k)) [0..<?p] = take ?p (m_program st)"
    using pg prog(2) by (intro nth_equalityI) auto
  define st'' where "st'' = st'\<lparr>m_program := take ?p (m_program st) @ drop ?p (m_program st'),
                               m_wipeLineStart := ?p, m_wipeProgByte := ?p\<rparr>"
  have a0: "?a \<noteq> 0" using a17 by simp
  have load: "wipeDirFileLoad ?pn' d1 st' = Some (Inr (True, st''))"
    using fnd a0 ld pos by (simp add: wipeDirFileLoad_def mp st''_def)
  have "m_wipeProgByte st'' = ?p" by (simp add: st''_def)
  moreover have "take (m_wipeProgByte st'') (m_program st'') = take ?p (m_program st)"
    using prog(2) by (simp add: st''_def)
  ultimately show ?thesis using cmd load by blast
qed

lemma wipeDirFileLoad_after_save_example:
  "\<exists>d1 st''.
     processWipeCommand_SAVE (Some ([97] @ 0 # replicate 78 0)) three_lines fresh_directory =
       Some (Inr (None, d1)) \<and>
     wipeDirFileLoad ([97] @ 0 # []) d1 empty_program = Some (Inr (True, st'')) \<and>
     m_wipeProgByte st'' = 21 \<and>
     take (m_wipeProgByte st'') (m_program st'') =
       [10, 5, 29, 48, 0, 20, 8, 28, 76, 111, 111, 112, 0, 30, 8, 27, 76, 111, 111, 112, 0]"
proof -
  have f: "wipeDirFileFind ([97] @ 0 # replicate 78 0) fresh_directory = Some (Inr (0, 0))"
    by (rule wipeDirFileFind_empty) (simp_all add: fresh_directory_def)
  have d: "dir_at (EEPROM fresh_directory) EEPROM_PROG_DIR_START []"
    by (simp add: fresh_directory_def file_size_zero)
  show ?thesis
    using wipeDirFileLoad_after_save
      [of fresh_directory "[]" three_lines "[97]" "replicate 78 0" empty_program "[]", OF d]
      f
    by (simp add: dir_used_def) (simp add: fresh_directory_def three_lines_def empty_program_def)
qed

text \<open>
  Claim C9. The claim is that the free-space counter plus the bytes of all saved
  programs, headers included, is the capacity of the directory region after every
  sequence of directory operations. The \<open>save\<close> command does not refuse an empty
  program buffer: it writes an entry of size zero, which is what ends the directory,
  and takes 15 bytes off the counter. After \<open>save a\<close> with an empty buffer in a fresh
  directory the counter is 4063, the directory lists no program, and a new scan by
  \<open>wipeDirSpaceCheck\<close> counts 4078 free bytes.
\<close>

theorem wipe_save_empty_program_loses_space:
  "wipeDirSpaceCheck \<lparr>EEPROM = (\<lambda>a. 0), m_wipeDirSpace = 0, m_wipeSaveAddr = 0\<rparr> =
     Some fresh_directory \<and>
   map_option (map_sum id (\<lambda>(msg, d). (msg, m_wipeDirSpace d, wipeDirList d,
                 map_option m_wipeDirSpace (wipeDirSpaceCheck d))))
     (processWipeCommand_SAVE (Some ([97] @ 0 # replicate 78 0)) empty_program fresh_directory) =
     Some (Inr (None, 4063, Some [], Some 4078))"
proof -
  have c: "wipeDirSpaceCheck \<lparr>EEPROM = (\<lambda>a. 0), m_wipeDirSpace = 0, m_wipeSaveAddr = 0\<rparr> =
     Some fresh_directory"
    by (subst wipeDirSpaceCheck_empty) (simp_all add: fresh_directory_def)
  have f: "wipeDirFileFind ([97] @ 0 # replicate 78 0) fresh_directory = Some (Inr (0, 0))"
    by (rule wipeDirFileFind_empty) (simp_all add: fresh_directory_def)
  obtain d1 where sv: "wipeDirFileSave ([97] @ 0 # replicate 78 0) empty_program fresh_directory
      = Inr d1" and ds: "m_wipeDirSpace d1 = 4063" and e17: "EEPROM d1 17 = 0" "EEPROM d1 18 = 0"
    by (simp add: wipeDirFileSave_def Let_def fresh_directory_def empty_program_def uint16_def
        EEPROM_write_bytes_content)
  have "processWipeCommand_SAVE (Some ([97] @ 0 # replicate 78 0)) empty_program fresh_directory
      = Some (Inr (None, d1))"
    using f sv by (simp add: processWipeCommand_SAVE_def fresh_directory_def empty_program_def)
  then show ?thesis
    using c ds wipeDirList_empty[OF e17] wipeDirSpaceCheck_empty[OF e17] by simp
qed

text \<open>
  Claim C5. The claim is that a non-empty program saved under a fresh name is found
  again by \<open>load\<close>, byte for byte. The \<open>save\<close> command accepts an empty buffer and
  writes an entry of size zero for it, which is what ends the directory. Every entry saved after that lies behind this end: in a fresh directory, after
  \<open>save a\<close> with an empty buffer, \<open>save b\<close> with the three-line program is accepted,
  its 21 bytes are in the store and 36 bytes are taken off the free space, but the
  directory lists nothing and \<open>load b\<close> does not find the program.
\<close>

theorem wipe_save_after_empty_save_not_found:
  "wipeDirSpaceCheck \<lparr>EEPROM = (\<lambda>a. 0), m_wipeDirSpace = 0, m_wipeSaveAddr = 0\<rparr> =
     Some fresh_directory \<and>
   (\<exists>d1 d2.
      processWipeCommand_SAVE (Some ([97] @ 0 # replicate 78 0)) empty_program fresh_directory
        = Some (Inr (None, d1)) \<and>
      processWipeCommand_SAVE (Some ([98] @ 0 # replicate 78 0)) three_lines d1
        = Some (Inr (None, d2)) \<and>
      map (EEPROM d2) [47..<68] = take 21 (m_program three_lines) \<and>
      m_wipeDirSpace d2 = 4027 \<and>
      wipeDirList d2 = Some [] \<and>
      wipeDirFileLoad ([98] @ 0 # replicate 78 0) d2 empty_program
        = Some (Inr (False, empty_program)))"
proof -
  let ?a = "[97] @ 0 # replicate 78 (0::8 word)"
  let ?b = "[98] @ 0 # replicate 78 (0::8 word)"
  have c: "wipeDirSpaceCheck \<lparr>EEPROM = (\<lambda>a. 0), m_wipeDirSpace = 0, m_wipeSaveAddr = 0\<rparr> =
     Some fresh_directory"
    by (subst wipeDirSpaceCheck_empty) (simp_all add: fresh_directory_def)
  have fa: "wipeDirFileFind ?a fresh_directory = Some (Inr (0, 0))"
    by (rule wipeDirFileFind_empty) (simp_all add: fresh_directory_def)
  from wipeDirFileSave_content[of ?a empty_program fresh_directory]
  obtain d1 where sa: "wipeDirFileSave ?a empty_program fresh_directory = Inr d1"
    and d1: "m_wipeSaveAddr d1 = 32" "m_wipeDirSpace d1 = 4063"
      "EEPROM d1 17 = 0" "EEPROM d1 18 = 0"
    by (auto simp: fresh_directory_def empty_program_def)
  have s1: "processWipeCommand_SAVE (Some ?a) empty_program fresh_directory
      = Some (Inr (None, d1))"
    using fa sa by (simp add: processWipeCommand_SAVE_def fresh_directory_def empty_program_def)
  have fb: "wipeDirFileFind ?b d1 = Some (Inr (0, 0))"
    by (rule wipeDirFileFind_empty) (simp_all add: d1)
  from wipeDirFileSave_content[of ?b three_lines d1]
  obtain d2 where sb: "wipeDirFileSave ?b three_lines d1 = Inr d2"
    and d2: "m_wipeSaveAddr d2 = 68" "m_wipeDirSpace d2 = 4027"
      "\<forall>x < 32. EEPROM d2 x = EEPROM d1 x"
      "\<forall>i < 21. EEPROM d2 (47 + i) = m_program three_lines ! i"
    by (auto simp: d1 three_lines_def)
  have z: "EEPROM d2 17 = 0" "EEPROM d2 18 = 0" using d2(3) d1 by simp_all
  have s2: "processWipeCommand_SAVE (Some ?b) three_lines d1 = Some (Inr (None, d2))"
    using fb sb by (simp add: processWipeCommand_SAVE_def d1 three_lines_def)
  have fb2: "wipeDirFileFind ?b d2 = Some (Inr (0, 0))"
    by (rule wipeDirFileFind_empty) (simp_all add: z)
  have ld: "wipeDirFileLoad ?b d2 empty_program = Some (Inr (False, empty_program))"
    using fb2 by (simp add: wipeDirFileLoad_def)
  have bytes: "map (EEPROM d2) [47..<68] = take 21 (m_program three_lines)"
  proof (rule nth_equalityI)
    show "length (map (EEPROM d2) [47..<68]) = length (take 21 (m_program three_lines))"
      by (simp add: three_lines_def)
  next
    fix i assume "i < length (map (EEPROM d2) [47..<68])"
    then have i: "i < 21" by simp
    then show "map (EEPROM d2) [47..<68] ! i = take 21 (m_program three_lines) ! i"
      using d2(4) by (simp del: upt_rec_numeral)
  qed
  from c s1 s2 bytes d2(2) wipeDirList_empty[OF z] ld show ?thesis by blast
qed

subsection \<open>A rejected statement\<close>

lemma keeps_refl: "cursor_ok st \<Longrightarrow> keeps st st"
  by (simp add: keeps_def cursor_ok_def)

lemma keeps_trans: "keeps a b \<Longrightarrow> keeps b c \<Longrightarrow> keeps a c"
  by (simp add: keeps_def)

lemma keeps_cursor_ok: "keeps a b \<Longrightarrow> cursor_ok a \<Longrightarrow> cursor_ok b"
  by (simp add: keeps_def cursor_ok_def)

lemma keeps_logPrint: "keeps a b \<Longrightarrow> keeps a (logPrint out b)"
  by (simp add: keeps_def logPrint_def)

lemma keeps_wipeShowError: "keeps a b \<Longrightarrow> keeps a (wipeShowError e b)"
  by (simp add: wipeShowError_def keeps_logPrint)

lemma keeps_exprOffs: "keeps a b \<Longrightarrow> keeps a (b\<lparr>m_exprOffs := x\<rparr>)"
  by (simp add: keeps_def)

lemma uint16_small: "n < 65536 \<Longrightarrow> uint16 (int n) = n"
  by (simp add: uint16_def)

lemma keeps_emit:
  assumes "emit v st = Inr st'" "cursor_ok st"
  shows "keeps st st' \<and> m_wipeProgByte st' = m_wipeProgByte st + 1"
proof -
  from assms(1) have lt: "m_wipeProgByte st < length (m_program st)"
    by (auto simp: emit_def wr_def seq_def split: if_splits)
  with assms(2) have u: "uint16 (int (m_wipeProgByte st) + 1) = m_wipeProgByte st + 1"
    by (simp add: uint16_def cursor_ok_def)
  from assms lt u show ?thesis
    by (auto simp: emit_def wr_def seq_def keeps_def cursor_ok_def split: if_splits)
qed

lemma wr_bytes_frame:
  "wr_bytes m i bs = Inr m' \<Longrightarrow>
     length m' = length m \<and> (bs \<noteq> [] \<longrightarrow> i + length bs \<le> length m) \<and>
     (\<forall>k\<le>i. take k m' = take k m)"
proof (induction bs arbitrary: m i)
  case Nil
  then show ?case by simp
next
  case (Cons b bs)
  from Cons.prems obtain m1 where w: "wr m i b = Inr m1" and r: "wr_bytes m1 (Suc i) bs = Inr m'"
    by (auto split: sum.splits)
  from w have m1: "m1 = m[i := b]" and lt: "i < length m"
    by (auto simp: wr_def split: if_splits)
  from Cons.IH[OF r] m1 lt show ?case
    by (cases bs) auto
qed

lemma keeps_copy:
  assumes "copy_to_program bs st = Inr st'" "cursor_ok st"
  shows "keeps st st' \<and> m_wipeProgByte st' = m_wipeProgByte st \<and>
         (bs \<noteq> [] \<longrightarrow> m_wipeProgByte st + length bs \<le> length (m_program st))"
proof -
  from assms(1) obtain m' where w: "wr_bytes (m_program st) (m_wipeProgByte st) bs = Inr m'"
    and s: "st' = st\<lparr>m_program := m'\<rparr>"
    by (auto simp: copy_to_program_def seq_def split: sum.splits)
  from wr_bytes_frame[OF w] assms(2) s show ?thesis
    by (simp add: keeps_def cursor_ok_def)
qed

lemma keeps_advance:
  assumes "keeps st st1" "cursor_ok st" "m_wipeProgByte st1 + n \<le> length (m_program st1)"
  shows "keeps st (advance n st1) \<and> m_wipeProgByte (advance n st1) = m_wipeProgByte st1 + n"
proof -
  from assms have "m_wipeProgByte st1 + n < 65536"
    by (simp add: keeps_def cursor_ok_def)
  hence "uint16 (int (m_wipeProgByte st1) + int n) = m_wipeProgByte st1 + n"
    by (simp add: uint16_def)
  with assms(1) show ?thesis
    by (simp add: advance_def keeps_def)
qed

lemma keeps_patch:
  assumes "patch_length extra st = Inr st'" "cursor_ok st"
  shows "keeps st st' \<and> m_wipeProgByte st' = m_wipeProgByte st"
  using assms
  by (auto simp: patch_length_def wr_def seq_def keeps_def cursor_ok_def split: if_splits)

lemma parse_syntax_state:
  "parse_syntax L E listOk inp st = (ok, st1) \<Longrightarrow>
     \<exists>x msgs. st1 = logPrint msgs (st\<lparr>m_exprOffs := x\<rparr>)"
  by (auto simp: parse_syntax_def Let_def split: prod.splits sum.splits)

lemma rd_bytes_length: "rd_bytes buf i n = Inr bs \<Longrightarrow> length bs = n"
  by (auto simp: rd_bytes_def split: if_splits)

lemma keeps_parse_expr_tail:
  assumes "parse_expr_tail L E inp st = Inr (ok, err, inp', st')" "cursor_ok st"
  shows "keeps st st'"
proof -
  obtain ok1 st1 where p: "parse_syntax L E False inp st = (ok1, st1)"
    by (cases "parse_syntax L E False inp st")
  from parse_syntax_state[OF p] obtain x msgs where
    st1: "st1 = logPrint msgs (st\<lparr>m_exprOffs := x\<rparr>)" by blast
  have k1: "keeps st st1"
    unfolding st1 by (rule keeps_logPrint[OF keeps_exprOffs[OF keeps_refl[OF assms(2)]]])
  have c1: "cursor_ok st1" by (rule keeps_cursor_ok[OF k1 assms(2)])
  show ?thesis
  proof (cases ok1)
    case False
    with assms(1) p have "st' = wipeShowError ''Expr Syntax'' st1"
      by (simp add: parse_expr_tail_def)
    with k1 show ?thesis by (simp add: keeps_wipeShowError)
  next
    case True
    with assms(1) p obtain bs st2 where
      r: "rd_bytes (m_consoleBuffer inp) (m_consolePos inp) (m_exprOffs st1 + 1) = Inr bs" and
      c: "copy_to_program bs st1 = Inr st2" and
      l: "patch_length 1 (advance (m_exprOffs st1) st2) = Inr st'"
      by (auto simp: parse_expr_tail_def seq_def split: sum.splits)
    from rd_bytes_length[OF r] have len: "length bs = m_exprOffs st1 + 1" .
    from keeps_copy[OF c c1] len have k2: "keeps st1 st2"
      and b: "m_wipeProgByte st2 + m_exprOffs st1 \<le> length (m_program st2)"
      by (auto simp: keeps_def)
    from keeps_advance[OF k2 c1 b] have k3: "keeps st1 (advance (m_exprOffs st1) st2)" by simp
    from keeps_patch[OF l keeps_cursor_ok[OF k3 c1]]
    have k4: "keeps (advance (m_exprOffs st1) st2) st'" by simp
    from k1 k3 k4 show ?thesis by (blast intro: keeps_trans)
  qed
qed

lemma keeps_copy_advance:
  assumes "copy_to_program (ident @ [0]) st = Inr st1" "cursor_ok st"
  shows "keeps st (advance (length ident + 1) st1)"
proof -
  from keeps_copy[OF assms] have k: "keeps st st1"
    and b: "m_wipeProgByte st1 + (length ident + 1) \<le> length (m_program st1)"
    by (auto simp: keeps_def)
  from keeps_advance[OF k assms(2) b] show ?thesis by simp
qed

lemma cursor_ok_logPrint: "cursor_ok st \<Longrightarrow> cursor_ok (logPrint out st)"
  by (simp add: cursor_ok_def logPrint_def)

lemma keeps_logPrint_self: "cursor_ok st \<Longrightarrow> keeps st (logPrint out st)"
  by (simp add: keeps_logPrint keeps_refl)

lemma keeps_parse_identifier_tail:
  assumes "parse_identifier_tail L inp st = Inr (ok, err, inp', st')" "cursor_ok st"
  shows "keeps st st'"
proof -
  obtain r msgs inp1 where s: "lex_scanIdentifier L MAX_ID_LEN inp = ((r, msgs), inp1)"
    by (metis surj_pair)
  let ?s0 = "logPrint msgs st"
  have k0: "keeps st ?s0" by (rule keeps_logPrint_self[OF assms(2)])
  have c0: "cursor_ok ?s0" by (rule cursor_ok_logPrint[OF assms(2)])
  show ?thesis
  proof (cases r)
    case None
    with assms(1) s have "st' = ?s0" by (simp add: parse_identifier_tail_def)
    with k0 show ?thesis by simp
  next
    case (Some ident)
    with assms(1) s obtain st1 where
      c: "copy_to_program (ident @ [0]) ?s0 = Inr st1" and
      l: "patch_length 0 (advance (length ident + 1) st1) = Inr st'"
      by (auto simp: parse_identifier_tail_def seq_def split: sum.splits)
    from keeps_copy_advance[OF c c0] have k1: "keeps ?s0 (advance (length ident + 1) st1)" .
    from keeps_patch[OF l keeps_cursor_ok[OF k1 c0]]
    have k2: "keeps (advance (length ident + 1) st1) st'" by simp
    from k0 k1 k2 show ?thesis by (blast intro: keeps_trans)
  qed
qed

lemma parse_separator_state:
  "parse_separator L sep msg inp st = Inr (ok, inp2, st2) \<Longrightarrow>
     st2 = st \<or> st2 = wipeShowError msg st"
  by (auto simp: parse_separator_def Let_def split: prod.splits option.splits if_splits)

lemma keeps_parse_separator:
  assumes "parse_separator L sep msg inp st = Inr (ok, inp2, st2)" "cursor_ok st"
  shows "keeps st st2"
  using parse_separator_state[OF assms(1)] assms(2)
  by (auto simp: keeps_refl keeps_wipeShowError)

lemma keeps_parse_LET:
  assumes "parse_LET L E inp st = Inr (ok, err, inp', st')" "cursor_ok st"
  shows "keeps st st'"
proof -
  obtain r msgs inp1 where s: "lex_scanIdentifier L MAX_ID_LEN inp = ((r, msgs), inp1)"
    by (metis surj_pair)
  let ?s0 = "logPrint msgs st"
  have k0: "keeps st ?s0" by (rule keeps_logPrint_self[OF assms(2)])
  have c0: "cursor_ok ?s0" by (rule cursor_ok_logPrint[OF assms(2)])
  show ?thesis
  proof (cases r)
    case None
    with assms(1) s have "st' = ?s0" by (simp add: parse_LET_def)
    with k0 show ?thesis by simp
  next
    case (Some ident)
    let ?sep = "''Missing '' @ [CHR 39, CHR ''='', CHR 39]"
    from Some assms(1) s obtain st1 ok2 inp2 st2 where
      c: "copy_to_program (ident @ [0]) ?s0 = Inr st1" and
      p: "parse_separator L [61] ?sep inp1 (advance (length ident + 1) st1)
            = Inr (ok2, inp2, st2)" and
      t: "if \<not> ok2 then st' = st2
          else parse_expr_tail L E inp2 st2 = Inr (ok, err, inp', st')"
      by (auto simp: parse_LET_def seq_def split: sum.splits if_splits)
    from keeps_copy_advance[OF c c0] have k1: "keeps ?s0 (advance (length ident + 1) st1)" .
    have c1: "cursor_ok (advance (length ident + 1) st1)"
      by (rule keeps_cursor_ok[OF k1 c0])
    from keeps_parse_separator[OF p c1] have k2: "keeps (advance (length ident + 1) st1) st2" .
    have c2: "cursor_ok st2" by (rule keeps_cursor_ok[OF k2 c1])
    have k3: "keeps st2 st'"
    proof (cases ok2)
      case False
      with t show ?thesis by (simp add: keeps_refl[OF c2])
    next
      case True
      with t show ?thesis by (simp add: keeps_parse_expr_tail[OF _ c2])
    qed
    from k0 k1 k2 k3 show ?thesis by (blast intro: keeps_trans)
  qed
qed

lemma keeps_wipeParseString:
  "wipeParseString tokenBuffer pChar parmsLen maxLen st = Inr (n, st') \<Longrightarrow> cursor_ok st \<Longrightarrow>
     keeps st st'"
proof (induction tokenBuffer pChar parmsLen maxLen st rule: wipeParseString.induct)
  case (1 tokenBuffer pChar parmsLen maxLen st)
  show ?case
  proof (cases "parmsLen < maxLen")
    case False
    with "1.prems" show ?thesis
      by (subst (asm) wipeParseString.simps) (simp add: keeps_refl)
  next
    case lt: True
    from "1.prems"(1) lt obtain c where c: "rd tokenBuffer pChar = Inr c"
      by (subst (asm) wipeParseString.simps) (auto split: sum.splits)
    show ?thesis
    proof (cases "c = 34")
      case True
      with "1.prems" lt c show ?thesis
        by (subst (asm) wipeParseString.simps) (simp add: keeps_refl)
    next
      case ne: False
      from "1.prems"(1) lt c ne obtain c1 where
        c1: "(if c = 92 then rd tokenBuffer (pChar + 1) else Inr 0) = Inr c1"
        by (subst (asm) wipeParseString.simps) (auto split: sum.splits)
      show ?thesis
      proof (cases "c = 92 \<and> c1 = 110")
        case True
        from "1.prems"(1) lt c ne c1 True obtain st1 where
          e: "emit 10 st = Inr st1" and
          r: "wipeParseString tokenBuffer (pChar + 2) (uint8 (int parmsLen + 2)) maxLen st1
                = Inr (n, st')"
          by (subst (asm) wipeParseString.simps) (auto split: sum.splits)
        from keeps_emit[OF e "1.prems"(2)] have k: "keeps st st1" by simp
        from "1.IH"(1)[OF lt c ne c1 True e r keeps_cursor_ok[OF k "1.prems"(2)]] k
        show ?thesis by (blast intro: keeps_trans)
      next
        case False
        from "1.prems"(1) lt c ne c1 False obtain st1 where
          e: "emit c st = Inr st1" and
          r: "wipeParseString tokenBuffer (pChar + 1) (uint8 (int parmsLen + 1)) maxLen st1
                = Inr (n, st')"
          by (subst (asm) wipeParseString.simps) (auto split: sum.splits)
        from keeps_emit[OF e "1.prems"(2)] have k: "keeps st st1" by simp
        from "1.IH"(2)[OF lt c ne c1 False e r keeps_cursor_ok[OF k "1.prems"(2)]] k
        show ?thesis by (blast intro: keeps_trans)
      qed
    qed
  qed
qed

lemma keeps_parse_PRINT:
  assumes "parse_PRINT L inp st = Inr (ok, err, inp', st')" "cursor_ok st"
  shows "keeps st st'"
proof -
  from assms(1) obtain c where c: "rd (m_consoleBuffer inp) (m_consolePos inp) = Inr c"
    by (auto simp: parse_PRINT_def seq_def split: sum.splits)
  show ?thesis
  proof (cases "c = 34")
    case False
    with assms(1) c obtain st1 where
      e: "emit (of_nat WIPE_PRT_VAR) st = Inr st1" and
      t: "parse_identifier_tail L inp st1 = Inr (ok, err, inp', st')"
      by (auto simp: parse_PRINT_def seq_def split: sum.splits)
    from keeps_emit[OF e assms(2)] have k: "keeps st st1" by simp
    from keeps_parse_identifier_tail[OF t keeps_cursor_ok[OF k assms(2)]] k
    show ?thesis by (blast intro: keeps_trans)
  next
    case True
    define inp1 where "inp1 = inp\<lparr>m_consolePos := uint8 (int (m_consolePos inp) + 1)\<rparr>"
    define maxLen where "maxLen = uint8 (int MAX_SERIAL_BUF_LEN - int (m_consolePos inp1) - 1)"
    from True assms(1) c obtain st1 parmsLen st2 where
      e: "emit (of_nat WIPE_PRT_STR) st = Inr st1" and
      w: "wipeParseString (m_tokenBuffer inp1) (m_consolePos inp1) 0 maxLen st1
            = Inr (parmsLen, st2)" and
      t: "if parmsLen = maxLen then st' = wipeShowError ''Bad string length'' st2
          else (\<exists>st3. emit 0 st2 = Inr st3 \<and> patch_length 0 st3 = Inr st')"
      unfolding inp1_def maxLen_def
      by (auto simp: parse_PRINT_def seq_def Let_def split: sum.splits if_splits)
    from keeps_emit[OF e assms(2)] have k1: "keeps st st1" by simp
    have c1: "cursor_ok st1" by (rule keeps_cursor_ok[OF k1 assms(2)])
    from keeps_wipeParseString[OF w c1] have k2: "keeps st1 st2" .
    have c2: "cursor_ok st2" by (rule keeps_cursor_ok[OF k2 c1])
    have k3: "keeps st2 st'"
    proof (cases "parmsLen = maxLen")
      case True
      with t show ?thesis by (simp add: keeps_wipeShowError keeps_refl[OF c2])
    next
      case False
      with t obtain st3 where e3: "emit 0 st2 = Inr st3" and l: "patch_length 0 st3 = Inr st'"
        by auto
      from keeps_emit[OF e3 c2] have k: "keeps st2 st3" by simp
      from keeps_patch[OF l keeps_cursor_ok[OF k c2]] k show ?thesis
        by (blast intro: keeps_trans)
    qed
    from k1 k2 k3 show ?thesis by (blast intro: keeps_trans)
  qed
qed

lemma keeps_parse_VAR:
  assumes "parse_VAR L inp st = Inr (ok, err, inp', st')" "cursor_ok st"
  shows "keeps st st'"
proof -
  obtain r msgs inp1 where s: "lex_scanIdentifier L MAX_ID_LEN inp = ((r, msgs), inp1)"
    by (metis surj_pair)
  let ?s0 = "logPrint msgs st"
  let ?msg = "''Missing '' @ [CHR 39, CHR '':'', CHR 39]"
  have k0: "keeps st ?s0" by (rule keeps_logPrint_self[OF assms(2)])
  have c0: "cursor_ok ?s0" by (rule cursor_ok_logPrint[OF assms(2)])
  show ?thesis
  proof (cases r)
    case None
    with assms(1) s have "st' = ?s0" by (simp add: parse_VAR_def)
    with k0 show ?thesis by simp
  next
    case (Some ident)
    with assms(1) s obtain ok2 inp2 st1 where
      p: "parse_separator L [58] ?msg inp1 ?s0 = Inr (ok2, inp2, st1)"
      by (auto simp: parse_VAR_def seq_def split: sum.splits)
    from keeps_parse_separator[OF p c0] have k1: "keeps ?s0 st1" .
    have c1: "cursor_ok st1" by (rule keeps_cursor_ok[OF k1 c0])
    have k2: "keeps st1 st'"
    proof (cases ok2)
      case False
      with Some assms(1) s p have "st' = st1" by (simp add: parse_VAR_def)
      with c1 show ?thesis by (simp add: keeps_refl)
    next
      case True
      obtain r2 msgs2 inp3 where s2: "lex_scanIdentifier L 10 inp2 = ((r2, msgs2), inp3)"
        by (metis surj_pair)
      let ?s1 = "logPrint msgs2 st1"
      have k10: "keeps st1 ?s1" by (rule keeps_logPrint_self[OF c1])
      have c10: "cursor_ok ?s1" by (rule cursor_ok_logPrint[OF c1])
      show ?thesis
      proof (cases r2)
        case None
        with True Some assms(1) s p s2 have "st' = ?s1" by (simp add: parse_VAR_def)
        with k10 show ?thesis by simp
      next
        case typeStr: (Some typeStr)
        show ?thesis
        proof (cases "wipeTypeId typeStr")
          case None
          with typeStr True Some assms(1) s p s2 have "st' = wipeShowError ''Bad type'' ?s1"
            by (simp add: parse_VAR_def)
          with k10 show ?thesis by (simp add: keeps_wipeShowError)
        next
          case tid: (Some tid)
          with typeStr True Some assms(1) s p s2 obtain st2 st3 where
            c: "copy_to_program (ident @ [0]) ?s1 = Inr st2" and
            e: "emit (of_nat tid) (advance (length ident + 1) st2) = Inr st3" and
            l: "patch_length 0 st3 = Inr st'"
            by (auto simp: parse_VAR_def seq_def split: sum.splits)
          from keeps_copy_advance[OF c c10] have k3: "keeps ?s1 (advance (length ident + 1) st2)" .
          have c3: "cursor_ok (advance (length ident + 1) st2)" by (rule keeps_cursor_ok[OF k3 c10])
          from keeps_emit[OF e c3] have k4: "keeps (advance (length ident + 1) st2) st3" by simp
          from keeps_patch[OF l keeps_cursor_ok[OF k4 c3]] have k5: "keeps st3 st'" by simp
          from k10 k3 k4 k5 show ?thesis by (blast intro: keeps_trans)
        qed
      qed
    qed
    from k0 k1 k2 show ?thesis by (blast intro: keeps_trans)
  qed
qed

lemma wipeShowError_progByte: "m_wipeProgByte (wipeShowError e st) = m_wipeProgByte st"
  by (simp add: wipeShowError_def logPrint_def)

lemma keeps_wipeParseParms:
  "wipeParseParms L E i parmsLen inp st = Inr (r, inp', st') \<Longrightarrow> cursor_ok st \<Longrightarrow>
     keeps st st' \<and> m_wipeProgByte st' = m_wipeProgByte st"
proof (induction i arbitrary: parmsLen inp st)
  case 0
  then show ?case by (simp add: keeps_refl)
next
  case (Suc i)
  obtain ok1 st1 where p: "parse_syntax L E True inp st = (ok1, st1)"
    by (cases "parse_syntax L E True inp st")
  from parse_syntax_state[OF p] obtain x msgs where
    st1: "st1 = logPrint msgs (st\<lparr>m_exprOffs := x\<rparr>)" by blast
  have k1: "keeps st st1"
    unfolding st1 by (rule keeps_logPrint[OF keeps_exprOffs[OF keeps_refl[OF Suc.prems(2)]]])
  have c1: "cursor_ok st1" by (rule keeps_cursor_ok[OF k1 Suc.prems(2)])
  have b1: "m_wipeProgByte st1 = m_wipeProgByte st" by (simp add: st1 logPrint_def)
  show ?case
  proof (cases ok1)
    case False
    with Suc.prems(1) p have "st' = wipeShowError ''Expr Syntax'' st1" by simp
    with k1 b1 show ?thesis by (simp add: keeps_wipeShowError wipeShowError_progByte)
  next
    case True
    with Suc.prems(1) p
    have "st' = wipeShowError ''Bad params'' st1 \<or>
          (\<exists>n inp1. wipeParseParms L E i n inp1 st1 = Inr (r, inp', st'))"
      by (auto split: sum.splits if_splits)
    then show ?thesis
    proof
      assume "st' = wipeShowError ''Bad params'' st1"
      with k1 b1 show ?thesis by (simp add: keeps_wipeShowError wipeShowError_progByte)
    next
      assume "\<exists>n inp1. wipeParseParms L E i n inp1 st1 = Inr (r, inp', st')"
      then obtain n inp1 where "wipeParseParms L E i n inp1 st1 = Inr (r, inp', st')" by blast
      from Suc.IH[OF this c1] k1 b1 show ?thesis by (auto intro: keeps_trans)
    qed
  qed
qed

lemma keeps_parse_FUNC:
  assumes "parse_FUNC L E tokenId inp st = Inr (ok, err, inp', st')" "cursor_ok st"
    "m_wipeLineStart st < m_wipeProgByte st" "m_wipeProgByte st \<le> length (m_program st)"
  shows "keeps st st'"
proof -
  define st0 where "st0 = st\<lparr>m_wipeProgByte := uint16 (int (m_wipeProgByte st) - 1)\<rparr>"
  from assms(2,3,4) have u: "uint16 (int (m_wipeProgByte st) - 1) = m_wipeProgByte st - 1"
    by (simp add: uint16_def cursor_ok_def nat_diff_distrib')
  from assms(2,3) have k0: "keeps st st0"
    by (simp add: st0_def u keeps_def cursor_ok_def)
  have c0: "cursor_ok st0" by (rule keeps_cursor_ok[OF k0 assms(2)])
  from assms(1) obtain st1 st2 st3 r inp1 st4 where
    e1: "emit (of_nat WIPE_FUNC) st0 = Inr st1" and
    e2: "emit (of_nat tokenId) st1 = Inr st2" and
    e3: "emit (of_nat (wipeFuncGetParmNum tokenId)) st2 = Inr st3" and
    pp: "wipeParseParms L E (wipeFuncGetParmNum tokenId) 0 inp st3 = Inr (r, inp1, st4)"
    unfolding st0_def
    by (auto simp: parse_FUNC_def seq_def Let_def split: sum.splits)
  from keeps_emit[OF e1 c0] have k1: "keeps st0 st1" by simp
  have c1: "cursor_ok st1" by (rule keeps_cursor_ok[OF k1 c0])
  from keeps_emit[OF e2 c1] have k2: "keeps st1 st2" by simp
  have c2: "cursor_ok st2" by (rule keeps_cursor_ok[OF k2 c1])
  from keeps_emit[OF e3 c2] have k3: "keeps st2 st3" by simp
  have c3: "cursor_ok st3" by (rule keeps_cursor_ok[OF k3 c2])
  from keeps_wipeParseParms[OF pp c3] have k4: "keeps st3 st4" by simp
  have c4: "cursor_ok st4" by (rule keeps_cursor_ok[OF k4 c3])
  have k5: "keeps st4 st'"
  proof (cases r)
    case None
    with assms(1) e1 e2 e3 pp have "st' = st4"
      unfolding st0_def[symmetric]
      by (simp add: parse_FUNC_def Let_def st0_def[symmetric])
    with c4 show ?thesis by (simp add: keeps_refl)
  next
    case (Some parmsLen)
    with assms(1) e1 e2 e3 pp
    have "st' = wipeShowError ''# of parms'' st4 \<or>
          (\<exists>bs st5 st6. length bs = parmsLen + 1 \<and> copy_to_program bs st4 = Inr st5 \<and>
              copy_to_program [0] (advance (parmsLen + 1) st5) = Inr st6 \<and>
              patch_length 1 st6 = Inr st')"
      by (auto simp: parse_FUNC_def Let_def st0_def[symmetric] seq_def
               dest: rd_bytes_length split: sum.splits if_splits)
    then show ?thesis
    proof
      assume "st' = wipeShowError ''# of parms'' st4"
      with c4 show ?thesis by (simp add: keeps_wipeShowError keeps_refl)
    next
      assume "\<exists>bs st5 st6. length bs = parmsLen + 1 \<and> copy_to_program bs st4 = Inr st5 \<and>
              copy_to_program [0] (advance (parmsLen + 1) st5) = Inr st6 \<and>
              patch_length 1 st6 = Inr st'"
      then obtain bs st5 st6 where len: "length bs = parmsLen + 1" and
        c: "copy_to_program bs st4 = Inr st5" and
        z: "copy_to_program [0] (advance (parmsLen + 1) st5) = Inr st6" and
        l: "patch_length 1 st6 = Inr st'" by blast
      from keeps_copy[OF c c4] len have k6: "keeps st4 st5"
        and b: "m_wipeProgByte st5 + (parmsLen + 1) \<le> length (m_program st5)"
        by (auto simp: keeps_def)
      from keeps_advance[OF k6 c4 b] have k7: "keeps st4 (advance (parmsLen + 1) st5)" by simp
      have c7: "cursor_ok (advance (parmsLen + 1) st5)" by (rule keeps_cursor_ok[OF k7 c4])
      from keeps_copy[OF z c7] have k8: "keeps (advance (parmsLen + 1) st5) st6" by simp
      from keeps_patch[OF l keeps_cursor_ok[OF k8 c7]] have k9: "keeps st6 st'" by simp
      from k7 k8 k9 show ?thesis by (blast intro: keeps_trans)
    qed
  qed
  from k0 k1 k2 k3 k4 k5 show ?thesis by (blast intro: keeps_trans)
qed

lemma keeps_wipeParseStatement:
  assumes "wipeParseStatement L E lineNum initToken stmtErr inp st = Inr (ok, err, inp', st')"
    "cursor_ok st"
  shows "keeps st st'"
proof -
  obtain tokenId inp1 where
    t: "(if initToken \<noteq> WIPE_UNDEF then (initToken, inp) else lex_scanToken L inp) = (tokenId, inp1)"
    by (metis surj_pair)
  show ?thesis
  proof (cases "WIPE_UNDEF = tokenId")
    case True
    with assms(1) t have "st' = st" by (simp add: wipeParseStatement_def)
    with assms(2) show ?thesis by (simp add: keeps_refl)
  next
    case False
    let ?tail = "\<lambda>st3.
              if tokenId = WIPE_IF then parse_expr_tail L E inp1 st3
              else if tokenId = WIPE_GOTO then parse_identifier_tail L inp1 st3
              else if tokenId = WIPE_LABEL then parse_identifier_tail L inp1 st3
              else if tokenId = WIPE_LET then parse_LET L E inp1 st3
              else if tokenId = WIPE_PRINT then parse_PRINT L inp1 st3
              else if tokenId = WIPE_VAR then parse_VAR L inp1 st3
              else if tokenId \<in> {WASPCMD_BKGRD, WASPCMD_GROUP, WASPCMD_LINE, WASPCMD_RESET,
                                 WASPCMD_STATE, WASPCMD_SHIFT, WASPCMD_SWAP, WASPCMD_RAINBOW,
                                 WASPCMD_RAINCYCLE, WASPCMD_SPEED, WASPCMD_TWINKLE,
                                 WIPE_FN_PAUSE}
              then parse_FUNC L E tokenId inp1 st3
              else Inr (False, True, inp1, st3)"
    from False assms(1) t obtain st1 st2 st3 where
      e1: "emit lineNum st = Inr st1" and
      e2: "emit 3 st1 = Inr st2" and
      e3: "emit (of_nat tokenId) st2 = Inr st3" and
      tl: "?tail st3 = Inr (ok, err, inp', st')"
      unfolding wipeParseStatement_def t
      by (simp add: seq_def split: sum.splits)
    from keeps_emit[OF e1 assms(2)] have k1: "keeps st st1"
      and b1: "m_wipeProgByte st1 = m_wipeProgByte st + 1" by simp_all
    have c1: "cursor_ok st1" by (rule keeps_cursor_ok[OF k1 assms(2)])
    from keeps_emit[OF e2 c1] have k2: "keeps st1 st2" by simp
    have c2: "cursor_ok st2" by (rule keeps_cursor_ok[OF k2 c1])
    from keeps_emit[OF e3 c2] have k3: "keeps st2 st3"
      and b3: "m_wipeProgByte st3 = m_wipeProgByte st2 + 1" by simp_all
    have c3: "cursor_ok st3" by (rule keeps_cursor_ok[OF k3 c2])
    from c3 b3 have lt: "m_wipeLineStart st3 < m_wipeProgByte st3"
      using k3 c2 by (simp add: keeps_def cursor_ok_def)
    from e3 b3 k3 have le: "m_wipeProgByte st3 \<le> length (m_program st3)"
      by (auto simp: emit_def wr_def seq_def keeps_def split: if_splits)
    from tl consider
        (c_expr) "parse_expr_tail L E inp1 st3 = Inr (ok, err, inp', st')"
      | (c_ident) "parse_identifier_tail L inp1 st3 = Inr (ok, err, inp', st')"
      | (c_let) "parse_LET L E inp1 st3 = Inr (ok, err, inp', st')"
      | (c_print) "parse_PRINT L inp1 st3 = Inr (ok, err, inp', st')"
      | (c_var) "parse_VAR L inp1 st3 = Inr (ok, err, inp', st')"
      | (c_func) "parse_FUNC L E tokenId inp1 st3 = Inr (ok, err, inp', st')"
      | (c_none) "st' = st3"
      by (auto split: if_splits)
    then have k4: "keeps st3 st'"
    proof cases
      case c_expr
      then show ?thesis by (rule keeps_parse_expr_tail[OF _ c3])
    next
      case c_ident
      then show ?thesis by (rule keeps_parse_identifier_tail[OF _ c3])
    next
      case c_let
      then show ?thesis by (rule keeps_parse_LET[OF _ c3])
    next
      case c_print
      then show ?thesis by (rule keeps_parse_PRINT[OF _ c3])
    next
      case c_var
      then show ?thesis by (rule keeps_parse_VAR[OF _ c3])
    next
      case c_func
      then show ?thesis by (rule keeps_parse_FUNC[OF _ c3 lt le])
    next
      case c_none
      then show ?thesis by (simp add: keeps_refl[OF c3])
    qed
    from k1 k2 k3 k4 show ?thesis by (blast intro: keeps_trans)
  qed
qed

lemma full_example_line_simps:
  "length (full_example_line k) = 50" "valid_line (full_example_line k)"
  by (simp_all add: full_example_line_def valid_line_def)

lemma full_example_length: "length (concat (map full_example_line ks)) = 50 * length ks"
  by (induction ks) (simp_all add: full_example_line_simps)

lemma full_example_program:
  "length (m_program full_example) = MAX_PROG_SIZE \<and>
   program_lines (m_program full_example) (m_wipeProgByte full_example) full_example_lines"
proof -
  have len: "length (concat full_example_lines) = 4000"
    unfolding full_example_lines_def full_example_length by simp
  have valid: "list_all valid_line full_example_lines"
    by (simp add: full_example_lines_def list_all_iff full_example_line_simps)
  show ?thesis
    using len valid by (simp add: program_lines_def full_example_def)
qed

lemma emit_eq:
  "length (m_program st) < 65536 \<Longrightarrow>
   emit v st =
     (if m_wipeProgByte st < length (m_program st)
      then Inr (st\<lparr>m_program := (m_program st)[m_wipeProgByte st := v],
                   m_wipeProgByte := m_wipeProgByte st + 1\<rparr>)
      else Inl OutOfBounds)"
  by (simp add: emit_def wr_def uint16_def)

lemma wipeParseString_plain:
  assumes "parmsLen + k = maxLen" "maxLen \<le> 255" "pChar + k \<le> length tb"
    "set (take k (drop pChar tb)) \<inter> {34, 92} = {}"
    "length (m_program st) < 65536" "m_wipeProgByte st \<le> length (m_program st)"
  shows "(m_wipeProgByte st + k \<le> length (m_program st) \<longrightarrow>
            (\<exists>st'. wipeParseString tb pChar parmsLen maxLen st = Inr (maxLen, st') \<and>
                   m_wipeProgByte st' = m_wipeProgByte st + k \<and>
                   m_wipeLineStart st' = m_wipeLineStart st \<and>
                   length (m_program st') = length (m_program st))) \<and>
         (length (m_program st) < m_wipeProgByte st + k \<longrightarrow>
            wipeParseString tb pChar parmsLen maxLen st = Inl OutOfBounds)"
  using assms
proof (induction k arbitrary: pChar parmsLen st)
  case 0
  then show ?case by (subst wipeParseString.simps) simp
next
  case (Suc k)
  have lt: "parmsLen < maxLen" "pChar < length tb" using Suc.prems by auto
  have "take (Suc k) (drop pChar tb) = tb ! pChar # take k (drop (Suc pChar) tb)"
    using lt by (simp add: take_Suc_Cons Cons_nth_drop_Suc[symmetric] del: drop_Suc)
  with Suc.prems(4) have c: "tb ! pChar \<noteq> 34" "tb ! pChar \<noteq> 92"
    and rest: "set (take k (drop (Suc pChar) tb)) \<inter> {34, 92} = {}"
    by auto
  have u: "uint8 (int parmsLen + 1) = Suc parmsLen"
    using lt Suc.prems(2) by (simp add: uint8_def)
  show ?case
  proof (cases "m_wipeProgByte st < length (m_program st)")
    case False
    with Suc.prems(6) have "length (m_program st) < m_wipeProgByte st + Suc k" by simp
    moreover have "wipeParseString tb pChar parmsLen maxLen st = Inl OutOfBounds"
      using lt c False Suc.prems(5)
      by (subst wipeParseString.simps) (simp add: emit_eq rd_def)
    ultimately show ?thesis by simp
  next
    case True
    define st1 where "st1 = st\<lparr>m_program := (m_program st)[m_wipeProgByte st := tb ! pChar],
                   m_wipeProgByte := m_wipeProgByte st + 1\<rparr>"
    have step: "wipeParseString tb pChar parmsLen maxLen st =
                wipeParseString tb (Suc pChar) (Suc parmsLen) maxLen st1"
      using lt c True Suc.prems(5) u
      by (subst wipeParseString.simps) (simp add: emit_eq rd_def st1_def)
    have ih: "(m_wipeProgByte st1 + k \<le> length (m_program st1) \<longrightarrow>
            (\<exists>st'. wipeParseString tb (Suc pChar) (Suc parmsLen) maxLen st1 = Inr (maxLen, st') \<and>
                   m_wipeProgByte st' = m_wipeProgByte st1 + k \<and>
                   m_wipeLineStart st' = m_wipeLineStart st1 \<and>
                   length (m_program st') = length (m_program st1))) \<and>
         (length (m_program st1) < m_wipeProgByte st1 + k \<longrightarrow>
            wipeParseString tb (Suc pChar) (Suc parmsLen) maxLen st1 = Inl OutOfBounds)"
      using Suc.prems True rest by (intro Suc.IH) (auto simp: st1_def)
    show ?thesis
      unfolding step using ih by (simp add: st1_def)
  qed
qed

lemma print_example_rejected:
  assumes sz: "length (m_program st) < 65536"
    and le: "m_wipeProgByte st \<le> length (m_program st)"
  shows "(m_wipeProgByte st + 76 \<le> length (m_program st) \<longrightarrow>
            (\<exists>inp' st'. wipeParseStatement print_example_lexer E lineNum WIPE_UNDEF False
                           print_example_input st = Inr (False, True, inp', st') \<and>
                   m_wipeProgByte st' = m_wipeProgByte st + 76 \<and>
                   m_wipeLineStart st' = m_wipeLineStart st)) \<and>
         (length (m_program st) < m_wipeProgByte st + 76 \<longrightarrow>
            wipeParseStatement print_example_lexer E lineNum WIPE_UNDEF False
              print_example_input st = Inl OutOfBounds)"
proof (cases "m_wipeProgByte st + 4 \<le> length (m_program st)")
  case False
  then show ?thesis
    using sz by (auto simp: wipeParseStatement_def print_example_lexer_def
        print_example_input_def parse_PRINT_def emit_eq Let_def rd_def)
next
  case True
  let ?tb = "112 # 114 # 105 # 110 # 116 # 0 # 34 # 97 # 98 # 99 # replicate 70 (0::8 word)"
  define st4 where "st4 = st\<lparr>m_program := (m_program st)[m_wipeProgByte st := lineNum,
                                 Suc (m_wipeProgByte st) := 3,
                                 Suc (Suc (m_wipeProgByte st)) := 31,
                                 Suc (Suc (Suc (m_wipeProgByte st))) := 0],
                              m_wipeProgByte := Suc (Suc (Suc (Suc (m_wipeProgByte st))))\<rparr>"
  have free: "set (take 72 (drop 7 ?tb)) \<inter> {34, 92} = {}"
    by simp
  have loop: "(m_wipeProgByte st4 + 72 \<le> length (m_program st4) \<longrightarrow>
            (\<exists>st'. wipeParseString ?tb 7 0 72 st4 = Inr (72, st') \<and>
                   m_wipeProgByte st' = m_wipeProgByte st4 + 72 \<and>
                   m_wipeLineStart st' = m_wipeLineStart st4 \<and>
                   length (m_program st') = length (m_program st4))) \<and>
         (length (m_program st4) < m_wipeProgByte st4 + 72 \<longrightarrow>
            wipeParseString ?tb 7 0 72 st4 = Inl OutOfBounds)"
    using True sz free by (intro wipeParseString_plain) (simp_all add: st4_def)
  show ?thesis
  proof (cases "m_wipeProgByte st + 76 \<le> length (m_program st)")
    case room: True
    with loop obtain st' where wps: "wipeParseString ?tb 7 0 72 st4 = Inr (72, st')"
      and st': "m_wipeProgByte st' = m_wipeProgByte st + 76"
        "m_wipeLineStart st' = m_wipeLineStart st"
      by (auto simp: st4_def)
    show ?thesis
      using True sz room wps[unfolded st4_def] st'
      by (simp add: wipeParseStatement_def print_example_lexer_def print_example_input_def
          parse_PRINT_def emit_eq Let_def rd_def uint8_def wipeShowError_def logPrint_def)
  next
    case False
    with loop have wps: "wipeParseString ?tb 7 0 72 st4 = Inl OutOfBounds"
      by (simp add: st4_def)
    show ?thesis
      using True sz False wps[unfolded st4_def]
      by (simp add: wipeParseStatement_def print_example_lexer_def print_example_input_def
          parse_PRINT_def emit_eq Let_def rd_def uint8_def)
  qed
qed

lemma processWipeCommand_statement_rejected:
  assumes fail: "wipeParseStatement L E lineNum token False inp
                   (st\<lparr>m_wipeLineStart := m_wipeProgByte st\<rparr>)
                 = Inr (False, errorReported, inp', st1)"
    and size: "length (m_program st) = MAX_PROG_SIZE"
  shows "\<exists>st'. processWipeCommand_statement L E I lineNum token saveToRam inp st = Inr st' \<and>
           m_wipeProgByte st' = m_wipeProgByte st \<and>
           take (m_wipeProgByte st) (m_program st') = take (m_wipeProgByte st) (m_program st)"
proof -
  let ?st0 = "st\<lparr>m_wipeLineStart := m_wipeProgByte st\<rparr>"
  from size have c0: "cursor_ok ?st0" by (simp add: cursor_ok_def)
  from keeps_wipeParseStatement[OF fail c0] have k: "keeps ?st0 st1" .
  let ?st3 = "if \<not> errorReported then wipeShowError ''Bad WIPE cmd'' st1 else st1"
  have k3: "keeps ?st0 ?st3" using k by (simp add: keeps_wipeShowError)
  have "processWipeCommand_statement L E I lineNum token saveToRam inp st
          = Inr (?st3\<lparr>m_wipeProgByte := m_wipeLineStart ?st3\<rparr>)"
    using fail by (simp add: processWipeCommand_statement_def Let_def)
  moreover from k3 have "m_wipeLineStart ?st3 = m_wipeProgByte st"
    "take (m_wipeProgByte st) (m_program ?st3) = take (m_wipeProgByte st) (m_program st)"
    by (simp_all add: keeps_def)
  ultimately show ?thesis by simp
qed

text \<open>
  Claim C3. The claim is that after every rejected input line the occupied length of
  the buffer is what it was and the bytes written by the attempt are discarded. The
  command does set the write cursor back, and a rejected line that stays inside the
  buffer leaves the stored program as it was (the lemma above). But the compiler
  writes without looking at the free space: for a string without closing quote it
  stores \<open>maxLen\<close> characters before it reports "Bad string length". The line
  \<open>print "abc\<close> makes it write 76 bytes: typed after the three-line program it is
  rejected with the cursor 76 bytes further on, and typed when the program of 80
  lines, 4000 bytes, is stored, where the input stage accepts it, the writes run over
  the end of the buffer of \<open>MAX_PROG_SIZE\<close> bytes.
\<close>

theorem wipe_rejected_string_overruns_buffer:
  "length (m_program full_example) = MAX_PROG_SIZE \<and>
   program_lines (m_program full_example) (m_wipeProgByte full_example) full_example_lines \<and>
   (\<exists>inp' st'. wipeParseStatement print_example_lexer example_env 0 WIPE_UNDEF False
                  print_example_input (three_lines\<lparr>m_wipeLineStart := m_wipeProgByte three_lines\<rparr>)
                = Inr (False, True, inp', st') \<and>
              m_wipeProgByte st' = m_wipeProgByte three_lines + 76) \<and>
   processWipeCommand_statement print_example_lexer example_env \<lparr>rx_poll = None, rx_pause = []\<rparr>
     0 WIPE_UNDEF False print_example_input full_example = Inl OutOfBounds"
proof -
  let ?t = "three_lines\<lparr>m_wipeLineStart := m_wipeProgByte three_lines\<rparr>"
  let ?f = "full_example\<lparr>m_wipeLineStart := m_wipeProgByte full_example\<rparr>"
  have lf: "length (m_program full_example) = 4064" "m_wipeProgByte full_example = 4000"
    using full_example_program by (simp_all add: full_example_def)
  have a: "\<exists>inp' st'. wipeParseStatement print_example_lexer example_env 0 WIPE_UNDEF False
                  print_example_input ?t = Inr (False, True, inp', st') \<and>
              m_wipeProgByte st' = m_wipeProgByte three_lines + 76"
    using print_example_rejected[of ?t example_env 0]
    by (auto simp add: three_lines_def)
  have "wipeParseStatement print_example_lexer example_env 0 WIPE_UNDEF False
          print_example_input ?f = Inl OutOfBounds"
    using print_example_rejected[of ?f example_env 0] lf by simp
  then have b: "processWipeCommand_statement print_example_lexer example_env
      \<lparr>rx_poll = None, rx_pause = []\<rparr> 0 WIPE_UNDEF False print_example_input full_example
      = Inl OutOfBounds"
    by (simp add: processWipeCommand_statement_def Let_def)
  from full_example_program a b show ?thesis by simp
qed

subsection \<open>Deleting stored lines\<close>

lemma wipeSeekLineStart_loop_lines:
  assumes "take progByte m = P @ concat (pre @ rest)" "progByte \<le> length m"
    "progByte \<le> MAX_PROG_SIZE" "list_all valid_line (pre @ rest)"
    "\<forall>l\<in>set pre. hd l < targetNum" "rest \<noteq> [] \<longrightarrow> targetNum \<le> hd (hd rest)"
  shows "wipeSeekLineStart_loop m progByte targetNum (length P) =
           (if rest = [] then Inr (MAX_PROG_SIZE, False)
            else Inr (length P + length (concat pre), hd (hd rest) = targetNum))"
  using assms
proof (induction pre arbitrary: P)
  case Nil
  show ?case
  proof (cases rest)
    case Nil
    with Nil.prems have "length P = progByte"
      by (metis append_Nil2 concat.simps(1) length_take min.absorb2 append_Nil)
    then show ?thesis using Nil by (subst wipeSeekLineStart_loop.simps) simp
  next
    case (Cons l rest')
    have vl: "valid_line l" using Nil.prems(4) Cons by simp
    have tk: "take progByte m = P @ l @ concat rest'" using Nil.prems(1) Cons by simp
    have l0: "0 < length l" using vl by (auto simp: valid_line_def)
    from nth_in_line[OF tk l0] have lt: "length P < progByte" and
      rd0: "rd m (length P) = Inr (l ! 0)" by (auto simp: rd_def)
    have hd: "l ! 0 = hd l" using l0 by (cases l) auto
    have ge: "targetNum \<le> hd l" using Nil.prems(6) Cons by simp
    show ?thesis
      using lt rd0 hd ge Cons Nil.prems(3)
      by (subst wipeSeekLineStart_loop.simps) auto
  qed
next
  case (Cons l pre)
  have vl: "valid_line l" using Cons.prems(4) by simp
  have tk: "take progByte m = P @ l @ concat (pre @ rest)" using Cons.prems(1) by simp
  have l1: "1 < length l" "0 < length l" using vl by (auto simp: valid_line_def)
  from nth_in_line[OF tk l1(2)] have lt: "length P < progByte" and
    rd0: "rd m (length P) = Inr (l ! 0)" by (auto simp: rd_def)
  from nth_in_line[OF tk l1(1)] have rd1: "rd m (length P + 1) = Inr (l ! 1)"
    by (auto simp: rd_def)
  have hd: "l ! 0 = hd l" using l1 by (cases l) auto
  have less: "hd l < targetNum" using Cons.prems(5) by simp
  have "take progByte m = (P @ l) @ concat (pre @ rest)" using tk by simp
  from Cons.IH[OF this Cons.prems(2,3)] Cons.prems(4,5,6)
  have ih: "wipeSeekLineStart_loop m progByte targetNum (length P + length l) =
           (if rest = [] then Inr (MAX_PROG_SIZE, False)
            else Inr (length P + length l + length (concat pre), hd (hd rest) = targetNum))"
    by simp
  show ?case
    using lt rd0 rd1 hd less valid_line_len[OF vl] ih Cons.prems(3)
    by (subst wipeSeekLineStart_loop.simps) (auto simp: add.assoc)
qed

lemma wipeCopyDown_beyond:
  "length m < src + n \<Longrightarrow> src \<le> length m \<Longrightarrow> dst \<le> src \<Longrightarrow>
     wipeCopyDown m dst src n = Inl OutOfBounds"
proof (induction n arbitrary: m dst src)
  case 0
  then show ?case by simp
next
  case (Suc n)
  show ?case
  proof (cases "src < length m")
    case False
    then show ?thesis by (simp add: rd_def)
  next
    case True
    with Suc.prems have w: "wr m dst (m ! src) = Inr (m[dst := m ! src])" by (simp add: wr_def)
    have "wipeCopyDown (m[dst := m ! src]) (Suc dst) (Suc src) n = Inl OutOfBounds"
      using Suc.prems True by (intro Suc.IH) auto
    with True w show ?thesis by (simp add: rd_def)
  qed
qed

lemma del_example_line_simps:
  "length (del_example_line k) = 65" "hd (del_example_line k) = of_nat k"
  "del_example_line k ! 0 = of_nat k" "del_example_line k ! 1 = 65" "del_example_line k ! Suc 0 = 65"
  "valid_line (del_example_line k)"
  by (simp_all add: del_example_line_def valid_line_def)

lemma del_example_length: "length (concat (map del_example_line ks)) = 65 * length ks"
  by (induction ks) (simp_all add: del_example_line_simps)

lemma del_example_split: "del_example_lines = map del_example_line [1..<34] @ [del_example_line 34]"
proof -
  have "[1..<Suc 34] = [1..<34] @ [34::nat]" by (rule upt_Suc_append) simp
  moreover have "Suc 34 = 35" by simp
  ultimately have "[1..<35] = [1..<34] @ [34::nat]" by simp
  then show ?thesis by (simp add: del_example_lines_def)
qed

text \<open>
  Claim C4. The claim is that after any sequence of insertions, replacements and
  deletions the stored lines are strictly ascending and fill a prefix of the buffer.
  \<open>wipeDeleteLine\<close> copies \<open>m_wipeProgByte - lineLen + 1\<close> bytes down, not the bytes
  that follow the deleted line, so the copy runs to the index
  \<open>lineStart + m_wipeProgByte\<close>. With the 34 lines above stored in the buffer of
  \<open>MAX_PROG_SIZE\<close> bytes, strictly ascending, \<open>del 34\<close> finds the last line at index
  2145 and copies 2146 bytes from index 2210 on: the copy leaves the buffer, and the
  command yields no buffer at all.
\<close>

theorem wipe_delete_copies_beyond_buffer:
  "length (m_program del_example) = MAX_PROG_SIZE \<and>
   program_lines (m_program del_example) (m_wipeProgByte del_example) del_example_lines \<and>
   map (\<lambda>l. unat (hd l)) del_example_lines = [1..<35] \<and>
   wipeDelLines del_example 34 34 = Some (Inl OutOfBounds)"
proof -
  let ?m = "m_program del_example"
  let ?pre = "map del_example_line [1..<34]"
  have len: "length (concat del_example_lines) = 2210"
    unfolding del_example_lines_def del_example_length by simp
  have lpre: "length (concat ?pre) = 2145"
    unfolding del_example_length by simp
  have size: "length ?m = MAX_PROG_SIZE"
    by (simp add: del_example_def len)
  have tk: "take 2210 ?m = concat del_example_lines"
    by (simp add: del_example_def len)
  have valid: "list_all valid_line del_example_lines"
    by (simp add: del_example_lines_def list_all_iff del_example_line_simps)
  have pl: "program_lines ?m (m_wipeProgByte del_example) del_example_lines"
    using tk size valid by (simp add: program_lines_def del_example_def)
  have "map (\<lambda>x. unat (of_nat x :: 8 word)) [1..<35] = [1..<35]"
    by (rule map_idI) (simp add: unat_of_nat_byte)
  then have nums: "map (\<lambda>l. unat (hd l)) del_example_lines = [1..<35]"
    by (simp add: del_example_lines_def comp_def del_example_line_simps)
  have tk2: "take 2210 ?m = [] @ concat (?pre @ [del_example_line 34])"
    using tk by (simp add: del_example_split)
  have below: "\<forall>l\<in>set ?pre. hd l < 34"
    by (auto simp: del_example_line_simps word_less_nat_alt unat_of_nat_byte)
  have seek: "wipeSeekLineStart del_example 34 = Inr (2145, True)"
    unfolding wipeSeekLineStart_def
    using wipeSeekLineStart_loop_lines[OF tk2 _ _ _ below] size valid lpre
    by (simp add: del_example_def del_example_split del_example_line_simps)
  have tk3: "take 2210 ?m = concat ?pre @ del_example_line 34 @ []"
    using tk by (simp add: del_example_split)
  from nth_in_line[OF tk3, of 0, unfolded lpre] nth_in_line[OF tk3, of 1, unfolded lpre]
  have rd0: "rd ?m 2145 = Inr 34" and rd1: "rd ?m 2146 = Inr 65"
    by (simp_all add: rd_def del_example_line_simps)
  have copy: "wipeCopyDown ?m 2145 (2145 + 65) 2146 = Inl OutOfBounds"
    by (rule wipeCopyDown_beyond) (simp_all add: size)
  have del: "wipeDeleteLine del_example 2145 65 = Inl OutOfBounds"
    using rd1 copy by (simp add: wipeDeleteLine_def Let_def uint16_def del_example_def)
  have "wipeDelLines del_example 34 34 = Some (Inl OutOfBounds)"
    using seek rd0 rd1 del
    by (simp add: wipeDelLines_def wipeDelLines_loop.simps del_example_def)
  with size pl nums show ?thesis by simp
qed

end
